(* ===== verification/Prelude.thy ===== *)
theory Prelude
  imports Main "HOL-Library.Word" "HOL-Library.Multiset" "HOL-Library.Signed_Division"
begin

unbundle bit_operations_syntax

text \<open>
  Shared vocabulary of the development.

  \<^item> Faults. A C function of the support libraries can leave the normal path in three ways: a failed
    \<open>IDRIS2_REFC_VERIFY\<close> / \<open>IDRIS2_VERIFY\<close> (\<open>abort\<close>), an explicit \<open>exit\<close>, or behaviour the C
    standard leaves undefined. All three are values of \<open>fault\<close>, so that no definition hides one.
    \<open>Out_of_fuel\<close> is used only by loops without a static bound; every use comes with a lemma that
    says how much fuel is enough.
  \<^item> Results. \<open>'a res\<close> is \<open>fault + 'a\<close>; \<open>bindr\<close> sequences two fallible steps, \<open>checkr\<close> is the
    VERIFY macro, \<open>eachr\<close> is a \<open>for\<close> loop over a list of indices.
  \<^item> Transition systems. The locale \<open>transitions\<close> is the interface of a component that is a step relation: its
    reachable states, and invariants by induction over them.
  \<^item> Generic lemmas on lists, multisets and words used by several components.
\<close>

datatype ub =
    Null_deref      \<comment> \<open>access through a null pointer\<close>
  | Dangling        \<comment> \<open>access to an object that is not allocated\<close>
  | Out_of_bounds   \<comment> \<open>access outside an allocated block\<close>
  | Bad_type        \<comment> \<open>an object read at a type it does not have\<close>
  | Bad_free        \<comment> \<open>free of something that is not an allocated block\<close>
  | Uninitialised   \<comment> \<open>read of an indeterminate value\<close>
  | Div_zero        \<comment> \<open>integer division or remainder by zero\<close>
  | Int_overflow    \<comment> \<open>signed overflow\<close>
  | Bad_shift       \<comment> \<open>shift count out of range or shift of a negative value\<close>
  | Overlap         \<comment> \<open>memcpy between overlapping ranges\<close>

datatype fault =
    Verify_failed
  | Exit int
  | Undefined ub
  | Out_of_fuel

type_synonym 'a res = "fault + 'a"

definition bindr :: "'a res \<Rightarrow> ('a \<Rightarrow> 'b res) \<Rightarrow> 'b res" where
  "bindr r f = (case r of Inl e \<Rightarrow> Inl e | Inr x \<Rightarrow> f x)"

text \<open>\<open>IDRIS2_REFC_VERIFY(cond, ...)\<close>: \<open>abort\<close> when the condition is false.\<close>

definition checkr :: "bool \<Rightarrow> unit res" where
  "checkr b = (if b then Inr () else Inl Verify_failed)"

text \<open>A loop body run for each index in turn, threading the state; the first fault stops it.\<close>

primrec eachr :: "('i \<Rightarrow> 's \<Rightarrow> 's res) \<Rightarrow> 'i list \<Rightarrow> 's \<Rightarrow> 's res" where
  "eachr f [] s = Inr s"
| "eachr f (i # is) s = bindr (f i s) (eachr f is)"

named_theorems res_simps \<open>rewriting of fallible steps\<close>

lemma bindr_Inl [simp]: "bindr (Inl e) f = Inl e"
  and bindr_Inr [simp]: "bindr (Inr x) f = f x"
  by (simp_all add: bindr_def)

lemma bindr_eq_Inr [res_simps]: "bindr r f = Inr y \<longleftrightarrow> (\<exists>x. r = Inr x \<and> f x = Inr y)"
  by (cases r) simp_all

lemma Inr_eq_bindr [res_simps]: "Inr y = bindr r f \<longleftrightarrow> (\<exists>x. r = Inr x \<and> f x = Inr y)"
  by (cases r) auto

lemma bindr_eq_Inl [res_simps]:
  "bindr r f = Inl e \<longleftrightarrow> r = Inl e \<or> (\<exists>x. r = Inr x \<and> f x = Inl e)"
  by (cases r) simp_all

lemma bindr_assoc: "bindr (bindr r f) g = bindr r (\<lambda>x. bindr (f x) g)"
  by (cases r) simp_all

lemma checkr_True [simp]: "checkr True = Inr ()"
  and checkr_False [simp]: "checkr False = Inl Verify_failed"
  by (simp_all add: checkr_def)

lemma checkr_eq_Inr [res_simps]: "checkr b = Inr u \<longleftrightarrow> b"
  by (simp add: checkr_def)

lemma checkr_eq_Inl [res_simps]: "checkr b = Inl e \<longleftrightarrow> \<not> b \<and> e = Verify_failed"
  by (auto simp: checkr_def)

lemma eachr_append: "eachr f (is @ js) s = bindr (eachr f is s) (eachr f js)"
proof (induction "is" arbitrary: s)
  case (Cons i "is")
  then show ?case by (cases "f i s") simp_all
qed simp

lemma eachr_snoc: "eachr f (is @ [j]) s = bindr (eachr f is s) (f j)"
proof (cases "eachr f is s")
  case (Inr t)
  then show ?thesis by (cases "f j t") (simp_all add: eachr_append)
qed (simp add: eachr_append)

text \<open>
  The loop rule: an invariant indexed by the number of finished iterations. It gives total
  correctness, because a loop over a list of indices has no other way to fail than its body.
\<close>

lemma eachr_invariant:
  assumes "P 0 s"
    and "\<And>k s. k < n \<Longrightarrow> P k s \<Longrightarrow> \<exists>s'. f k s = Inr s' \<and> P (Suc k) s'"
  shows "\<exists>s'. eachr f [0..<n] s = Inr s' \<and> P n s'"
  using assms(2)
proof (induction n)
  case 0
  with assms(1) show ?case by simp
next
  case (Suc n)
  then obtain s' where "eachr f [0..<n] s = Inr s'" "P n s'"
    by fastforce
  moreover obtain s'' where "f n s' = Inr s''" "P (Suc n) s''"
    using Suc.prems [of n s'] \<open>P n s'\<close> by blast
  ultimately show ?case by (simp add: eachr_snoc)
qed

subsection \<open>Transition systems\<close>

locale transitions =
  fixes start :: "'s \<Rightarrow> bool" and step :: "'s \<Rightarrow> 's \<Rightarrow> bool"
begin

definition reachable :: "'s \<Rightarrow> bool" where
  "reachable s \<longleftrightarrow> (\<exists>s0. start s0 \<and> step\<^sup>*\<^sup>* s0 s)"

lemma reachable_start: "start s \<Longrightarrow> reachable s"
  by (auto simp: reachable_def)

lemma reachable_step: "reachable s \<Longrightarrow> step s s' \<Longrightarrow> reachable s'"
  by (auto simp: reachable_def intro: rtranclp.rtrancl_into_rtrancl)

lemma invariant:
  assumes "reachable s" "\<And>s. start s \<Longrightarrow> I s" "\<And>s s'. reachable s \<Longrightarrow> I s \<Longrightarrow> step s s' \<Longrightarrow> I s'"
  shows "I s"
proof -
  obtain s0 where "step\<^sup>*\<^sup>* s0 s" "start s0" using assms(1) by (auto simp: reachable_def)
  then have "reachable s \<and> I s"
    by (induction rule: rtranclp_induct) (auto intro: reachable_start reachable_step assms(2,3))
  then show ?thesis ..
qed

end

subsection \<open>Lists and multisets\<close>

lemma update_append_middle:
  "i = length xs \<Longrightarrow> (xs @ y # ys)[i := z] = xs @ z # ys"
  by (simp add: list_update_append)

lemma take_Suc_update:
  "i < length xs \<Longrightarrow> take (Suc i) (xs[i := v]) = take i xs @ [v]"
  by (simp add: take_Suc_conv_app_nth)

lemma drop_Suc_update: "drop (Suc i) (xs[i := v]) = drop (Suc i) xs"
  by (simp add: drop_update_cancel)

lemma sum_fun_upd_mset:
  assumes "finite A" "a \<in> A"
  shows "(\<Sum>b\<in>A. (f(a := x)) b) + f a = (\<Sum>b\<in>A. f b) + (x :: 'b multiset)"
proof -
  have "(\<Sum>b\<in>A - {a}. (f(a := x)) b) = (\<Sum>b\<in>A - {a}. f b)"
    by (rule sum.cong) auto
  with assms show ?thesis
    by (simp add: sum.remove [of A a] ac_simps)
qed

subsection \<open>Words\<close>

lemma word_of_nat_inj:
  assumes "x < 2 ^ LENGTH('a)" "y < 2 ^ LENGTH('a)"
  shows "(word_of_nat x :: 'a::len word) = word_of_nat y \<longleftrightarrow> x = y"
  using assms by (auto simp: word_of_nat_eq_iff take_bit_nat_eq_self)

end
