(* ===== verification/C_Integers.thy ===== *)
theory C_Integers
  imports Prelude
begin

text \<open>
  The integer arithmetic of C that the RefC runtime relies on (the target is an LP64 platform:
  \<open>int\<close> has 32 bits, \<open>long\<close>, \<open>size_t\<close> and \<open>uintptr_t\<close> have 64). A C expression is evaluated to a
  mathematical integer; \<open>c_conv\<close> is the conversion to an integer type, \<open>c_promote\<close> the type in
  which an operator computes on operands of that type, and \<open>c_fit\<close> the value of an operator:
  unsigned results wrap around, a signed result out of range is undefined behaviour.
\<close>

datatype ity = Bits8 | Bits16 | Bits32 | Bits64 | Int8 | Int16 | Int32 | Int64 | Char

primrec width :: "ity \<Rightarrow> nat" where
  "width Bits8 = 8"
| "width Bits16 = 16"
| "width Bits32 = 32"
| "width Bits64 = 64"
| "width Int8 = 8"
| "width Int16 = 16"
| "width Int32 = 32"
| "width Int64 = 64"
| "width Char = 8"

primrec is_signed :: "ity \<Rightarrow> bool" where
  "is_signed Bits8 = False"
| "is_signed Bits16 = False"
| "is_signed Bits32 = False"
| "is_signed Bits64 = False"
| "is_signed Int8 = True"
| "is_signed Int16 = True"
| "is_signed Int32 = True"
| "is_signed Int64 = True"
| "is_signed Char = False"   \<comment> \<open>\<open>unsigned char\<close>: the type that \<open>idris2_vp_to_Char\<close> reads\<close>

definition c_conv :: "ity \<Rightarrow> int \<Rightarrow> int" where
  "c_conv ty v = (if is_signed ty then signed_take_bit (width ty - 1) v else take_bit (width ty) v)"

definition c_min :: "ity \<Rightarrow> int" where
  "c_min ty = (if is_signed ty then - (2 ^ (width ty - 1)) else 0)"

definition c_max :: "ity \<Rightarrow> int" where
  "c_max ty = (if is_signed ty then 2 ^ (width ty - 1) - 1 else 2 ^ width ty - 1)"

definition in_range :: "ity \<Rightarrow> int \<Rightarrow> bool" where
  "in_range ty v \<longleftrightarrow> c_min ty \<le> v \<and> v \<le> c_max ty"

definition c_promote :: "ity \<Rightarrow> ity" where
  "c_promote ty = (if width ty < 32 then Int32 else ty)"

definition c_fit :: "ity \<Rightarrow> int \<Rightarrow> int res" where
  "c_fit ty v =
     (if is_signed ty then (if in_range ty v then Inr v else Inl (Undefined Int_overflow))
      else Inr (c_conv ty v))"

subsection \<open>Operators on two operands of one type\<close>

definition c_add :: "ity \<Rightarrow> int \<Rightarrow> int \<Rightarrow> int res" where
  "c_add ty a b = c_fit (c_promote ty) (a + b)"

definition c_sub :: "ity \<Rightarrow> int \<Rightarrow> int \<Rightarrow> int res" where
  "c_sub ty a b = c_fit (c_promote ty) (a - b)"

definition c_neg :: "ity \<Rightarrow> int \<Rightarrow> int res" where
  "c_neg ty a = c_fit (c_promote ty) (- a)"

definition c_mul :: "ity \<Rightarrow> int \<Rightarrow> int \<Rightarrow> int res" where
  "c_mul ty a b = c_fit (c_promote ty) (a * b)"

definition c_div :: "ity \<Rightarrow> int \<Rightarrow> int \<Rightarrow> int res" where
  "c_div ty a b =
     (if b = 0 then Inl (Undefined Div_zero) else c_fit (c_promote ty) (a sdiv b))"

text \<open>\<open>a % b\<close> is undefined when \<open>a / b\<close> is not representable (\<open>INT_MIN % -1\<close>).\<close>

definition c_mod :: "ity \<Rightarrow> int \<Rightarrow> int \<Rightarrow> int res" where
  "c_mod ty a b =
     (if b = 0 then Inl (Undefined Div_zero)
      else bindr (c_fit (c_promote ty) (a sdiv b)) (\<lambda>_. Inr (a smod b)))"

definition c_shl :: "ity \<Rightarrow> int \<Rightarrow> int \<Rightarrow> int res" where
  "c_shl ty a b =
     (if b < 0 \<or> int (width (c_promote ty)) \<le> b then Inl (Undefined Bad_shift)
      else if a < 0 then Inl (Undefined Bad_shift)
      else c_fit (c_promote ty) (a * 2 ^ nat b))"

text \<open>A right shift of a negative value is implementation-defined; the supported compilers (GCC,
  Clang) shift arithmetically.\<close>

definition c_shr :: "ity \<Rightarrow> int \<Rightarrow> int \<Rightarrow> int res" where
  "c_shr ty a b =
     (if b < 0 \<or> int (width (c_promote ty)) \<le> b then Inl (Undefined Bad_shift)
      else Inr (a div 2 ^ nat b))"

definition c_and :: "ity \<Rightarrow> int \<Rightarrow> int \<Rightarrow> int res" where
  "c_and ty a b = Inr (a AND b)"

definition c_or :: "ity \<Rightarrow> int \<Rightarrow> int \<Rightarrow> int res" where
  "c_or ty a b = Inr (a OR b)"

definition c_xor :: "ity \<Rightarrow> int \<Rightarrow> int \<Rightarrow> int res" where
  "c_xor ty a b = Inr (a XOR b)"

named_theorems c_int \<open>the C operators and their types, unfolded\<close>

declare c_add_def [c_int] c_sub_def [c_int] c_neg_def [c_int] c_mul_def [c_int]
  c_div_def [c_int] c_mod_def [c_int] c_shl_def [c_int] c_shr_def [c_int]
  c_and_def [c_int] c_or_def [c_int] c_xor_def [c_int]
  c_promote_def [c_int] c_fit_def [c_int]

subsection \<open>Conversions\<close>

lemma width_pos [simp]: "0 < width ty"
  by (cases ty) simp_all

lemma in_range_code [c_int]:
  "in_range Bits8 v \<longleftrightarrow> 0 \<le> v \<and> v \<le> 255"
  "in_range Bits16 v \<longleftrightarrow> 0 \<le> v \<and> v \<le> 65535"
  "in_range Bits32 v \<longleftrightarrow> 0 \<le> v \<and> v \<le> 4294967295"
  "in_range Bits64 v \<longleftrightarrow> 0 \<le> v \<and> v \<le> 18446744073709551615"
  "in_range Int8 v \<longleftrightarrow> - 128 \<le> v \<and> v \<le> 127"
  "in_range Int16 v \<longleftrightarrow> - 32768 \<le> v \<and> v \<le> 32767"
  "in_range Int32 v \<longleftrightarrow> - 2147483648 \<le> v \<and> v \<le> 2147483647"
  "in_range Int64 v \<longleftrightarrow> - 9223372036854775808 \<le> v \<and> v \<le> 9223372036854775807"
  "in_range Char v \<longleftrightarrow> 0 \<le> v \<and> v \<le> 255"
  by (auto simp: in_range_def c_min_def c_max_def)

lemma c_conv_eq_self_iff: "c_conv ty v = v \<longleftrightarrow> in_range ty v"
  by (auto simp: c_conv_def in_range_def c_min_def c_max_def take_bit_int_eq_self_iff
      signed_take_bit_int_eq_self_iff)

lemma c_conv_idem [simp]: "c_conv ty (c_conv ty v) = c_conv ty v"
  by (simp add: c_conv_def)

lemma c_conv_in_range [simp]: "in_range ty (c_conv ty v)"
  by (simp flip: c_conv_eq_self_iff)

lemma c_conv_self [simp]: "in_range ty v \<Longrightarrow> c_conv ty v = v"
  by (simp add: c_conv_eq_self_iff)

text \<open>Only the low \<open>width ty\<close> bits of a value matter for a conversion to \<open>ty\<close>.\<close>

lemma c_conv_eq_iff: "c_conv ty u = c_conv ty v \<longleftrightarrow> take_bit (width ty) u = take_bit (width ty) v"
  by (simp add: c_conv_def signed_take_bit_eq_iff_take_bit_eq)

lemma take_bit_c_conv [simp]: "n \<le> width ty \<Longrightarrow> take_bit n (c_conv ty v) = take_bit n v"
  by (cases "is_signed ty"; cases "n = width ty")
    (auto simp: c_conv_def take_bit_signed_take_bit min_def)

lemma c_conv_take_bit [simp]: "width ty \<le> n \<Longrightarrow> c_conv ty (take_bit n v) = c_conv ty v"
  by (simp add: c_conv_eq_iff min_def)

lemma c_conv_narrow [simp]: "width ty \<le> width ty' \<Longrightarrow> c_conv ty (c_conv ty' v) = c_conv ty v"
  by (simp add: c_conv_eq_iff)

lemma c_conv_mod_add: "c_conv ty (c_conv ty u + c_conv ty v) = c_conv ty (u + v)"
  by (simp add: c_conv_def take_bit_add signed_take_bit_add)

lemma c_fit_Inr: "c_fit ty v = Inr w \<Longrightarrow> w = c_conv ty v"
  by (auto simp: c_fit_def split: if_splits)

lemma c_fit_in_range [simp]: "in_range ty v \<Longrightarrow> c_fit ty v = Inr v"
  by (simp add: c_fit_def)

lemma c_fit_small [simp]: "width ty < 32 \<Longrightarrow> in_range Int32 v \<Longrightarrow> c_fit (c_promote ty) v = Inr v"
  by (simp add: c_promote_def)

end
