(* ===== verification/Datatypes.thy ===== *)
theory Datatypes
  imports C_Integers
begin

text \<open>
  \<open>refc/_datatypes.h\<close> and the constructor macros of \<open>refc/memoryManagement.h\<close>, on a platform with
  \<open>UINTPTR_WIDTH \<ge> 64\<close>: the type tags, the layouts of the heap objects, and the representation of
  small integers inside a pointer.

  A pointer is its 64-bit value. Bits 0 and 1 of a real object address are zero, so a pointer with
  one of them set is an integer kept in the upper half of the word (\<open>idris2_vp_is_unboxed\<close>). The
  bool-valued \<open>idris2_vp_is_unboxed\<close> is the C expression used as a condition.

  Each \<open>Idris2_Xxx\<close> struct is the common header (a record with the reference counter and the tag)
  followed by a payload, one constructor per struct with the fields of that struct. The header's
  \<open>reserved\<close> byte is never read by the program and is left out. A \<open>double\<close> is its IEEE bit pattern.
  The flexible \<open>args[]\<close> member is a list of optional pointers: \<open>None\<close> is a slot that has been
  allocated and not been written.
\<close>

type_synonym addr = "64 word"
type_synonym byte = "8 word"

text \<open>The bytes of a string literal of the source, without the final zero.\<close>

definition chars :: "string \<Rightarrow> byte list" where
  "chars s = map (\<lambda>c. of_char c) s"

definition NO_TAG :: "8 word" where "NO_TAG = 0"
definition BITS32_TAG :: "8 word" where "BITS32_TAG = 3"
definition BITS64_TAG :: "8 word" where "BITS64_TAG = 4"
definition INT32_TAG :: "8 word" where "INT32_TAG = 7"
definition INT64_TAG :: "8 word" where "INT64_TAG = 8"
definition INTEGER_TAG :: "8 word" where "INTEGER_TAG = 9"
definition DOUBLE_TAG :: "8 word" where "DOUBLE_TAG = 10"
definition STRING_TAG :: "8 word" where "STRING_TAG = 12"
definition CLOSURE_TAG :: "8 word" where "CLOSURE_TAG = 15"
definition CONSTRUCTOR_TAG :: "8 word" where "CONSTRUCTOR_TAG = 17"
definition IOREF_TAG :: "8 word" where "IOREF_TAG = 20"
definition ARRAY_TAG :: "8 word" where "ARRAY_TAG = 21"
definition POINTER_TAG :: "8 word" where "POINTER_TAG = 22"
definition GC_POINTER_TAG :: "8 word" where "GC_POINTER_TAG = 23"
definition BUFFER_TAG :: "8 word" where "BUFFER_TAG = 24"
definition MUTEX_TAG :: "8 word" where "MUTEX_TAG = 30"
definition CONDITION_TAG :: "8 word" where "CONDITION_TAG = 31"

definition IDRIS2_VP_REFCOUNTER_MAX :: "16 word" where
  "IDRIS2_VP_REFCOUNTER_MAX = 65535"

datatype payload =
    No_payload
  | Idris2_Bits32 "32 word"
  | Idris2_Bits64 "64 word"
  | Idris2_Int32 "32 word"
  | Idris2_Int64 "64 word"
  | Idris2_Integer int
  | Idris2_Double "64 word"
  | Idris2_String addr
  | Idris2_Constructor "32 word" "32 word" addr "addr option list"
  | Idris2_Closure addr "8 word" "8 word" "addr option list"
  | Idris2_IORef addr
  | Idris2_Pointer addr
  | Idris2_GCPointer addr addr
  | Idris2_Array "32 word" addr
  | Idris2_Buffer addr
  | Idris2_Mutex addr
  | Idris2_Condition addr

record Idris2_header =
  refCounter :: "16 word"
  tag :: "8 word"

record Idris2_Value = Idris2_header +
  payload :: payload

definition IDRIS2_STOCKVAL :: "8 word \<Rightarrow> payload \<Rightarrow> Idris2_Value" where
  "IDRIS2_STOCKVAL t pl = \<lparr>refCounter = IDRIS2_VP_REFCOUNTER_MAX, tag = t, payload = pl\<rparr>"

text \<open>The tag each struct is created with.\<close>

primrec payload_tag :: "payload \<Rightarrow> 8 word" where
  "payload_tag No_payload = NO_TAG"
| "payload_tag (Idris2_Bits32 _) = BITS32_TAG"
| "payload_tag (Idris2_Bits64 _) = BITS64_TAG"
| "payload_tag (Idris2_Int32 _) = INT32_TAG"
| "payload_tag (Idris2_Int64 _) = INT64_TAG"
| "payload_tag (Idris2_Integer _) = INTEGER_TAG"
| "payload_tag (Idris2_Double _) = DOUBLE_TAG"
| "payload_tag (Idris2_String _) = STRING_TAG"
| "payload_tag (Idris2_Constructor _ _ _ _) = CONSTRUCTOR_TAG"
| "payload_tag (Idris2_Closure _ _ _ _) = CLOSURE_TAG"
| "payload_tag (Idris2_IORef _) = IOREF_TAG"
| "payload_tag (Idris2_Pointer _) = POINTER_TAG"
| "payload_tag (Idris2_GCPointer _ _) = GC_POINTER_TAG"
| "payload_tag (Idris2_Array _ _) = ARRAY_TAG"
| "payload_tag (Idris2_Buffer _) = BUFFER_TAG"
| "payload_tag (Idris2_Mutex _) = MUTEX_TAG"
| "payload_tag (Idris2_Condition _) = CONDITION_TAG"

lemmas tag_defs = NO_TAG_def BITS32_TAG_def BITS64_TAG_def INT32_TAG_def INT64_TAG_def
  INTEGER_TAG_def DOUBLE_TAG_def STRING_TAG_def CLOSURE_TAG_def CONSTRUCTOR_TAG_def IOREF_TAG_def
  ARRAY_TAG_def POINTER_TAG_def GC_POINTER_TAG_def BUFFER_TAG_def MUTEX_TAG_def CONDITION_TAG_def

subsection \<open>Integers inside pointers\<close>

definition idris2_vp_is_unboxed :: "addr \<Rightarrow> bool" where
  "idris2_vp_is_unboxed p \<longleftrightarrow> p AND 3 \<noteq> 0"

definition idris2_vp_int_shift :: nat where
  "idris2_vp_int_shift = 32"

definition idris2_vp_to_Bits32 :: "addr \<Rightarrow> int" where
  "idris2_vp_to_Bits32 p = c_conv Bits32 (uint (drop_bit idris2_vp_int_shift p))"

definition idris2_vp_to_Int32 :: "addr \<Rightarrow> int" where
  "idris2_vp_to_Int32 p = c_conv Int32 (uint (drop_bit idris2_vp_int_shift p))"

definition idris2_vp_to_Bits16 :: "addr \<Rightarrow> int" where
  "idris2_vp_to_Bits16 p = c_conv Bits16 (uint (drop_bit idris2_vp_int_shift p))"

definition idris2_vp_to_Bits8 :: "addr \<Rightarrow> int" where
  "idris2_vp_to_Bits8 p = c_conv Bits8 (uint (drop_bit idris2_vp_int_shift p))"

definition idris2_vp_to_Int16 :: "addr \<Rightarrow> int" where
  "idris2_vp_to_Int16 p = c_conv Int16 (uint (drop_bit idris2_vp_int_shift p))"

definition idris2_vp_to_Int8 :: "addr \<Rightarrow> int" where
  "idris2_vp_to_Int8 p = c_conv Int8 (uint (drop_bit idris2_vp_int_shift p))"

definition idris2_vp_to_Char :: "addr \<Rightarrow> int" where
  "idris2_vp_to_Char p = c_conv Char (uint (drop_bit idris2_vp_int_shift p))"

definition idris2_vp_to_Bool :: "addr \<Rightarrow> int" where
  "idris2_vp_to_Bool p = idris2_vp_to_Int8 p"

text \<open>The argument of a constructor macro is the value of a C expression of any integer type; the
  cast to \<open>uintptr_t\<close> keeps it modulo \<open>2 ^ 64\<close>.\<close>

definition idris2_mkChar :: "int \<Rightarrow> addr" where
  "idris2_mkChar x = push_bit idris2_vp_int_shift (word_of_int x) + 1"

definition idris2_mkBits8 :: "int \<Rightarrow> addr" where
  "idris2_mkBits8 x = push_bit idris2_vp_int_shift (word_of_int x) + 1"

definition idris2_mkBits16 :: "int \<Rightarrow> addr" where
  "idris2_mkBits16 x = push_bit idris2_vp_int_shift (word_of_int x) + 1"

definition idris2_mkBits32 :: "int \<Rightarrow> addr" where
  "idris2_mkBits32 x = push_bit idris2_vp_int_shift (word_of_int x) + 1"

definition idris2_mkInt32 :: "int \<Rightarrow> addr" where
  "idris2_mkInt32 x = push_bit idris2_vp_int_shift (word_of_int x) + 1"

definition idris2_mkInt8 :: "int \<Rightarrow> addr" where
  "idris2_mkInt8 x = push_bit idris2_vp_int_shift (word_of_int x) + 1"

definition idris2_mkInt16 :: "int \<Rightarrow> addr" where
  "idris2_mkInt16 x = push_bit idris2_vp_int_shift (word_of_int x) + 1"

definition idris2_mkBool :: "int \<Rightarrow> addr" where
  "idris2_mkBool x = idris2_mkInt8 x"

lemmas unboxed_mk_defs = idris2_mkChar_def idris2_mkBits8_def idris2_mkBits16_def
  idris2_mkBits32_def idris2_mkInt32_def idris2_mkInt8_def idris2_mkInt16_def

lemmas unboxed_to_defs = idris2_vp_to_Char_def idris2_vp_to_Bits8_def idris2_vp_to_Bits16_def
  idris2_vp_to_Bits32_def idris2_vp_to_Int32_def idris2_vp_to_Int8_def idris2_vp_to_Int16_def

subsection \<open>Facts about the representation\<close>

lemma unboxed_plus_one: "push_bit 32 w + 1 = push_bit 32 w OR (1 :: 64 word)"
  by (rule disjunctive_add) (auto simp: bit_simps)

lemma uint_unboxed: "uint (drop_bit 32 (push_bit 32 (word_of_int x) + 1 :: 64 word)) = take_bit 32 x"
proof -
  have "drop_bit 32 (push_bit 32 (word_of_int x) + 1 :: 64 word) = word_of_int (take_bit 32 x)"
    unfolding unboxed_plus_one by (rule bit_word_eqI) (auto simp: bit_simps)
  then show ?thesis
    by (simp add: uint_word_of_int_eq take_bit_take_bit min_def)
qed

text \<open>Reading at a width of at most 32 bits returns the stored expression converted to that type.\<close>

lemma unboxed_roundtrip:
  "width ty \<le> 32 \<Longrightarrow>
   c_conv ty (uint (drop_bit idris2_vp_int_shift (push_bit idris2_vp_int_shift (word_of_int x) + 1 :: addr)))
   = c_conv ty x"
  unfolding idris2_vp_int_shift_def uint_unboxed by simp

lemma mk_is_unboxed: "idris2_vp_is_unboxed (push_bit idris2_vp_int_shift w + 1)"
proof -
  have "bit ((push_bit 32 w OR 1) AND 3 :: 64 word) 0"
    by (simp add: bit_simps)
  then have "(push_bit 32 w OR 1) AND 3 \<noteq> (0 :: 64 word)"
    by (metis bit_0_eq bot_apply bot_bool_def)
  then show ?thesis
    by (simp only: idris2_vp_is_unboxed_def idris2_vp_int_shift_def unboxed_plus_one not_False_eq_True)
qed

end
