(* ===== verification/C_Memory.thy ===== *)
theory C_Memory
  imports Datatypes
begin

text \<open>
  The part of the C memory model and of \<open><stdlib.h>\<close> / \<open><string.h>\<close> that the runtime uses.

  Memory is a map from addresses to live runtime objects, a map from addresses to raw blocks (the
  \<open>char\<close> arrays of strings and buffers, the pointer arrays of \<open>Idris2_Array\<close>), and an allocation
  counter. \<open>malloc\<close> hands out the next address, a multiple of 16, and never reuses one, so an access
  to freed memory is always visible as a \<open>Dangling\<close> fault. Allocation fails (a null pointer) once
  the counter reaches \<open>lim\<close>, or when the request is larger than \<open>PTRDIFF_MAX\<close>; \<open>lim\<close> is arbitrary, so
  the out-of-memory paths are part of every theorem. A block cell is \<open>None\<close> until it is written.
  Pointer arithmetic is never a fault in itself: an access is what is checked, at its block and offset.

  The static objects of the runtime (\<open>idris2_predefined_Int64\<close>, ...) live at fixed addresses below
  \<open>static_end\<close>.
\<close>

datatype blk = Bytes "byte option list" | Ptrs "addr option list"

record mem =
  objs :: "addr \<rightharpoonup> Idris2_Value"
  blks :: "addr \<rightharpoonup> blk"
  brk :: nat
  lim :: nat
  predefined_integer_initialized :: bool

definition addr_of :: "nat \<Rightarrow> addr" where
  "addr_of k = word_of_nat (16 * k)"

definition can_alloc :: "nat \<Rightarrow> mem \<Rightarrow> bool" where
  "can_alloc n m \<longleftrightarrow> brk m < lim m \<and> n < 2 ^ 63"

definition c_malloc :: "nat \<Rightarrow> mem \<Rightarrow> addr \<times> mem" where
  "c_malloc n m =
     (if can_alloc n m
      then (addr_of (brk m),
            m\<lparr>blks := (blks m)(addr_of (brk m) \<mapsto> Bytes (replicate n None)), brk := Suc (brk m)\<rparr>)
      else (0, m))"

text \<open>\<open>malloc\<close> of an array of \<open>n\<close> pointers.\<close>

definition c_malloc_ptrs :: "nat \<Rightarrow> mem \<Rightarrow> addr \<times> mem" where
  "c_malloc_ptrs n m =
     (if can_alloc (8 * n) m
      then (addr_of (brk m),
            m\<lparr>blks := (blks m)(addr_of (brk m) \<mapsto> Ptrs (replicate n None)), brk := Suc (brk m)\<rparr>)
      else (0, m))"

text \<open>\<open>aligned_alloc\<close> of storage for a runtime object; its content is overwritten before it is read.\<close>

definition c_aligned_alloc :: "nat \<Rightarrow> mem \<Rightarrow> addr \<times> mem" where
  "c_aligned_alloc n m =
     (if can_alloc n m
      then (addr_of (brk m),
            m\<lparr>objs := (objs m)(addr_of (brk m) \<mapsto> \<lparr>refCounter = 0, tag = 0, payload = No_payload\<rparr>),
              brk := Suc (brk m)\<rparr>)
      else (0, m))"

definition c_free :: "addr \<Rightarrow> mem \<Rightarrow> mem res" where
  "c_free p m =
     (if p = 0 then Inr m
      else if blks m p \<noteq> None then Inr (m\<lparr>blks := (blks m)(p := None)\<rparr>)
      else if objs m p \<noteq> None then Inr (m\<lparr>objs := (objs m)(p := None)\<rparr>)
      else Inl (Undefined Bad_free))"

subsection \<open>Objects\<close>

definition get_obj :: "addr \<Rightarrow> mem \<Rightarrow> Idris2_Value res" where
  "get_obj p m =
     (if p = 0 then Inl (Undefined Null_deref)
      else case objs m p of None \<Rightarrow> Inl (Undefined Dangling) | Some v \<Rightarrow> Inr v)"

definition put_obj :: "addr \<Rightarrow> Idris2_Value \<Rightarrow> mem \<Rightarrow> mem" where
  "put_obj p v m = m\<lparr>objs := (objs m)(p \<mapsto> v)\<rparr>"

definition set_payload :: "addr \<Rightarrow> 8 word \<Rightarrow> payload \<Rightarrow> mem \<Rightarrow> mem res" where
  "set_payload p t pl m =
     bindr (get_obj p m) (\<lambda>v. Inr (put_obj p (v\<lparr>tag := t, payload := pl\<rparr>) m))"

subsection \<open>Raw blocks\<close>

definition get_bytes :: "addr \<Rightarrow> mem \<Rightarrow> byte option list res" where
  "get_bytes p m =
     (if p = 0 then Inl (Undefined Null_deref)
      else case blks m p of
             None \<Rightarrow> Inl (Undefined Dangling)
           | Some (Bytes bs) \<Rightarrow> Inr bs
           | Some (Ptrs _) \<Rightarrow> Inl (Undefined Bad_type))"

definition get_ptrs :: "addr \<Rightarrow> mem \<Rightarrow> addr option list res" where
  "get_ptrs p m =
     (if p = 0 then Inl (Undefined Null_deref)
      else case blks m p of
             None \<Rightarrow> Inl (Undefined Dangling)
           | Some (Ptrs ps) \<Rightarrow> Inr ps
           | Some (Bytes _) \<Rightarrow> Inl (Undefined Bad_type))"

definition nth_res :: "'a option list \<Rightarrow> int \<Rightarrow> 'a res" where
  "nth_res xs i =
     (if 0 \<le> i \<and> i < int (length xs)
      then case xs ! nat i of None \<Rightarrow> Inl (Undefined Uninitialised) | Some v \<Rightarrow> Inr v
      else Inl (Undefined Out_of_bounds))"

definition upd_res :: "'a option list \<Rightarrow> int \<Rightarrow> 'a \<Rightarrow> 'a option list res" where
  "upd_res xs i v =
     (if 0 \<le> i \<and> i < int (length xs) then Inr (xs[nat i := Some v])
      else Inl (Undefined Out_of_bounds))"

definition load_byte :: "addr \<Rightarrow> int \<Rightarrow> mem \<Rightarrow> byte res" where
  "load_byte p i m = bindr (get_bytes p m) (\<lambda>bs. nth_res bs i)"

definition store_byte :: "addr \<Rightarrow> int \<Rightarrow> byte \<Rightarrow> mem \<Rightarrow> mem res" where
  "store_byte p i v m =
     bindr (get_bytes p m) (\<lambda>bs. bindr (upd_res bs i v)
       (\<lambda>bs'. Inr (m\<lparr>blks := (blks m)(p \<mapsto> Bytes bs')\<rparr>)))"

definition load_ptr :: "addr \<Rightarrow> int \<Rightarrow> mem \<Rightarrow> addr res" where
  "load_ptr p i m = bindr (get_ptrs p m) (\<lambda>ps. nth_res ps i)"

definition store_ptr :: "addr \<Rightarrow> int \<Rightarrow> addr \<Rightarrow> mem \<Rightarrow> mem res" where
  "store_ptr p i v m =
     bindr (get_ptrs p m) (\<lambda>ps. bindr (upd_res ps i v)
       (\<lambda>ps'. Inr (m\<lparr>blks := (blks m)(p \<mapsto> Ptrs ps')\<rparr>)))"

text \<open>A size argument: the conversion of an \<open>int\<close> expression to \<open>size_t\<close>.\<close>

definition c_size :: "int \<Rightarrow> nat" where
  "c_size v = nat (c_conv Bits64 v)"

definition c_memset :: "addr \<Rightarrow> byte \<Rightarrow> nat \<Rightarrow> mem \<Rightarrow> mem res" where
  "c_memset p v n m =
     bindr (get_bytes p m) (\<lambda>bs.
       if n \<le> length bs
       then Inr (m\<lparr>blks := (blks m)(p \<mapsto> Bytes (replicate n (Some v) @ drop n bs))\<rparr>)
       else Inl (Undefined Out_of_bounds))"

definition c_memset_ptrs :: "addr \<Rightarrow> nat \<Rightarrow> mem \<Rightarrow> mem res" where
  "c_memset_ptrs p n m =
     bindr (get_ptrs p m) (\<lambda>ps.
       if n \<le> length ps
       then Inr (m\<lparr>blks := (blks m)(p \<mapsto> Ptrs (replicate n (Some 0) @ drop n ps))\<rparr>)
       else Inl (Undefined Out_of_bounds))"

text \<open>\<open>memcpy(dst + doff, src + soff, n)\<close>.\<close>

definition c_memcpy :: "addr \<Rightarrow> int \<Rightarrow> addr \<Rightarrow> int \<Rightarrow> nat \<Rightarrow> mem \<Rightarrow> mem res" where
  "c_memcpy dst doff src soff n m =
     bindr (get_bytes src m) (\<lambda>ss. bindr (get_bytes dst m) (\<lambda>ds.
       if 0 \<le> soff \<and> soff + int n \<le> int (length ss) \<and> 0 \<le> doff \<and> doff + int n \<le> int (length ds)
       then if dst = src \<and> 0 < n \<and> doff < soff + int n \<and> soff < doff + int n
            then Inl (Undefined Overlap)
            else Inr (m\<lparr>blks := (blks m)(dst \<mapsto>
                   Bytes (take (nat doff) ds @ take n (drop (nat soff) ss) @ drop (nat doff + n) ds))\<rparr>)
       else Inl (Undefined Out_of_bounds)))"

text \<open>A C string: the bytes of a block from an offset up to the first zero byte.\<close>

fun until_nul :: "byte option list \<Rightarrow> byte list res" where
  "until_nul [] = Inl (Undefined Out_of_bounds)"
| "until_nul (None # bs) = Inl (Undefined Uninitialised)"
| "until_nul (Some b # bs) = (if b = 0 then Inr [] else bindr (until_nul bs) (\<lambda>s. Inr (b # s)))"

definition c_string :: "addr \<Rightarrow> int \<Rightarrow> mem \<Rightarrow> byte list res" where
  "c_string p i m =
     bindr (get_bytes p m) (\<lambda>bs.
       if 0 \<le> i \<and> i \<le> int (length bs) then until_nul (drop (nat i) bs)
       else Inl (Undefined Out_of_bounds))"

definition c_strlen :: "addr \<Rightarrow> int \<Rightarrow> mem \<Rightarrow> nat res" where
  "c_strlen p i m = bindr (c_string p i m) (\<lambda>s. Inr (length s))"

text \<open>\<open>strcmp\<close>: the difference of the first differing bytes, compared as \<open>unsigned char\<close>.\<close>

fun c_strcmp :: "byte list \<Rightarrow> byte list \<Rightarrow> int" where
  "c_strcmp [] [] = 0"
| "c_strcmp [] (b # bs) = - uint b"
| "c_strcmp (a # as) [] = uint a"
| "c_strcmp (a # as) (b # bs) = (if a = b then c_strcmp as bs else uint a - uint b)"

subsection \<open>Well-formed memory\<close>

definition static_end :: nat where "static_end = 320"

definition mem_wf :: "mem \<Rightarrow> bool" where
  "mem_wf m \<longleftrightarrow>
     finite (dom (objs m)) \<and> finite (dom (blks m)) \<and> dom (objs m) \<inter> dom (blks m) = {} \<and>
     dom (objs m) \<union> dom (blks m) \<subseteq> addr_of ` {0<..<brk m} \<and>
     static_end \<le> brk m \<and> lim m < 2 ^ 60 \<and> brk m \<le> lim m"

lemma addr_of_inj:
  assumes "i < 2 ^ 60" "j < 2 ^ 60"
  shows "addr_of i = addr_of j \<longleftrightarrow> i = j"
proof -
  have "16 * i < 2 ^ LENGTH(64)" "16 * j < 2 ^ LENGTH(64)"
    using assms by simp_all
  from word_of_nat_inj [OF this] show ?thesis
    unfolding addr_of_def by linarith
qed

lemma addr_of_nonzero: "0 < k \<Longrightarrow> k < 2 ^ 60 \<Longrightarrow> addr_of k \<noteq> 0"
  using addr_of_inj [of k 0] by (simp add: addr_of_def)

lemma addr_of_boxed [simp]: "\<not> idris2_vp_is_unboxed (addr_of k)"
proof -
  have "addr_of k = push_bit 4 (word_of_nat k)"
    by (simp add: addr_of_def push_bit_eq_mult)
  moreover have "push_bit 4 w AND 3 = take_bit 2 (push_bit 4 w)" for w :: "64 word"
    by (simp add: take_bit_eq_mask mask_eq_exp_minus_1)
  then have "push_bit 4 w AND 3 = 0" for w :: "64 word"
    by (simp add: take_bit_push_bit)
  ultimately show ?thesis by (simp add: idris2_vp_is_unboxed_def)
qed

end
