(* ===== verification/Memory_Management.thy ===== *)
theory Memory_Management
  imports C_Memory
begin

text \<open>
  \<open>refc/memoryManagement.c\<close>: allocation of runtime objects, the constructors of every kind of value,
  the predefined values, and \<open>idris2_newReference\<close>. (\<open>idris2_removeReference\<close> runs finalisers and
  therefore comes after the closure runtime, in \<open>Remove_Reference\<close>.)

  The sizes are those of the structs on an LP64 platform. The memory statistics of the file are
  compiled out (\<open>#if 0\<close>).
\<close>

definition idris2_newValue :: "nat \<Rightarrow> mem \<Rightarrow> (addr \<times> mem) res" where
  "idris2_newValue sz m =
     (let (retVal, m1) = c_aligned_alloc ((sz + 8 - 1) div 8 * 8) m
      in bindr (checkr (retVal \<noteq> 0 \<and> \<not> idris2_vp_is_unboxed retVal))
           (\<lambda>_. Inr (retVal, put_obj retVal \<lparr>refCounter = 1, tag = NO_TAG, payload = No_payload\<rparr> m1)))"

text \<open>\<open>IDRIS2_NEW_VALUE\<close> followed by the assignments to the tag and to the fields of the struct.\<close>

definition new_tagged :: "nat \<Rightarrow> 8 word \<Rightarrow> payload \<Rightarrow> mem \<Rightarrow> (addr \<times> mem) res" where
  "new_tagged sz t pl m =
     bindr (idris2_newValue sz m) (\<lambda>(p, m1).
       bindr (set_payload p t pl m1) (\<lambda>m2. Inr (p, m2)))"

definition idris2_newConstructor :: "32 word \<Rightarrow> 32 word \<Rightarrow> mem \<Rightarrow> (addr \<times> mem) res" where
  "idris2_newConstructor tot tg m =
     (let sz = c_size (24 + 8 * sint tot)
      in bindr (idris2_newValue sz m) (\<lambda>(p, m1).
           if sz < 24 then Inl (Undefined Out_of_bounds)
           else bindr (set_payload p CONSTRUCTOR_TAG
                         (Idris2_Constructor tot tg 0 (replicate (nat (sint tot)) None)) m1)
                  (\<lambda>m2. Inr (p, m2))))"

definition idris2_mkClosure :: "addr \<Rightarrow> 8 word \<Rightarrow> 8 word \<Rightarrow> mem \<Rightarrow> (addr \<times> mem) res" where
  "idris2_mkClosure f arity filled m =
     new_tagged (24 + 8 * unat filled) CLOSURE_TAG
       (Idris2_Closure f arity filled (replicate (unat filled) None)) m"

definition idris2_mkDouble :: "64 word \<Rightarrow> mem \<Rightarrow> (addr \<times> mem) res" where
  "idris2_mkDouble d m = new_tagged 16 DOUBLE_TAG (Idris2_Double d) m"

definition idris2_mkBits32_Boxed :: "32 word \<Rightarrow> mem \<Rightarrow> (addr \<times> mem) res" where
  "idris2_mkBits32_Boxed i m = new_tagged 8 BITS32_TAG (Idris2_Bits32 i) m"

definition idris2_mkInt32_Boxed :: "32 word \<Rightarrow> mem \<Rightarrow> (addr \<times> mem) res" where
  "idris2_mkInt32_Boxed i m = new_tagged 8 INT32_TAG (Idris2_Int32 i) m"

subsection \<open>Predefined values\<close>

definition idris2_predefined_Int64 :: "nat \<Rightarrow> addr" where
  "idris2_predefined_Int64 i = addr_of (1 + i)"

definition idris2_predefined_Bits64 :: "nat \<Rightarrow> addr" where
  "idris2_predefined_Bits64 i = addr_of (101 + i)"

definition idris2_predefined_Integer :: "nat \<Rightarrow> addr" where
  "idris2_predefined_Integer i = addr_of (201 + i)"

definition idris2_predefined_nullstring :: addr where
  "idris2_predefined_nullstring = addr_of 301"

definition nullstring_chars :: addr where
  "nullstring_chars = addr_of 302"

text \<open>The static data at program start. The array of predefined integers is filled in by the first
  call of \<open>idris2_getPredefinedInteger\<close>.\<close>

definition static_obj :: "nat \<Rightarrow> Idris2_Value option" where
  "static_obj k =
     (if 1 \<le> k \<and> k \<le> 100 then Some (IDRIS2_STOCKVAL INT64_TAG (Idris2_Int64 (word_of_nat (k - 1))))
      else if 101 \<le> k \<and> k \<le> 200
        then Some (IDRIS2_STOCKVAL BITS64_TAG (Idris2_Bits64 (word_of_nat (k - 101))))
      else if k = 301 then Some (IDRIS2_STOCKVAL STRING_TAG (Idris2_String nullstring_chars))
      else if k = 303 then Some (IDRIS2_STOCKVAL STRING_TAG (Idris2_String (addr_of 304)))
      else if k = 305 then Some (IDRIS2_STOCKVAL STRING_TAG (Idris2_String (addr_of 306)))
      else None)"

definition static_blk :: "nat \<Rightarrow> blk option" where
  "static_blk k =
     (if k = 302 then Some (Bytes [Some 0])
      else if k = 304 then Some (Bytes (map Some [0x4C, 0x69, 0x6E, 0x75, 0x78, 0]))  \<comment> \<open>Linux\<close>
      else if k = 306 then Some (Bytes (map Some [0x72, 0x65, 0x66, 0x63, 0]))        \<comment> \<open>refc\<close>
      else None)"

definition init_mem :: "nat \<Rightarrow> mem" where
  "init_mem l =
     \<lparr>objs = (\<lambda>p. if unat p mod 16 = 0 then static_obj (unat p div 16) else None),
      blks = (\<lambda>p. if unat p mod 16 = 0 then static_blk (unat p div 16) else None),
      brk = static_end, lim = l, predefined_integer_initialized = False\<rparr>"

definition idris2_mkBits64 :: "64 word \<Rightarrow> mem \<Rightarrow> (addr \<times> mem) res" where
  "idris2_mkBits64 i m =
     (if i < 100 then Inr (idris2_predefined_Bits64 (unat i), m)
      else new_tagged 16 BITS64_TAG (Idris2_Bits64 i) m)"

definition idris2_mkInt64 :: "64 word \<Rightarrow> mem \<Rightarrow> (addr \<times> mem) res" where
  "idris2_mkInt64 i m =
     (if sint i \<ge> 0 \<and> sint i < 100 then Inr (idris2_predefined_Int64 (nat (sint i)), m)
      else new_tagged 16 INT64_TAG (Idris2_Int64 i) m)"

definition idris2_mkInteger :: "mem \<Rightarrow> (addr \<times> mem) res" where
  "idris2_mkInteger m = new_tagged 24 INTEGER_TAG (Idris2_Integer 0) m"

text \<open>The array initialisation of \<open>idris2_getPredefinedInteger\<close>, entry \<open>i\<close>: \<open>mpz_init\<close> then
  \<open>mpz_set_si(.., i)\<close>.\<close>

definition init_predefined_Integer :: "nat \<Rightarrow> mem \<Rightarrow> mem" where
  "init_predefined_Integer i m =
     put_obj (idris2_predefined_Integer i)
       (IDRIS2_STOCKVAL INTEGER_TAG (Idris2_Integer (int i))) m"

definition idris2_getPredefinedInteger :: "int \<Rightarrow> mem \<Rightarrow> (addr \<times> mem) res" where
  "idris2_getPredefinedInteger n m =
     bindr (checkr (n \<ge> 0 \<and> n < 100)) (\<lambda>_.
       let m1 = (if \<not> predefined_integer_initialized m
                 then fold init_predefined_Integer [0..<100]
                        (m\<lparr>predefined_integer_initialized := True\<rparr>)
                 else m)
       in Inr (idris2_predefined_Integer (nat n), m1))"

subsection \<open>Strings, pointers, arrays\<close>

definition idris2_mkEmptyString :: "nat \<Rightarrow> mem \<Rightarrow> (addr \<times> mem) res" where
  "idris2_mkEmptyString l m =
     (if l = 1 then Inr (idris2_predefined_nullstring, m)
      else bindr (idris2_newValue 16 m) (\<lambda>(retVal, m1).
        let (str, m2) = c_malloc l m1
        in bindr (set_payload retVal STRING_TAG (Idris2_String str) m2) (\<lambda>m3.
             bindr (c_memset str 0 l m3) (\<lambda>m4. Inr (retVal, m4)))))"

text \<open>The argument is a C pointer: a block and an offset into it.\<close>

definition idris2_mkString :: "addr \<Rightarrow> int \<Rightarrow> mem \<Rightarrow> (addr \<times> mem) res" where
  "idris2_mkString s off m =
     bindr (load_byte s off m) (\<lambda>c0.
       if c0 = 0 then Inr (idris2_predefined_nullstring, m)
       else bindr (idris2_newValue 16 m) (\<lambda>(retVal, m1).
         bindr (c_strlen s off m1) (\<lambda>n.
         let l = c_conv Int32 (int n)
         in bindr (c_add Int32 l 1) (\<lambda>l1.
            let (str, m2) = c_malloc (c_size l1) m1
            in bindr (set_payload retVal STRING_TAG (Idris2_String str) m2) (\<lambda>m3.
               bindr (c_memset str 0 (c_size l1) m3) (\<lambda>m4.
               bindr (c_memcpy str 0 s off (c_size l) m4) (\<lambda>m5. Inr (retVal, m5))))))))"

definition idris2_makePointer :: "addr \<Rightarrow> mem \<Rightarrow> (addr \<times> mem) res" where
  "idris2_makePointer ptr_Raw m = new_tagged 16 POINTER_TAG (Idris2_Pointer ptr_Raw) m"

definition idris2_makeGCPointer :: "addr \<Rightarrow> addr \<Rightarrow> mem \<Rightarrow> (addr \<times> mem) res" where
  "idris2_makeGCPointer ptr_Raw onCollectFct m =
     bindr (idris2_newValue 24 m) (\<lambda>(p, m1).
       bindr (idris2_makePointer ptr_Raw m1) (\<lambda>(q, m2).
         bindr (set_payload p GC_POINTER_TAG (Idris2_GCPointer q onCollectFct) m2)
           (\<lambda>m3. Inr (p, m3))))"

definition idris2_makeBuffer :: "addr \<Rightarrow> mem \<Rightarrow> (addr \<times> mem) res" where
  "idris2_makeBuffer buf m = new_tagged 16 BUFFER_TAG (Idris2_Buffer buf) m"

definition idris2_makeArray :: "32 word \<Rightarrow> mem \<Rightarrow> (addr \<times> mem) res" where
  "idris2_makeArray len m =
     bindr (idris2_newValue 16 m) (\<lambda>(a, m1).
       let n = c_size (8 * sint len) div 8; (arr, m2) = c_malloc_ptrs n m1
       in bindr (set_payload a ARRAY_TAG (Idris2_Array len arr) m2) (\<lambda>m3.
            bindr (c_memset_ptrs arr n m3) (\<lambda>m4. Inr (a, m4))))"

subsection \<open>Reference counting: taking a reference\<close>

definition idris2_newReference :: "addr \<Rightarrow> mem \<Rightarrow> (addr \<times> mem) res" where
  "idris2_newReference source m =
     (if source \<noteq> 0 \<and> \<not> idris2_vp_is_unboxed source
      then bindr (get_obj source m) (\<lambda>v.
             if refCounter v \<noteq> IDRIS2_VP_REFCOUNTER_MAX
             then Inr (source, put_obj source (v\<lparr>refCounter := refCounter v + 1\<rparr>) m)
             else Inr (source, m))
      else Inr (source, m))"

subsection \<open>Reading boxed integers\<close>

text \<open>\<open>idris2_vp_to_Bits64\<close>, \<open>idris2_vp_to_Int64\<close> (\<open>_datatypes.h\<close>) read the 64-bit member behind the
  header; \<open>Idris2_Bits64\<close> and \<open>Idris2_Int64\<close> have the same layout, and signed and unsigned variants
  of a type may alias.\<close>

definition boxed_64 :: "addr \<Rightarrow> mem \<Rightarrow> 64 word res" where
  "boxed_64 p m =
     bindr (get_obj p m) (\<lambda>v. case payload v of
         Idris2_Bits64 w \<Rightarrow> Inr w
       | Idris2_Int64 w \<Rightarrow> Inr w
       | _ \<Rightarrow> Inl (Undefined Bad_type))"

definition idris2_vp_to_Bits64 :: "addr \<Rightarrow> mem \<Rightarrow> int res" where
  "idris2_vp_to_Bits64 p m = bindr (boxed_64 p m) (\<lambda>w. Inr (uint w))"

definition idris2_vp_to_Int64 :: "addr \<Rightarrow> mem \<Rightarrow> int res" where
  "idris2_vp_to_Int64 p m = bindr (boxed_64 p m) (\<lambda>w. Inr (sint w))"

definition idris2_vp_to_Double :: "addr \<Rightarrow> mem \<Rightarrow> 64 word res" where
  "idris2_vp_to_Double p m =
     bindr (get_obj p m) (\<lambda>v. case payload v of
         Idris2_Double d \<Rightarrow> Inr d
       | _ \<Rightarrow> Inl (Undefined Bad_type))"

definition get_str :: "addr \<Rightarrow> mem \<Rightarrow> addr res" where
  "get_str p m =
     bindr (get_obj p m) (\<lambda>v. case payload v of
         Idris2_String s \<Rightarrow> Inr s
       | _ \<Rightarrow> Inl (Undefined Bad_type))"

definition get_integer :: "addr \<Rightarrow> mem \<Rightarrow> int res" where
  "get_integer p m =
     bindr (get_obj p m) (\<lambda>v. case payload v of
         Idris2_Integer i \<Rightarrow> Inr i
       | _ \<Rightarrow> Inl (Undefined Bad_type))"

section \<open>Properties\<close>

text \<open>The memory after a new object has been placed at the next free address.\<close>

definition alloc_obj :: "Idris2_Value \<Rightarrow> mem \<Rightarrow> mem" where
  "alloc_obj v m = m\<lparr>objs := (objs m)(addr_of (brk m) \<mapsto> v), brk := Suc (brk m)\<rparr>"

lemma alloc_obj_sel [simp]:
  "objs (alloc_obj v m) = (objs m)(addr_of (brk m) \<mapsto> v)"
  "blks (alloc_obj v m) = blks m"
  "brk (alloc_obj v m) = Suc (brk m)"
  "lim (alloc_obj v m) = lim m"
  by (simp_all add: alloc_obj_def)

lemma put_obj_sel [simp]:
  "objs (put_obj p v m) = (objs m)(p \<mapsto> v)"
  "blks (put_obj p v m) = blks m"
  "brk (put_obj p v m) = brk m"
  "lim (put_obj p v m) = lim m"
  by (simp_all add: put_obj_def)

lemma mem_wf_brk: "mem_wf m \<Longrightarrow> static_end \<le> brk m \<and> brk m < 2 ^ 60"
  by (auto simp: mem_wf_def)

lemma mem_wf_dom:
  assumes "mem_wf m" "objs m p \<noteq> None \<or> blks m p \<noteq> None"
  obtains k where "p = addr_of k" "0 < k" "k < brk m"
proof -
  have "p \<in> dom (objs m) \<union> dom (blks m)"
    using assms(2) by (auto simp: dom_def)
  then have "p \<in> addr_of ` {0<..<brk m}"
    using assms(1) by (auto simp: mem_wf_def)
  then show thesis using that by auto
qed

lemma mem_wf_live:
  assumes "mem_wf m" "objs m p \<noteq> None \<or> blks m p \<noteq> None"
  shows "p \<noteq> 0 \<and> \<not> idris2_vp_is_unboxed p \<and> p \<noteq> addr_of (brk m)"
proof -
  obtain k where k: "p = addr_of k" "0 < k" "k < brk m"
    using assms by (rule mem_wf_dom)
  moreover have "brk m < 2 ^ 60" using assms(1) by (auto simp: mem_wf_def)
  ultimately show ?thesis
    using addr_of_nonzero [of k] addr_of_inj [of k "brk m"] by auto
qed

text \<open>The next address is fresh.\<close>

lemma mem_wf_fresh:
  assumes "mem_wf m"
  shows "objs m (addr_of (brk m)) = None" "blks m (addr_of (brk m)) = None"
    "addr_of (brk m) \<noteq> 0"
proof -
  have "\<not> (objs m (addr_of (brk m)) \<noteq> None \<or> blks m (addr_of (brk m)) \<noteq> None)"
    using mem_wf_live [OF assms, of "addr_of (brk m)"] by blast
  then show "objs m (addr_of (brk m)) = None" "blks m (addr_of (brk m)) = None"
    by blast+
  show "addr_of (brk m) \<noteq> 0"
    using mem_wf_brk [OF assms] by (intro addr_of_nonzero) (auto simp: static_end_def)
qed

lemma get_obj_Some [simp]: "objs m p = Some v \<Longrightarrow> p \<noteq> 0 \<Longrightarrow> get_obj p m = Inr v"
  by (simp add: get_obj_def)

lemma get_obj_alloc [simp]: "p \<noteq> addr_of (brk m) \<Longrightarrow> get_obj p (alloc_obj v m) = get_obj p m"
  by (simp add: get_obj_def)

lemma get_obj_eq_Inr [res_simps]: "get_obj p m = Inr v \<longleftrightarrow> p \<noteq> 0 \<and> objs m p = Some v"
  by (auto simp: get_obj_def split: option.splits)

lemma mem_wf_alloc_obj:
  assumes "mem_wf m" "brk m < lim m"
  shows "mem_wf (alloc_obj v m)"
proof -
  have "addr_of ` {0<..<brk m} \<subseteq> addr_of ` {0<..<Suc (brk m)}"
    by (rule image_mono) auto
  moreover have "addr_of (brk m) \<in> addr_of ` {0<..<Suc (brk m)}"
    using assms(1) by (auto simp: mem_wf_def static_end_def)
  ultimately show ?thesis
    using assms mem_wf_fresh(2) [OF assms(1)] unfolding mem_wf_def by auto
qed

lemma mem_wf_put_obj:
  assumes "mem_wf m" "objs m p \<noteq> None"
  shows "mem_wf (put_obj p v m)"
proof -
  have "dom (objs (put_obj p v m)) = dom (objs m)"
    using assms(2) by auto
  then show ?thesis using assms(1) by (simp add: mem_wf_def)
qed

text \<open>Allocation of an object: the result on both branches.\<close>

lemma idris2_newValue_cases:
  assumes "mem_wf m" "sz < 2 ^ 62"
  shows "idris2_newValue sz m =
    (if brk m < lim m
     then Inr (addr_of (brk m), alloc_obj \<lparr>refCounter = 1, tag = NO_TAG, payload = No_payload\<rparr> m)
     else Inl Verify_failed)"
proof -
  have "(sz + 8 - 1) div 8 * 8 < 2 ^ 63"
    using assms(2) by simp
  then show ?thesis
    using mem_wf_fresh [OF assms(1)]
    by (simp add: idris2_newValue_def c_aligned_alloc_def can_alloc_def put_obj_def alloc_obj_def)
qed

lemma new_tagged_cases:
  assumes "mem_wf m" "sz < 2 ^ 62"
  shows "new_tagged sz t pl m =
    (if brk m < lim m
     then Inr (addr_of (brk m), alloc_obj \<lparr>refCounter = 1, tag = t, payload = pl\<rparr> m)
     else Inl Verify_failed)"
  using mem_wf_fresh [OF assms(1)]
  by (simp add: new_tagged_def idris2_newValue_cases [OF assms] set_payload_def get_obj_def
      put_obj_def alloc_obj_def)

subsection \<open>Initial memory and static objects\<close>

lemma addr_of_unat:
  assumes "unat p mod 16 = 0"
  shows "p = addr_of (unat p div 16)"
proof -
  have "16 * (unat p div 16) = unat p" using assms by auto
  then show ?thesis by (simp add: addr_of_def del: of_nat_mult)
qed

lemma unat_addr_of: "k < 2 ^ 60 \<Longrightarrow> unat (addr_of k) = 16 * k"
  by (simp add: addr_of_def unsigned_of_nat take_bit_nat_eq_self del: of_nat_mult)

lemma static_obj_bounds: "static_obj k = Some v \<Longrightarrow> 0 < k \<and> k < static_end"
  by (auto simp: static_obj_def static_end_def split: if_splits)

lemma static_blk_bounds: "static_blk k = Some b \<Longrightarrow> 0 < k \<and> k < static_end"
  by (auto simp: static_blk_def static_end_def split: if_splits)

lemma static_disjoint: "static_obj k = Some v \<Longrightarrow> static_blk k = None"
  by (auto simp: static_obj_def static_blk_def split: if_splits)

lemma init_mem_sel [simp]: "brk (init_mem l) = 320" "lim (init_mem l) = l"
  by (simp_all add: init_mem_def static_end_def)

lemma init_mem_objs: "objs (init_mem l) p = Some v \<longleftrightarrow> (\<exists>k < static_end. p = addr_of k \<and> static_obj k = Some v)"
proof
  assume "objs (init_mem l) p = Some v"
  then have "unat p mod 16 = 0" "static_obj (unat p div 16) = Some v"
    by (auto simp: init_mem_def split: if_splits)
  then show "\<exists>k < static_end. p = addr_of k \<and> static_obj k = Some v"
    using addr_of_unat [of p] static_obj_bounds by (intro exI [of _ "unat p div 16"]) simp
next
  assume "\<exists>k < static_end. p = addr_of k \<and> static_obj k = Some v"
  then show "objs (init_mem l) p = Some v"
    by (auto simp: init_mem_def unat_addr_of static_end_def)
qed

lemma init_mem_blks: "blks (init_mem l) p = Some b \<longleftrightarrow> (\<exists>k < static_end. p = addr_of k \<and> static_blk k = Some b)"
proof
  assume "blks (init_mem l) p = Some b"
  then have "unat p mod 16 = 0" "static_blk (unat p div 16) = Some b"
    by (auto simp: init_mem_def split: if_splits)
  then show "\<exists>k < static_end. p = addr_of k \<and> static_blk k = Some b"
    using addr_of_unat [of p] static_blk_bounds by (intro exI [of _ "unat p div 16"]) simp
next
  assume "\<exists>k < static_end. p = addr_of k \<and> static_blk k = Some b"
  then show "blks (init_mem l) p = Some b"
    by (auto simp: init_mem_def unat_addr_of static_end_def)
qed

lemma mem_wf_init:
  assumes "static_end \<le> l" "l < 2 ^ 60"
  shows "mem_wf (init_mem l)"
proof -
  have sub: "dom (objs (init_mem l)) \<union> dom (blks (init_mem l)) \<subseteq> addr_of ` {0<..< static_end}"
    using static_obj_bounds static_blk_bounds by (auto simp: init_mem_objs init_mem_blks)
  moreover have "finite (addr_of ` {0<..< static_end})" by simp
  ultimately have "finite (dom (objs (init_mem l)))" "finite (dom (blks (init_mem l)))"
    by (meson finite_subset le_sup_iff)+
  moreover have "dom (objs (init_mem l)) \<inter> dom (blks (init_mem l)) = {}"
    using static_disjoint addr_of_inj by (fastforce simp: init_mem_objs init_mem_blks static_end_def)
  ultimately show ?thesis
    using sub assms unfolding mem_wf_def by (simp add: init_mem_def)
qed

text \<open>The static data is where it was at program start.\<close>

definition statics_ok :: "mem \<Rightarrow> bool" where
  "statics_ok m \<longleftrightarrow>
     (\<forall>k v. static_obj k = Some v \<longrightarrow> objs m (addr_of k) = Some v) \<and>
     (\<forall>k b. static_blk k = Some b \<longrightarrow> blks m (addr_of k) = Some b)"

definition rt_wf :: "mem \<Rightarrow> bool" where
  "rt_wf m \<longleftrightarrow> mem_wf m \<and> statics_ok m"

lemma rt_wf_init: "static_end \<le> l \<Longrightarrow> l < 2 ^ 60 \<Longrightarrow> rt_wf (init_mem l)"
  using static_obj_bounds static_blk_bounds
  by (fastforce simp: rt_wf_def mem_wf_init statics_ok_def init_mem_objs init_mem_blks)

lemma rt_wf_mem_wf: "rt_wf m \<Longrightarrow> mem_wf m"
  by (simp add: rt_wf_def)

lemma static_not_fresh: "mem_wf m \<Longrightarrow> k < static_end \<Longrightarrow> addr_of k \<noteq> addr_of (brk m)"
  using mem_wf_brk [of m] addr_of_inj [of k "brk m"] by auto

lemma rt_wf_alloc_obj:
  assumes "rt_wf m" "brk m < lim m"
  shows "rt_wf (alloc_obj v m)"
proof -
  have "statics_ok (alloc_obj v m)"
    using assms static_not_fresh [OF rt_wf_mem_wf [OF assms(1)]] static_obj_bounds
    unfolding rt_wf_def statics_ok_def by auto
  then show ?thesis
    using assms mem_wf_alloc_obj by (simp add: rt_wf_def)
qed

lemma new_tagged_rt_wf: "rt_wf m \<Longrightarrow> sz < 2 ^ 62 \<Longrightarrow> new_tagged sz t pl m = Inr (p, m') \<Longrightarrow> rt_wf m'"
  by (auto simp: new_tagged_cases rt_wf_mem_wf rt_wf_alloc_obj split: if_splits)

end
