(* ===== verification/Libraries.thy ===== *)
theory Libraries
  imports Memory_Management
begin

text \<open>
  Code the runtime calls that is not part of this repository, as parameters.

  \<^item> GMP. An \<open>mpz_t\<close> is a mathematical integer; \<open>mpz_init\<close>, \<open>mpz_set_si\<close>, \<open>mpz_set_ui\<close> and \<open>mpz_clear\<close>
    create, assign and drop one. The arithmetic functions are the fields of the record \<open>gmp\<close>, and
    \<open>gmp_documented\<close> collects what the GMP manual says about them. Definitions take the record as an
    argument; theorems that depend on what GMP computes assume \<open>gmp_documented\<close>.
  \<^item> Floating point. A \<open>double\<close> is its 64-bit pattern; IEEE operations and conversions are the fields
    of \<open>fpu\<close>. No theorem assumes anything about them.
\<close>

record gmp =
  mpz_add :: "int \<Rightarrow> int \<Rightarrow> int"
  mpz_sub :: "int \<Rightarrow> int \<Rightarrow> int"
  mpz_mul :: "int \<Rightarrow> int \<Rightarrow> int"
  mpz_neg :: "int \<Rightarrow> int"
  mpz_mod :: "int \<Rightarrow> int \<Rightarrow> int"
  mpz_divexact :: "int \<Rightarrow> int \<Rightarrow> int"
  mpz_mul_2exp :: "int \<Rightarrow> nat \<Rightarrow> int"
  mpz_fdiv_q_2exp :: "int \<Rightarrow> nat \<Rightarrow> int"
  mpz_fdiv_r_2exp :: "int \<Rightarrow> nat \<Rightarrow> int"
  mpz_and :: "int \<Rightarrow> int \<Rightarrow> int"
  mpz_ior :: "int \<Rightarrow> int \<Rightarrow> int"
  mpz_xor :: "int \<Rightarrow> int \<Rightarrow> int"
  mpz_cmp :: "int \<Rightarrow> int \<Rightarrow> int"
  mpz_get_ui :: "int \<Rightarrow> 64 word"
  mpz_get_si :: "int \<Rightarrow> 64 word"
  mpz_set_str :: "byte list \<Rightarrow> int \<Rightarrow> int"   \<comment> \<open>base 10: the string and the old value\<close>
  mpz_get_str :: "int \<Rightarrow> byte list"          \<comment> \<open>base 10\<close>
  mpz_set_d :: "64 word \<Rightarrow> int"
  mpz_get_d :: "int \<Rightarrow> 64 word"

definition gmp_documented :: "gmp \<Rightarrow> bool" where
  "gmp_documented g \<longleftrightarrow>
     (\<forall>a b. mpz_add g a b = a + b) \<and>
     (\<forall>a b. mpz_sub g a b = a - b) \<and>
     (\<forall>a b. mpz_mul g a b = a * b) \<and>
     (\<forall>a. mpz_neg g a = - a) \<and>
     (\<forall>a b. b \<noteq> 0 \<longrightarrow> mpz_mod g a b = a mod \<bar>b\<bar>) \<and>
     (\<forall>a b. b \<noteq> 0 \<longrightarrow> b dvd a \<longrightarrow> mpz_divexact g a b = a div b) \<and>
     (\<forall>a n. mpz_mul_2exp g a n = a * 2 ^ n) \<and>
     (\<forall>a n. mpz_fdiv_q_2exp g a n = a div 2 ^ n) \<and>
     (\<forall>a n. mpz_fdiv_r_2exp g a n = a mod 2 ^ n) \<and>
     (\<forall>a b. mpz_and g a b = a AND b) \<and>
     (\<forall>a b. mpz_ior g a b = a OR b) \<and>
     (\<forall>a b. mpz_xor g a b = a XOR b) \<and>
     (\<forall>a b. sgn (mpz_cmp g a b) = sgn (a - b)) \<and>
     (\<forall>a. mpz_get_ui g a = word_of_int \<bar>a\<bar>)"

lemma gmp_documentedD:
  assumes "gmp_documented g"
  shows "mpz_add g a b = a + b" "mpz_sub g a b = a - b" "mpz_mul g a b = a * b" "mpz_neg g a = - a"
    "b \<noteq> 0 \<Longrightarrow> mpz_mod g a b = a mod \<bar>b\<bar>" "b \<noteq> 0 \<Longrightarrow> b dvd a \<Longrightarrow> mpz_divexact g a b = a div b"
    "mpz_mul_2exp g a n = a * 2 ^ n" "mpz_fdiv_q_2exp g a n = a div 2 ^ n"
    "mpz_fdiv_r_2exp g a n = a mod 2 ^ n"
    "mpz_and g a b = a AND b" "mpz_ior g a b = a OR b" "mpz_xor g a b = a XOR b"
    "sgn (mpz_cmp g a b) = sgn (a - b)" "mpz_get_ui g a = word_of_int \<bar>a\<bar>"
  using assms by (simp_all add: gmp_documented_def)

text \<open>An instance, for concrete evaluations.\<close>

definition gmp_ints :: gmp where
  "gmp_ints =
     \<lparr>mpz_add = (+), mpz_sub = (-), mpz_mul = (*), mpz_neg = uminus,
      mpz_mod = (\<lambda>a b. a mod \<bar>b\<bar>), mpz_divexact = (div),
      mpz_mul_2exp = (\<lambda>a n. a * 2 ^ n), mpz_fdiv_q_2exp = (\<lambda>a n. a div 2 ^ n),
      mpz_fdiv_r_2exp = (\<lambda>a n. a mod 2 ^ n),
      mpz_and = (AND), mpz_ior = (OR), mpz_xor = (XOR), mpz_cmp = (-),
      mpz_get_ui = (\<lambda>a. word_of_int \<bar>a\<bar>), mpz_get_si = word_of_int,
      mpz_set_str = (\<lambda>s old. old), mpz_get_str = (\<lambda>a. []),
      mpz_set_d = (\<lambda>d. 0), mpz_get_d = (\<lambda>a. 0)\<rparr>"

lemma gmp_ints_documented: "gmp_documented gmp_ints"
  by (simp add: gmp_documented_def gmp_ints_def)

record fpu =
  f_add :: "64 word \<Rightarrow> 64 word \<Rightarrow> 64 word"
  f_sub :: "64 word \<Rightarrow> 64 word \<Rightarrow> 64 word"
  f_mul :: "64 word \<Rightarrow> 64 word \<Rightarrow> 64 word"
  f_div :: "64 word \<Rightarrow> 64 word \<Rightarrow> 64 word"
  f_neg :: "64 word \<Rightarrow> 64 word"
  f_lt :: "64 word \<Rightarrow> 64 word \<Rightarrow> bool"
  f_eq :: "64 word \<Rightarrow> 64 word \<Rightarrow> bool"
  f_le :: "64 word \<Rightarrow> 64 word \<Rightarrow> bool"
  f_of_int :: "int \<Rightarrow> 64 word"
  f_to_int :: "ity \<Rightarrow> 64 word \<Rightarrow> int res"   \<comment> \<open>conversion to an integer type, undefined out of range\<close>
  f_print :: "64 word \<Rightarrow> byte list"         \<comment> \<open>\<open>printf\<close> with \<open>%f\<close>\<close>
  f_parse :: "byte list \<Rightarrow> 64 word"         \<comment> \<open>\<open>atof\<close>\<close>

end
