(* ===== verification/Math_Functions.thy ===== *)
theory Math_Functions
  imports Libraries
begin

text \<open>
  \<open>refc/mathFunctions.h\<close> and \<open>refc/mathFunctions.c\<close>: arithmetic, bit operations and comparisons on
  every primitive type.

  The macros paste the type name into \<open>idris2_mk##ty\<close> and \<open>idris2_vp_to_##ty\<close>; here the type name is
  an argument of type \<open>ity\<close>, and \<open>vp_to\<close>, \<open>mk\<close> select the reader and the constructor. The C operator
  is an argument of \<open>idris2_binop\<close>; it computes in the promoted type (\<open>C_Integers\<close>).
\<close>

fun vp_to :: "ity \<Rightarrow> addr \<Rightarrow> mem \<Rightarrow> int res" where
  "vp_to Bits8 p m = Inr (idris2_vp_to_Bits8 p)"
| "vp_to Bits16 p m = Inr (idris2_vp_to_Bits16 p)"
| "vp_to Bits32 p m = Inr (idris2_vp_to_Bits32 p)"
| "vp_to Bits64 p m = idris2_vp_to_Bits64 p m"
| "vp_to Int8 p m = Inr (idris2_vp_to_Int8 p)"
| "vp_to Int16 p m = Inr (idris2_vp_to_Int16 p)"
| "vp_to Int32 p m = Inr (idris2_vp_to_Int32 p)"
| "vp_to Int64 p m = idris2_vp_to_Int64 p m"
| "vp_to Char p m = Inr (idris2_vp_to_Char p)"

fun mk :: "ity \<Rightarrow> int \<Rightarrow> mem \<Rightarrow> (addr \<times> mem) res" where
  "mk Bits8 v m = Inr (idris2_mkBits8 v, m)"
| "mk Bits16 v m = Inr (idris2_mkBits16 v, m)"
| "mk Bits32 v m = Inr (idris2_mkBits32 v, m)"
| "mk Bits64 v m = idris2_mkBits64 (word_of_int v) m"
| "mk Int8 v m = Inr (idris2_mkInt8 v, m)"
| "mk Int16 v m = Inr (idris2_mkInt16 v, m)"
| "mk Int32 v m = Inr (idris2_mkInt32 v, m)"
| "mk Int64 v m = idris2_mkInt64 (word_of_int v) m"
| "mk Char v m = Inr (idris2_mkChar v, m)"

definition idris2_binop ::
  "ity \<Rightarrow> (ity \<Rightarrow> int \<Rightarrow> int \<Rightarrow> int res) \<Rightarrow> addr \<Rightarrow> addr \<Rightarrow> mem \<Rightarrow> (addr \<times> mem) res" where
  "idris2_binop ty opr l r m =
     bindr (vp_to ty l m) (\<lambda>a. bindr (vp_to ty r m) (\<lambda>b. bindr (opr ty a b) (\<lambda>c. mk ty c m)))"

definition idris2_binop_Double ::
  "(64 word \<Rightarrow> 64 word \<Rightarrow> 64 word) \<Rightarrow> addr \<Rightarrow> addr \<Rightarrow> mem \<Rightarrow> (addr \<times> mem) res" where
  "idris2_binop_Double opr l r m =
     bindr (idris2_vp_to_Double l m) (\<lambda>a. bindr (idris2_vp_to_Double r m) (\<lambda>b. idris2_mkDouble (opr a b) m))"

definition c_bool :: "bool \<Rightarrow> int" where
  "c_bool b = (if b then 1 else 0)"

definition idris2_cmpop :: "ity \<Rightarrow> (int \<Rightarrow> int \<Rightarrow> bool) \<Rightarrow> addr \<Rightarrow> addr \<Rightarrow> mem \<Rightarrow> addr res" where
  "idris2_cmpop ty cmp l r m =
     bindr (vp_to ty l m) (\<lambda>a. bindr (vp_to ty r m) (\<lambda>b. Inr (idris2_mkBool (c_bool (cmp a b)))))"

definition idris2_cmpop_Double ::
  "(64 word \<Rightarrow> 64 word \<Rightarrow> bool) \<Rightarrow> addr \<Rightarrow> addr \<Rightarrow> mem \<Rightarrow> addr res" where
  "idris2_cmpop_Double cmp l r m =
     bindr (idris2_vp_to_Double l m) (\<lambda>a. bindr (idris2_vp_to_Double r m) (\<lambda>b.
       Inr (idris2_mkBool (c_bool (cmp a b)))))"

text \<open>The \<open>mpz_t\<close> member of an \<open>Idris2_Integer\<close>, and the C string of an \<open>Idris2_String\<close>.\<close>

definition set_integer :: "addr \<Rightarrow> int \<Rightarrow> mem \<Rightarrow> mem res" where
  "set_integer p i m =
     bindr (get_obj p m) (\<lambda>v. case payload v of
         Idris2_Integer _ \<Rightarrow> Inr (put_obj p (v\<lparr>payload := Idris2_Integer i\<rparr>) m)
       | _ \<Rightarrow> Inl (Undefined Bad_type))"

definition string_of :: "addr \<Rightarrow> mem \<Rightarrow> byte list res" where
  "string_of p m = bindr (get_str p m) (\<lambda>s. c_string s 0 m)"

text \<open>GMP raises a division-by-zero trap for a zero divisor.\<close>

definition gmp_divisor :: "int \<Rightarrow> unit res" where
  "gmp_divisor b = (if b = 0 then Inl (Undefined Div_zero) else Inr ())"

definition idris2_integer_op ::
  "(int \<Rightarrow> int \<Rightarrow> int) \<Rightarrow> addr \<Rightarrow> addr \<Rightarrow> mem \<Rightarrow> (addr \<times> mem) res" where
  "idris2_integer_op opr x y m =
     bindr (idris2_mkInteger m) (\<lambda>(retVal, m1).
     bindr (get_integer x m1) (\<lambda>a.
     bindr (get_integer y m1) (\<lambda>b.
     bindr (set_integer retVal (opr a b) m1) (\<lambda>m2. Inr (retVal, m2)))))"

subsection \<open>add\<close>

definition idris2_add_Bits8 :: "addr \<Rightarrow> addr \<Rightarrow> mem \<Rightarrow> (addr \<times> mem) res" where
  "idris2_add_Bits8 = idris2_binop Bits8 c_add"

definition idris2_add_Bits16 :: "addr \<Rightarrow> addr \<Rightarrow> mem \<Rightarrow> (addr \<times> mem) res" where
  "idris2_add_Bits16 = idris2_binop Bits16 c_add"

definition idris2_add_Bits32 :: "addr \<Rightarrow> addr \<Rightarrow> mem \<Rightarrow> (addr \<times> mem) res" where
  "idris2_add_Bits32 = idris2_binop Bits32 c_add"

definition idris2_add_Bits64 :: "addr \<Rightarrow> addr \<Rightarrow> mem \<Rightarrow> (addr \<times> mem) res" where
  "idris2_add_Bits64 = idris2_binop Bits64 c_add"

definition idris2_add_Int8 :: "addr \<Rightarrow> addr \<Rightarrow> mem \<Rightarrow> (addr \<times> mem) res" where
  "idris2_add_Int8 = idris2_binop Int8 c_add"

definition idris2_add_Int16 :: "addr \<Rightarrow> addr \<Rightarrow> mem \<Rightarrow> (addr \<times> mem) res" where
  "idris2_add_Int16 = idris2_binop Int16 c_add"

definition idris2_add_Int32 :: "addr \<Rightarrow> addr \<Rightarrow> mem \<Rightarrow> (addr \<times> mem) res" where
  "idris2_add_Int32 = idris2_binop Int32 c_add"

definition idris2_add_Int64 :: "addr \<Rightarrow> addr \<Rightarrow> mem \<Rightarrow> (addr \<times> mem) res" where
  "idris2_add_Int64 = idris2_binop Int64 c_add"

definition idris2_add_Integer :: "gmp \<Rightarrow> addr \<Rightarrow> addr \<Rightarrow> mem \<Rightarrow> (addr \<times> mem) res" where
  "idris2_add_Integer g = idris2_integer_op (mpz_add g)"

definition idris2_add_Double :: "fpu \<Rightarrow> addr \<Rightarrow> addr \<Rightarrow> mem \<Rightarrow> (addr \<times> mem) res" where
  "idris2_add_Double F = idris2_binop_Double (f_add F)"

subsection \<open>sub\<close>

definition idris2_sub_Bits8 :: "addr \<Rightarrow> addr \<Rightarrow> mem \<Rightarrow> (addr \<times> mem) res" where
  "idris2_sub_Bits8 = idris2_binop Bits8 c_sub"

definition idris2_sub_Bits16 :: "addr \<Rightarrow> addr \<Rightarrow> mem \<Rightarrow> (addr \<times> mem) res" where
  "idris2_sub_Bits16 = idris2_binop Bits16 c_sub"

definition idris2_sub_Bits32 :: "addr \<Rightarrow> addr \<Rightarrow> mem \<Rightarrow> (addr \<times> mem) res" where
  "idris2_sub_Bits32 = idris2_binop Bits32 c_sub"

definition idris2_sub_Bits64 :: "addr \<Rightarrow> addr \<Rightarrow> mem \<Rightarrow> (addr \<times> mem) res" where
  "idris2_sub_Bits64 = idris2_binop Bits64 c_sub"

definition idris2_sub_Int8 :: "addr \<Rightarrow> addr \<Rightarrow> mem \<Rightarrow> (addr \<times> mem) res" where
  "idris2_sub_Int8 = idris2_binop Int8 c_sub"

definition idris2_sub_Int16 :: "addr \<Rightarrow> addr \<Rightarrow> mem \<Rightarrow> (addr \<times> mem) res" where
  "idris2_sub_Int16 = idris2_binop Int16 c_sub"

definition idris2_sub_Int32 :: "addr \<Rightarrow> addr \<Rightarrow> mem \<Rightarrow> (addr \<times> mem) res" where
  "idris2_sub_Int32 = idris2_binop Int32 c_sub"

definition idris2_sub_Int64 :: "addr \<Rightarrow> addr \<Rightarrow> mem \<Rightarrow> (addr \<times> mem) res" where
  "idris2_sub_Int64 = idris2_binop Int64 c_sub"

definition idris2_sub_Integer :: "gmp \<Rightarrow> addr \<Rightarrow> addr \<Rightarrow> mem \<Rightarrow> (addr \<times> mem) res" where
  "idris2_sub_Integer g = idris2_integer_op (mpz_sub g)"

definition idris2_sub_Double :: "fpu \<Rightarrow> addr \<Rightarrow> addr \<Rightarrow> mem \<Rightarrow> (addr \<times> mem) res" where
  "idris2_sub_Double F = idris2_binop_Double (f_sub F)"

subsection \<open>negate\<close>

definition idris2_negate_Int8 :: "addr \<Rightarrow> mem \<Rightarrow> (addr \<times> mem) res" where
  "idris2_negate_Int8 x m = bindr (vp_to Int8 x m) (\<lambda>a. bindr (c_neg Int8 a) (\<lambda>b. mk Int8 b m))"

definition idris2_negate_Int16 :: "addr \<Rightarrow> mem \<Rightarrow> (addr \<times> mem) res" where
  "idris2_negate_Int16 x m = bindr (vp_to Int16 x m) (\<lambda>a. bindr (c_neg Int16 a) (\<lambda>b. mk Int16 b m))"

definition idris2_negate_Int32 :: "addr \<Rightarrow> mem \<Rightarrow> (addr \<times> mem) res" where
  "idris2_negate_Int32 x m = bindr (vp_to Int32 x m) (\<lambda>a. bindr (c_neg Int32 a) (\<lambda>b. mk Int32 b m))"

definition idris2_negate_Int64 :: "addr \<Rightarrow> mem \<Rightarrow> (addr \<times> mem) res" where
  "idris2_negate_Int64 x m = bindr (vp_to Int64 x m) (\<lambda>a. bindr (c_neg Int64 a) (\<lambda>b. mk Int64 b m))"

definition idris2_negate_Integer :: "gmp \<Rightarrow> addr \<Rightarrow> mem \<Rightarrow> (addr \<times> mem) res" where
  "idris2_negate_Integer g x m =
     bindr (idris2_mkInteger m) (\<lambda>(retVal, m1).
     bindr (get_integer x m1) (\<lambda>a.
     bindr (set_integer retVal (mpz_neg g a) m1) (\<lambda>m2. Inr (retVal, m2))))"

definition idris2_negate_Double :: "fpu \<Rightarrow> addr \<Rightarrow> mem \<Rightarrow> (addr \<times> mem) res" where
  "idris2_negate_Double F x m = bindr (idris2_vp_to_Double x m) (\<lambda>a. idris2_mkDouble (f_neg F a) m)"

subsection \<open>mul\<close>

definition idris2_mul_Bits8 :: "addr \<Rightarrow> addr \<Rightarrow> mem \<Rightarrow> (addr \<times> mem) res" where
  "idris2_mul_Bits8 = idris2_binop Bits8 c_mul"

definition idris2_mul_Bits16 :: "addr \<Rightarrow> addr \<Rightarrow> mem \<Rightarrow> (addr \<times> mem) res" where
  "idris2_mul_Bits16 = idris2_binop Bits16 c_mul"

definition idris2_mul_Bits32 :: "addr \<Rightarrow> addr \<Rightarrow> mem \<Rightarrow> (addr \<times> mem) res" where
  "idris2_mul_Bits32 = idris2_binop Bits32 c_mul"

definition idris2_mul_Bits64 :: "addr \<Rightarrow> addr \<Rightarrow> mem \<Rightarrow> (addr \<times> mem) res" where
  "idris2_mul_Bits64 = idris2_binop Bits64 c_mul"

definition idris2_mul_Int8 :: "addr \<Rightarrow> addr \<Rightarrow> mem \<Rightarrow> (addr \<times> mem) res" where
  "idris2_mul_Int8 = idris2_binop Int8 c_mul"

definition idris2_mul_Int16 :: "addr \<Rightarrow> addr \<Rightarrow> mem \<Rightarrow> (addr \<times> mem) res" where
  "idris2_mul_Int16 = idris2_binop Int16 c_mul"

definition idris2_mul_Int32 :: "addr \<Rightarrow> addr \<Rightarrow> mem \<Rightarrow> (addr \<times> mem) res" where
  "idris2_mul_Int32 = idris2_binop Int32 c_mul"

definition idris2_mul_Int64 :: "addr \<Rightarrow> addr \<Rightarrow> mem \<Rightarrow> (addr \<times> mem) res" where
  "idris2_mul_Int64 = idris2_binop Int64 c_mul"

definition idris2_mul_Integer :: "gmp \<Rightarrow> addr \<Rightarrow> addr \<Rightarrow> mem \<Rightarrow> (addr \<times> mem) res" where
  "idris2_mul_Integer g = idris2_integer_op (mpz_mul g)"

definition idris2_mul_Double :: "fpu \<Rightarrow> addr \<Rightarrow> addr \<Rightarrow> mem \<Rightarrow> (addr \<times> mem) res" where
  "idris2_mul_Double F = idris2_binop_Double (f_mul F)"

subsection \<open>div\<close>

definition idris2_div_Bits8 :: "addr \<Rightarrow> addr \<Rightarrow> mem \<Rightarrow> (addr \<times> mem) res" where
  "idris2_div_Bits8 = idris2_binop Bits8 c_div"

definition idris2_div_Bits16 :: "addr \<Rightarrow> addr \<Rightarrow> mem \<Rightarrow> (addr \<times> mem) res" where
  "idris2_div_Bits16 = idris2_binop Bits16 c_div"

definition idris2_div_Bits32 :: "addr \<Rightarrow> addr \<Rightarrow> mem \<Rightarrow> (addr \<times> mem) res" where
  "idris2_div_Bits32 = idris2_binop Bits32 c_div"

definition idris2_div_Bits64 :: "addr \<Rightarrow> addr \<Rightarrow> mem \<Rightarrow> (addr \<times> mem) res" where
  "idris2_div_Bits64 = idris2_binop Bits64 c_div"

definition idris2_div_Int8 :: "addr \<Rightarrow> addr \<Rightarrow> mem \<Rightarrow> (addr \<times> mem) res" where
  "idris2_div_Int8 x y m =
     bindr (vp_to Int8 x m) (\<lambda>num.
     bindr (vp_to Int8 y m) (\<lambda>denom.
     bindr (c_mod Int8 num denom) (\<lambda>r.
     let rm = c_conv Int8 r in
     bindr (c_div Int8 num denom) (\<lambda>q.
     bindr (c_add Int8 q (if rm < 0 then if denom < 0 then 1 else - 1 else 0)) (\<lambda>v.
     mk Int8 v m)))))"

definition idris2_div_Int16 :: "addr \<Rightarrow> addr \<Rightarrow> mem \<Rightarrow> (addr \<times> mem) res" where
  "idris2_div_Int16 x y m =
     bindr (vp_to Int16 x m) (\<lambda>num.
     bindr (vp_to Int16 y m) (\<lambda>denom.
     bindr (c_mod Int16 num denom) (\<lambda>r.
     let rm = c_conv Int16 r in
     bindr (c_div Int16 num denom) (\<lambda>q.
     bindr (c_add Int16 q (if rm < 0 then if denom < 0 then 1 else - 1 else 0)) (\<lambda>v.
     mk Int16 v m)))))"

definition idris2_div_Int32 :: "addr \<Rightarrow> addr \<Rightarrow> mem \<Rightarrow> (addr \<times> mem) res" where
  "idris2_div_Int32 x y m =
     bindr (vp_to Int32 x m) (\<lambda>num.
     bindr (vp_to Int32 y m) (\<lambda>denom.
     bindr (c_mod Int32 num denom) (\<lambda>r.
     let rm = c_conv Int32 r in
     bindr (c_div Int32 num denom) (\<lambda>q.
     bindr (c_add Int32 q (if rm < 0 then if denom < 0 then 1 else - 1 else 0)) (\<lambda>v.
     mk Int32 v m)))))"

definition idris2_div_Int64 :: "addr \<Rightarrow> addr \<Rightarrow> mem \<Rightarrow> (addr \<times> mem) res" where
  "idris2_div_Int64 x y m =
     bindr (vp_to Int64 x m) (\<lambda>num.
     bindr (vp_to Int64 y m) (\<lambda>denom.
     bindr (c_mod Int64 num denom) (\<lambda>r.
     let rm = c_conv Int64 r in
     bindr (c_div Int64 num denom) (\<lambda>q.
     bindr (c_add Int64 q (if rm < 0 then if denom < 0 then 1 else - 1 else 0)) (\<lambda>v.
     mk Int64 v m)))))"

definition idris2_div_Integer :: "gmp \<Rightarrow> addr \<Rightarrow> addr \<Rightarrow> mem \<Rightarrow> (addr \<times> mem) res" where
  "idris2_div_Integer g x y m =
     bindr (get_integer x m) (\<lambda>a.
     bindr (get_integer y m) (\<lambda>b.
     bindr (gmp_divisor b) (\<lambda>_.
     let rm = mpz_mod g a b; yq = mpz_sub g a rm in
     bindr (idris2_mkInteger m) (\<lambda>(retVal, m1).
     bindr (get_integer y m1) (\<lambda>b1.
     bindr (set_integer retVal (mpz_divexact g yq b1) m1) (\<lambda>m2. Inr (retVal, m2)))))))"

definition idris2_div_Double :: "fpu \<Rightarrow> addr \<Rightarrow> addr \<Rightarrow> mem \<Rightarrow> (addr \<times> mem) res" where
  "idris2_div_Double F = idris2_binop_Double (f_div F)"

subsection \<open>mod\<close>

definition idris2_mod_Bits8 :: "addr \<Rightarrow> addr \<Rightarrow> mem \<Rightarrow> (addr \<times> mem) res" where
  "idris2_mod_Bits8 = idris2_binop Bits8 c_mod"

definition idris2_mod_Bits16 :: "addr \<Rightarrow> addr \<Rightarrow> mem \<Rightarrow> (addr \<times> mem) res" where
  "idris2_mod_Bits16 = idris2_binop Bits16 c_mod"

definition idris2_mod_Bits32 :: "addr \<Rightarrow> addr \<Rightarrow> mem \<Rightarrow> (addr \<times> mem) res" where
  "idris2_mod_Bits32 = idris2_binop Bits32 c_mod"

definition idris2_mod_Bits64 :: "addr \<Rightarrow> addr \<Rightarrow> mem \<Rightarrow> (addr \<times> mem) res" where
  "idris2_mod_Bits64 = idris2_binop Bits64 c_mod"

definition idris2_mod_Int8 :: "addr \<Rightarrow> addr \<Rightarrow> mem \<Rightarrow> (addr \<times> mem) res" where
  "idris2_mod_Int8 x y m =
     bindr (vp_to Int8 x m) (\<lambda>num.
     bindr (vp_to Int8 y m) (\<lambda>denom0.
     bindr (if denom0 < 0 then c_neg Int8 denom0 else Inr denom0) (\<lambda>d.
     let denom = c_conv Int8 d in
     bindr (c_mod Int8 num denom) (\<lambda>r.
     bindr (c_add Int8 r (if num < 0 then denom else 0)) (\<lambda>v.
     mk Int8 v m)))))"

definition idris2_mod_Int16 :: "addr \<Rightarrow> addr \<Rightarrow> mem \<Rightarrow> (addr \<times> mem) res" where
  "idris2_mod_Int16 x y m =
     bindr (vp_to Int16 x m) (\<lambda>num.
     bindr (vp_to Int16 y m) (\<lambda>denom0.
     bindr (if denom0 < 0 then c_neg Int16 denom0 else Inr denom0) (\<lambda>d.
     let denom = c_conv Int16 d in
     bindr (c_mod Int16 num denom) (\<lambda>r.
     bindr (c_add Int16 r (if num < 0 then denom else 0)) (\<lambda>v.
     mk Int16 v m)))))"

definition idris2_mod_Int32 :: "addr \<Rightarrow> addr \<Rightarrow> mem \<Rightarrow> (addr \<times> mem) res" where
  "idris2_mod_Int32 x y m =
     bindr (vp_to Int32 x m) (\<lambda>num.
     bindr (vp_to Int32 y m) (\<lambda>denom0.
     bindr (if denom0 < 0 then c_neg Int32 denom0 else Inr denom0) (\<lambda>d.
     let denom = c_conv Int32 d in
     bindr (c_mod Int32 num denom) (\<lambda>r.
     bindr (c_add Int32 r (if num < 0 then denom else 0)) (\<lambda>v.
     mk Int32 v m)))))"

definition idris2_mod_Int64 :: "addr \<Rightarrow> addr \<Rightarrow> mem \<Rightarrow> (addr \<times> mem) res" where
  "idris2_mod_Int64 x y m =
     bindr (vp_to Int64 x m) (\<lambda>num.
     bindr (vp_to Int64 y m) (\<lambda>denom0.
     bindr (if denom0 < 0 then c_neg Int64 denom0 else Inr denom0) (\<lambda>d.
     let denom = c_conv Int64 d in
     bindr (c_mod Int64 num denom) (\<lambda>r.
     bindr (c_add Int64 r (if num < 0 then denom else 0)) (\<lambda>v.
     mk Int64 v m)))))"

definition idris2_mod_Integer :: "gmp \<Rightarrow> addr \<Rightarrow> addr \<Rightarrow> mem \<Rightarrow> (addr \<times> mem) res" where
  "idris2_mod_Integer g x y m =
     bindr (idris2_mkInteger m) (\<lambda>(retVal, m1).
     bindr (get_integer x m1) (\<lambda>a.
     bindr (get_integer y m1) (\<lambda>b.
     bindr (gmp_divisor b) (\<lambda>_.
     bindr (set_integer retVal (mpz_mod g a b) m1) (\<lambda>m2. Inr (retVal, m2))))))"

subsection \<open>shiftl\<close>

definition idris2_shiftl_Bits8 :: "addr \<Rightarrow> addr \<Rightarrow> mem \<Rightarrow> (addr \<times> mem) res" where
  "idris2_shiftl_Bits8 = idris2_binop Bits8 c_shl"

definition idris2_shiftl_Bits16 :: "addr \<Rightarrow> addr \<Rightarrow> mem \<Rightarrow> (addr \<times> mem) res" where
  "idris2_shiftl_Bits16 = idris2_binop Bits16 c_shl"

definition idris2_shiftl_Bits32 :: "addr \<Rightarrow> addr \<Rightarrow> mem \<Rightarrow> (addr \<times> mem) res" where
  "idris2_shiftl_Bits32 = idris2_binop Bits32 c_shl"

definition idris2_shiftl_Bits64 :: "addr \<Rightarrow> addr \<Rightarrow> mem \<Rightarrow> (addr \<times> mem) res" where
  "idris2_shiftl_Bits64 = idris2_binop Bits64 c_shl"

definition idris2_shiftl_Int8 :: "addr \<Rightarrow> addr \<Rightarrow> mem \<Rightarrow> (addr \<times> mem) res" where
  "idris2_shiftl_Int8 = idris2_binop Int8 c_shl"

definition idris2_shiftl_Int16 :: "addr \<Rightarrow> addr \<Rightarrow> mem \<Rightarrow> (addr \<times> mem) res" where
  "idris2_shiftl_Int16 = idris2_binop Int16 c_shl"

definition idris2_shiftl_Int32 :: "addr \<Rightarrow> addr \<Rightarrow> mem \<Rightarrow> (addr \<times> mem) res" where
  "idris2_shiftl_Int32 = idris2_binop Int32 c_shl"

definition idris2_shiftl_Int64 :: "addr \<Rightarrow> addr \<Rightarrow> mem \<Rightarrow> (addr \<times> mem) res" where
  "idris2_shiftl_Int64 = idris2_binop Int64 c_shl"

definition idris2_shiftl_Integer :: "gmp \<Rightarrow> addr \<Rightarrow> addr \<Rightarrow> mem \<Rightarrow> (addr \<times> mem) res" where
  "idris2_shiftl_Integer g x y m =
     bindr (idris2_mkInteger m) (\<lambda>(retVal, m1).
     bindr (get_integer y m1) (\<lambda>b.
     let cnt = unat (mpz_get_ui g b) in
     bindr (get_integer x m1) (\<lambda>a.
     bindr (set_integer retVal (mpz_mul_2exp g a cnt) m1) (\<lambda>m2. Inr (retVal, m2)))))"

subsection \<open>shiftr\<close>

definition idris2_shiftr_Bits8 :: "addr \<Rightarrow> addr \<Rightarrow> mem \<Rightarrow> (addr \<times> mem) res" where
  "idris2_shiftr_Bits8 = idris2_binop Bits8 c_shr"

definition idris2_shiftr_Bits16 :: "addr \<Rightarrow> addr \<Rightarrow> mem \<Rightarrow> (addr \<times> mem) res" where
  "idris2_shiftr_Bits16 = idris2_binop Bits16 c_shr"

definition idris2_shiftr_Bits32 :: "addr \<Rightarrow> addr \<Rightarrow> mem \<Rightarrow> (addr \<times> mem) res" where
  "idris2_shiftr_Bits32 = idris2_binop Bits32 c_shr"

definition idris2_shiftr_Bits64 :: "addr \<Rightarrow> addr \<Rightarrow> mem \<Rightarrow> (addr \<times> mem) res" where
  "idris2_shiftr_Bits64 = idris2_binop Bits64 c_shr"

definition idris2_shiftr_Int8 :: "addr \<Rightarrow> addr \<Rightarrow> mem \<Rightarrow> (addr \<times> mem) res" where
  "idris2_shiftr_Int8 = idris2_binop Int8 c_shr"

definition idris2_shiftr_Int16 :: "addr \<Rightarrow> addr \<Rightarrow> mem \<Rightarrow> (addr \<times> mem) res" where
  "idris2_shiftr_Int16 = idris2_binop Int16 c_shr"

definition idris2_shiftr_Int32 :: "addr \<Rightarrow> addr \<Rightarrow> mem \<Rightarrow> (addr \<times> mem) res" where
  "idris2_shiftr_Int32 = idris2_binop Int32 c_shr"

definition idris2_shiftr_Int64 :: "addr \<Rightarrow> addr \<Rightarrow> mem \<Rightarrow> (addr \<times> mem) res" where
  "idris2_shiftr_Int64 = idris2_binop Int64 c_shr"

definition idris2_shiftr_Integer :: "gmp \<Rightarrow> addr \<Rightarrow> addr \<Rightarrow> mem \<Rightarrow> (addr \<times> mem) res" where
  "idris2_shiftr_Integer g x y m =
     bindr (idris2_mkInteger m) (\<lambda>(retVal, m1).
     bindr (get_integer y m1) (\<lambda>b.
     let cnt = unat (mpz_get_ui g b) in
     bindr (get_integer x m1) (\<lambda>a.
     bindr (set_integer retVal (mpz_fdiv_q_2exp g a cnt) m1) (\<lambda>m2. Inr (retVal, m2)))))"

subsection \<open>and\<close>

definition idris2_and_Bits8 :: "addr \<Rightarrow> addr \<Rightarrow> mem \<Rightarrow> (addr \<times> mem) res" where
  "idris2_and_Bits8 = idris2_binop Bits8 c_and"

definition idris2_and_Bits16 :: "addr \<Rightarrow> addr \<Rightarrow> mem \<Rightarrow> (addr \<times> mem) res" where
  "idris2_and_Bits16 = idris2_binop Bits16 c_and"

definition idris2_and_Bits32 :: "addr \<Rightarrow> addr \<Rightarrow> mem \<Rightarrow> (addr \<times> mem) res" where
  "idris2_and_Bits32 = idris2_binop Bits32 c_and"

definition idris2_and_Bits64 :: "addr \<Rightarrow> addr \<Rightarrow> mem \<Rightarrow> (addr \<times> mem) res" where
  "idris2_and_Bits64 = idris2_binop Bits64 c_and"

definition idris2_and_Int8 :: "addr \<Rightarrow> addr \<Rightarrow> mem \<Rightarrow> (addr \<times> mem) res" where
  "idris2_and_Int8 = idris2_binop Int8 c_and"

definition idris2_and_Int16 :: "addr \<Rightarrow> addr \<Rightarrow> mem \<Rightarrow> (addr \<times> mem) res" where
  "idris2_and_Int16 = idris2_binop Int16 c_and"

definition idris2_and_Int32 :: "addr \<Rightarrow> addr \<Rightarrow> mem \<Rightarrow> (addr \<times> mem) res" where
  "idris2_and_Int32 = idris2_binop Int32 c_and"

definition idris2_and_Int64 :: "addr \<Rightarrow> addr \<Rightarrow> mem \<Rightarrow> (addr \<times> mem) res" where
  "idris2_and_Int64 = idris2_binop Int64 c_and"

definition idris2_and_Integer :: "gmp \<Rightarrow> addr \<Rightarrow> addr \<Rightarrow> mem \<Rightarrow> (addr \<times> mem) res" where
  "idris2_and_Integer g = idris2_integer_op (mpz_and g)"

subsection \<open>or\<close>

definition idris2_or_Bits8 :: "addr \<Rightarrow> addr \<Rightarrow> mem \<Rightarrow> (addr \<times> mem) res" where
  "idris2_or_Bits8 = idris2_binop Bits8 c_or"

definition idris2_or_Bits16 :: "addr \<Rightarrow> addr \<Rightarrow> mem \<Rightarrow> (addr \<times> mem) res" where
  "idris2_or_Bits16 = idris2_binop Bits16 c_or"

definition idris2_or_Bits32 :: "addr \<Rightarrow> addr \<Rightarrow> mem \<Rightarrow> (addr \<times> mem) res" where
  "idris2_or_Bits32 = idris2_binop Bits32 c_or"

definition idris2_or_Bits64 :: "addr \<Rightarrow> addr \<Rightarrow> mem \<Rightarrow> (addr \<times> mem) res" where
  "idris2_or_Bits64 = idris2_binop Bits64 c_or"

definition idris2_or_Int8 :: "addr \<Rightarrow> addr \<Rightarrow> mem \<Rightarrow> (addr \<times> mem) res" where
  "idris2_or_Int8 = idris2_binop Int8 c_or"

definition idris2_or_Int16 :: "addr \<Rightarrow> addr \<Rightarrow> mem \<Rightarrow> (addr \<times> mem) res" where
  "idris2_or_Int16 = idris2_binop Int16 c_or"

definition idris2_or_Int32 :: "addr \<Rightarrow> addr \<Rightarrow> mem \<Rightarrow> (addr \<times> mem) res" where
  "idris2_or_Int32 = idris2_binop Int32 c_or"

definition idris2_or_Int64 :: "addr \<Rightarrow> addr \<Rightarrow> mem \<Rightarrow> (addr \<times> mem) res" where
  "idris2_or_Int64 = idris2_binop Int64 c_or"

definition idris2_or_Integer :: "gmp \<Rightarrow> addr \<Rightarrow> addr \<Rightarrow> mem \<Rightarrow> (addr \<times> mem) res" where
  "idris2_or_Integer g = idris2_integer_op (mpz_ior g)"

subsection \<open>xor\<close>

definition idris2_xor_Bits8 :: "addr \<Rightarrow> addr \<Rightarrow> mem \<Rightarrow> (addr \<times> mem) res" where
  "idris2_xor_Bits8 = idris2_binop Bits8 c_xor"

definition idris2_xor_Bits16 :: "addr \<Rightarrow> addr \<Rightarrow> mem \<Rightarrow> (addr \<times> mem) res" where
  "idris2_xor_Bits16 = idris2_binop Bits16 c_xor"

definition idris2_xor_Bits32 :: "addr \<Rightarrow> addr \<Rightarrow> mem \<Rightarrow> (addr \<times> mem) res" where
  "idris2_xor_Bits32 = idris2_binop Bits32 c_xor"

definition idris2_xor_Bits64 :: "addr \<Rightarrow> addr \<Rightarrow> mem \<Rightarrow> (addr \<times> mem) res" where
  "idris2_xor_Bits64 = idris2_binop Bits64 c_xor"

definition idris2_xor_Int8 :: "addr \<Rightarrow> addr \<Rightarrow> mem \<Rightarrow> (addr \<times> mem) res" where
  "idris2_xor_Int8 = idris2_binop Int8 c_xor"

definition idris2_xor_Int16 :: "addr \<Rightarrow> addr \<Rightarrow> mem \<Rightarrow> (addr \<times> mem) res" where
  "idris2_xor_Int16 = idris2_binop Int16 c_xor"

definition idris2_xor_Int32 :: "addr \<Rightarrow> addr \<Rightarrow> mem \<Rightarrow> (addr \<times> mem) res" where
  "idris2_xor_Int32 = idris2_binop Int32 c_xor"

definition idris2_xor_Int64 :: "addr \<Rightarrow> addr \<Rightarrow> mem \<Rightarrow> (addr \<times> mem) res" where
  "idris2_xor_Int64 = idris2_binop Int64 c_xor"

definition idris2_xor_Integer :: "gmp \<Rightarrow> addr \<Rightarrow> addr \<Rightarrow> mem \<Rightarrow> (addr \<times> mem) res" where
  "idris2_xor_Integer g = idris2_integer_op (mpz_xor g)"

subsection \<open>lt\<close>

definition idris2_lt_Bits8 :: "addr \<Rightarrow> addr \<Rightarrow> mem \<Rightarrow> addr res" where
  "idris2_lt_Bits8 = idris2_cmpop Bits8 (<)"

definition idris2_lt_Bits16 :: "addr \<Rightarrow> addr \<Rightarrow> mem \<Rightarrow> addr res" where
  "idris2_lt_Bits16 = idris2_cmpop Bits16 (<)"

definition idris2_lt_Bits32 :: "addr \<Rightarrow> addr \<Rightarrow> mem \<Rightarrow> addr res" where
  "idris2_lt_Bits32 = idris2_cmpop Bits32 (<)"

definition idris2_lt_Bits64 :: "addr \<Rightarrow> addr \<Rightarrow> mem \<Rightarrow> addr res" where
  "idris2_lt_Bits64 = idris2_cmpop Bits64 (<)"

definition idris2_lt_Int8 :: "addr \<Rightarrow> addr \<Rightarrow> mem \<Rightarrow> addr res" where
  "idris2_lt_Int8 = idris2_cmpop Int8 (<)"

definition idris2_lt_Int16 :: "addr \<Rightarrow> addr \<Rightarrow> mem \<Rightarrow> addr res" where
  "idris2_lt_Int16 = idris2_cmpop Int16 (<)"

definition idris2_lt_Int32 :: "addr \<Rightarrow> addr \<Rightarrow> mem \<Rightarrow> addr res" where
  "idris2_lt_Int32 = idris2_cmpop Int32 (<)"

definition idris2_lt_Int64 :: "addr \<Rightarrow> addr \<Rightarrow> mem \<Rightarrow> addr res" where
  "idris2_lt_Int64 = idris2_cmpop Int64 (<)"

definition idris2_lt_Integer :: "gmp \<Rightarrow> addr \<Rightarrow> addr \<Rightarrow> mem \<Rightarrow> addr res" where
  "idris2_lt_Integer g l r m =
     bindr (get_integer l m) (\<lambda>a. bindr (get_integer r m) (\<lambda>b.
       Inr (idris2_mkBool (c_bool (mpz_cmp g a b < 0)))))"

definition idris2_lt_Double :: "fpu \<Rightarrow> addr \<Rightarrow> addr \<Rightarrow> mem \<Rightarrow> addr res" where
  "idris2_lt_Double F = idris2_cmpop_Double (f_lt F)"

definition idris2_lt_Char :: "addr \<Rightarrow> addr \<Rightarrow> mem \<Rightarrow> addr res" where
  "idris2_lt_Char = idris2_cmpop Char (<)"

definition idris2_lt_string :: "addr \<Rightarrow> addr \<Rightarrow> mem \<Rightarrow> addr res" where
  "idris2_lt_string l r m =
     bindr (string_of l m) (\<lambda>a. bindr (string_of r m) (\<lambda>b.
       Inr (idris2_mkBool (c_bool (c_strcmp a b < 0)))))"

subsection \<open>gt\<close>

definition idris2_gt_Bits8 :: "addr \<Rightarrow> addr \<Rightarrow> mem \<Rightarrow> addr res" where
  "idris2_gt_Bits8 = idris2_cmpop Bits8 (>)"

definition idris2_gt_Bits16 :: "addr \<Rightarrow> addr \<Rightarrow> mem \<Rightarrow> addr res" where
  "idris2_gt_Bits16 = idris2_cmpop Bits16 (>)"

definition idris2_gt_Bits32 :: "addr \<Rightarrow> addr \<Rightarrow> mem \<Rightarrow> addr res" where
  "idris2_gt_Bits32 = idris2_cmpop Bits32 (>)"

definition idris2_gt_Bits64 :: "addr \<Rightarrow> addr \<Rightarrow> mem \<Rightarrow> addr res" where
  "idris2_gt_Bits64 = idris2_cmpop Bits64 (>)"

definition idris2_gt_Int8 :: "addr \<Rightarrow> addr \<Rightarrow> mem \<Rightarrow> addr res" where
  "idris2_gt_Int8 = idris2_cmpop Int8 (>)"

definition idris2_gt_Int16 :: "addr \<Rightarrow> addr \<Rightarrow> mem \<Rightarrow> addr res" where
  "idris2_gt_Int16 = idris2_cmpop Int16 (>)"

definition idris2_gt_Int32 :: "addr \<Rightarrow> addr \<Rightarrow> mem \<Rightarrow> addr res" where
  "idris2_gt_Int32 = idris2_cmpop Int32 (>)"

definition idris2_gt_Int64 :: "addr \<Rightarrow> addr \<Rightarrow> mem \<Rightarrow> addr res" where
  "idris2_gt_Int64 = idris2_cmpop Int64 (>)"

definition idris2_gt_Integer :: "gmp \<Rightarrow> addr \<Rightarrow> addr \<Rightarrow> mem \<Rightarrow> addr res" where
  "idris2_gt_Integer g l r m =
     bindr (get_integer l m) (\<lambda>a. bindr (get_integer r m) (\<lambda>b.
       Inr (idris2_mkBool (c_bool (mpz_cmp g a b > 0)))))"

definition idris2_gt_Double :: "fpu \<Rightarrow> addr \<Rightarrow> addr \<Rightarrow> mem \<Rightarrow> addr res" where
  "idris2_gt_Double F = idris2_cmpop_Double ((\<lambda>a b. f_lt F b a))"

definition idris2_gt_Char :: "addr \<Rightarrow> addr \<Rightarrow> mem \<Rightarrow> addr res" where
  "idris2_gt_Char = idris2_cmpop Char (>)"

definition idris2_gt_string :: "addr \<Rightarrow> addr \<Rightarrow> mem \<Rightarrow> addr res" where
  "idris2_gt_string l r m =
     bindr (string_of l m) (\<lambda>a. bindr (string_of r m) (\<lambda>b.
       Inr (idris2_mkBool (c_bool (c_strcmp a b > 0)))))"

subsection \<open>eq\<close>

definition idris2_eq_Bits8 :: "addr \<Rightarrow> addr \<Rightarrow> mem \<Rightarrow> addr res" where
  "idris2_eq_Bits8 = idris2_cmpop Bits8 (=)"

definition idris2_eq_Bits16 :: "addr \<Rightarrow> addr \<Rightarrow> mem \<Rightarrow> addr res" where
  "idris2_eq_Bits16 = idris2_cmpop Bits16 (=)"

definition idris2_eq_Bits32 :: "addr \<Rightarrow> addr \<Rightarrow> mem \<Rightarrow> addr res" where
  "idris2_eq_Bits32 = idris2_cmpop Bits32 (=)"

definition idris2_eq_Bits64 :: "addr \<Rightarrow> addr \<Rightarrow> mem \<Rightarrow> addr res" where
  "idris2_eq_Bits64 = idris2_cmpop Bits64 (=)"

definition idris2_eq_Int8 :: "addr \<Rightarrow> addr \<Rightarrow> mem \<Rightarrow> addr res" where
  "idris2_eq_Int8 = idris2_cmpop Int8 (=)"

definition idris2_eq_Int16 :: "addr \<Rightarrow> addr \<Rightarrow> mem \<Rightarrow> addr res" where
  "idris2_eq_Int16 = idris2_cmpop Int16 (=)"

definition idris2_eq_Int32 :: "addr \<Rightarrow> addr \<Rightarrow> mem \<Rightarrow> addr res" where
  "idris2_eq_Int32 = idris2_cmpop Int32 (=)"

definition idris2_eq_Int64 :: "addr \<Rightarrow> addr \<Rightarrow> mem \<Rightarrow> addr res" where
  "idris2_eq_Int64 = idris2_cmpop Int64 (=)"

definition idris2_eq_Integer :: "gmp \<Rightarrow> addr \<Rightarrow> addr \<Rightarrow> mem \<Rightarrow> addr res" where
  "idris2_eq_Integer g l r m =
     bindr (get_integer l m) (\<lambda>a. bindr (get_integer r m) (\<lambda>b.
       Inr (idris2_mkBool (c_bool (mpz_cmp g a b = 0)))))"

definition idris2_eq_Double :: "fpu \<Rightarrow> addr \<Rightarrow> addr \<Rightarrow> mem \<Rightarrow> addr res" where
  "idris2_eq_Double F = idris2_cmpop_Double (f_eq F)"

definition idris2_eq_Char :: "addr \<Rightarrow> addr \<Rightarrow> mem \<Rightarrow> addr res" where
  "idris2_eq_Char = idris2_cmpop Char (=)"

definition idris2_eq_string :: "addr \<Rightarrow> addr \<Rightarrow> mem \<Rightarrow> addr res" where
  "idris2_eq_string l r m =
     bindr (string_of l m) (\<lambda>a. bindr (string_of r m) (\<lambda>b.
       Inr (idris2_mkBool (c_bool (c_strcmp a b = 0)))))"

subsection \<open>lte\<close>

definition idris2_lte_Bits8 :: "addr \<Rightarrow> addr \<Rightarrow> mem \<Rightarrow> addr res" where
  "idris2_lte_Bits8 = idris2_cmpop Bits8 (\<le>)"

definition idris2_lte_Bits16 :: "addr \<Rightarrow> addr \<Rightarrow> mem \<Rightarrow> addr res" where
  "idris2_lte_Bits16 = idris2_cmpop Bits16 (\<le>)"

definition idris2_lte_Bits32 :: "addr \<Rightarrow> addr \<Rightarrow> mem \<Rightarrow> addr res" where
  "idris2_lte_Bits32 = idris2_cmpop Bits32 (\<le>)"

definition idris2_lte_Bits64 :: "addr \<Rightarrow> addr \<Rightarrow> mem \<Rightarrow> addr res" where
  "idris2_lte_Bits64 = idris2_cmpop Bits64 (\<le>)"

definition idris2_lte_Int8 :: "addr \<Rightarrow> addr \<Rightarrow> mem \<Rightarrow> addr res" where
  "idris2_lte_Int8 = idris2_cmpop Int8 (\<le>)"

definition idris2_lte_Int16 :: "addr \<Rightarrow> addr \<Rightarrow> mem \<Rightarrow> addr res" where
  "idris2_lte_Int16 = idris2_cmpop Int16 (\<le>)"

definition idris2_lte_Int32 :: "addr \<Rightarrow> addr \<Rightarrow> mem \<Rightarrow> addr res" where
  "idris2_lte_Int32 = idris2_cmpop Int32 (\<le>)"

definition idris2_lte_Int64 :: "addr \<Rightarrow> addr \<Rightarrow> mem \<Rightarrow> addr res" where
  "idris2_lte_Int64 = idris2_cmpop Int64 (\<le>)"

definition idris2_lte_Integer :: "gmp \<Rightarrow> addr \<Rightarrow> addr \<Rightarrow> mem \<Rightarrow> addr res" where
  "idris2_lte_Integer g l r m =
     bindr (get_integer l m) (\<lambda>a. bindr (get_integer r m) (\<lambda>b.
       Inr (idris2_mkBool (c_bool (mpz_cmp g a b \<le> 0)))))"

definition idris2_lte_Double :: "fpu \<Rightarrow> addr \<Rightarrow> addr \<Rightarrow> mem \<Rightarrow> addr res" where
  "idris2_lte_Double F = idris2_cmpop_Double (f_le F)"

definition idris2_lte_Char :: "addr \<Rightarrow> addr \<Rightarrow> mem \<Rightarrow> addr res" where
  "idris2_lte_Char = idris2_cmpop Char (\<le>)"

definition idris2_lte_string :: "addr \<Rightarrow> addr \<Rightarrow> mem \<Rightarrow> addr res" where
  "idris2_lte_string l r m =
     bindr (string_of l m) (\<lambda>a. bindr (string_of r m) (\<lambda>b.
       Inr (idris2_mkBool (c_bool (c_strcmp a b \<le> 0)))))"

subsection \<open>gte\<close>

definition idris2_gte_Bits8 :: "addr \<Rightarrow> addr \<Rightarrow> mem \<Rightarrow> addr res" where
  "idris2_gte_Bits8 = idris2_cmpop Bits8 (\<ge>)"

definition idris2_gte_Bits16 :: "addr \<Rightarrow> addr \<Rightarrow> mem \<Rightarrow> addr res" where
  "idris2_gte_Bits16 = idris2_cmpop Bits16 (\<ge>)"

definition idris2_gte_Bits32 :: "addr \<Rightarrow> addr \<Rightarrow> mem \<Rightarrow> addr res" where
  "idris2_gte_Bits32 = idris2_cmpop Bits32 (\<ge>)"

definition idris2_gte_Bits64 :: "addr \<Rightarrow> addr \<Rightarrow> mem \<Rightarrow> addr res" where
  "idris2_gte_Bits64 = idris2_cmpop Bits64 (\<ge>)"

definition idris2_gte_Int8 :: "addr \<Rightarrow> addr \<Rightarrow> mem \<Rightarrow> addr res" where
  "idris2_gte_Int8 = idris2_cmpop Int8 (\<ge>)"

definition idris2_gte_Int16 :: "addr \<Rightarrow> addr \<Rightarrow> mem \<Rightarrow> addr res" where
  "idris2_gte_Int16 = idris2_cmpop Int16 (\<ge>)"

definition idris2_gte_Int32 :: "addr \<Rightarrow> addr \<Rightarrow> mem \<Rightarrow> addr res" where
  "idris2_gte_Int32 = idris2_cmpop Int32 (\<ge>)"

definition idris2_gte_Int64 :: "addr \<Rightarrow> addr \<Rightarrow> mem \<Rightarrow> addr res" where
  "idris2_gte_Int64 = idris2_cmpop Int64 (\<ge>)"

definition idris2_gte_Integer :: "gmp \<Rightarrow> addr \<Rightarrow> addr \<Rightarrow> mem \<Rightarrow> addr res" where
  "idris2_gte_Integer g l r m =
     bindr (get_integer l m) (\<lambda>a. bindr (get_integer r m) (\<lambda>b.
       Inr (idris2_mkBool (c_bool (mpz_cmp g a b \<ge> 0)))))"

definition idris2_gte_Double :: "fpu \<Rightarrow> addr \<Rightarrow> addr \<Rightarrow> mem \<Rightarrow> addr res" where
  "idris2_gte_Double F = idris2_cmpop_Double ((\<lambda>a b. f_le F b a))"

definition idris2_gte_Char :: "addr \<Rightarrow> addr \<Rightarrow> mem \<Rightarrow> addr res" where
  "idris2_gte_Char = idris2_cmpop Char (\<ge>)"

definition idris2_gte_string :: "addr \<Rightarrow> addr \<Rightarrow> mem \<Rightarrow> addr res" where
  "idris2_gte_string l r m =
     bindr (string_of l m) (\<lambda>a. bindr (string_of r m) (\<lambda>b.
       Inr (idris2_mkBool (c_bool (c_strcmp a b \<ge> 0)))))"

end
