(* ===== verification/Math_Correct.thy ===== *)
theory Math_Correct
  imports Math_Functions
begin

text \<open>
  Correctness of the arithmetic of \<open>Math_Functions\<close>: what a result reads back as, which inputs
  fault, Euclidean division and remainder, and the order on strings.
\<close>

section \<open>Values and their representation\<close>

text \<open>
  The interface between the arithmetic and the representation of integers: a value that has been
  made reads back as the conversion of the number it was made from, making one disturbs no other
  value, and the only fault is a failed allocation.
\<close>

locale int_box =
  fixes ty :: ity
    and make :: "int \<Rightarrow> mem \<Rightarrow> (addr \<times> mem) res"
    and rd :: "addr \<Rightarrow> mem \<Rightarrow> int res"
  assumes make_rd: "rt_wf m \<Longrightarrow> make v m = Inr (p, m') \<Longrightarrow> rd p m' = Inr (c_conv ty v)"
    and make_wf: "rt_wf m \<Longrightarrow> make v m = Inr (p, m') \<Longrightarrow> rt_wf m'"
    and make_frame: "rt_wf m \<Longrightarrow> make v m = Inr (p, m') \<Longrightarrow> rd q m = Inr a \<Longrightarrow> rd q m' = Inr a"
    and make_fault: "rt_wf m \<Longrightarrow> make v m = Inl e \<Longrightarrow> e = Verify_failed \<and> \<not> brk m < lim m"
    and rd_range: "rd p m = Inr a \<Longrightarrow> in_range ty a"
begin

lemma op_result:
  assumes "rt_wf m" "rd l m = Inr a" "rd r m = Inr b"
    and "bindr (rd l m) (\<lambda>a. bindr (rd r m) (\<lambda>b. bindr (f a b) (\<lambda>c. make c m))) = Inr (p, m')"
  obtains c where "f a b = Inr c" "rd p m' = Inr (c_conv ty c)" "rt_wf m'"
    "rd l m' = Inr a" "rd r m' = Inr b"
  using assms make_rd make_wf make_frame by (fastforce simp: res_simps)

lemma op_fault:
  assumes "rt_wf m" "rd l m = Inr a" "rd r m = Inr b"
    and "bindr (rd l m) (\<lambda>a. bindr (rd r m) (\<lambda>b. bindr (f a b) (\<lambda>c. make c m))) = Inl e"
  shows "e = Verify_failed \<and> \<not> brk m < lim m \<or> f a b = Inl e"
  using assms make_fault by (fastforce simp: res_simps)

text \<open>A number in the range of the type survives the round trip unchanged.\<close>

lemma make_rd_exact: "rt_wf m \<Longrightarrow> in_range ty v \<Longrightarrow> make v m = Inr (p, m') \<Longrightarrow> rd p m' = Inr v"
  using make_rd by fastforce

end

lemma boxed_64_alloc:
  assumes "mem_wf m" "boxed_64 q m = Inr w"
  shows "boxed_64 q (alloc_obj v m) = Inr w"
proof -
  obtain u where u: "q \<noteq> 0" "objs m q = Some u"
    using assms(2) by (auto simp: boxed_64_def res_simps)
  moreover have "q \<noteq> addr_of (brk m)" using u(2) mem_wf_fresh(1) [OF assms(1)] by auto
  ultimately show ?thesis using assms(2) by (simp add: boxed_64_def)
qed

lemma boxed_64_new:
  assumes "mem_wf m" "payload v = Idris2_Bits64 w \<or> payload v = Idris2_Int64 w"
  shows "boxed_64 (addr_of (brk m)) (alloc_obj v m) = Inr w"
  using assms mem_wf_fresh(3) [OF assms(1)] by (auto simp: boxed_64_def)

lemma boxed_64_static:
  assumes "rt_wf m" "i < 100"
  shows "boxed_64 (idris2_predefined_Int64 i) m = Inr (word_of_nat i)"
    "boxed_64 (idris2_predefined_Bits64 i) m = Inr (word_of_nat i)"
proof -
  have "objs m (addr_of (1 + i)) = Some (IDRIS2_STOCKVAL INT64_TAG (Idris2_Int64 (word_of_nat i)))"
    "objs m (addr_of (101 + i)) = Some (IDRIS2_STOCKVAL BITS64_TAG (Idris2_Bits64 (word_of_nat i)))"
    using assms unfolding rt_wf_def statics_ok_def by (auto simp: static_obj_def)
  moreover have "addr_of (1 + i) \<noteq> 0" "addr_of (101 + i) \<noteq> 0"
    using assms(2) addr_of_nonzero [of "1 + i"] addr_of_nonzero [of "101 + i"] by simp_all
  ultimately show "boxed_64 (idris2_predefined_Int64 i) m = Inr (word_of_nat i)"
    "boxed_64 (idris2_predefined_Bits64 i) m = Inr (word_of_nat i)"
    by (simp_all add: boxed_64_def idris2_predefined_Int64_def idris2_predefined_Bits64_def
        IDRIS2_STOCKVAL_def del: plus_nat.simps add_Suc)
qed

text \<open>Both 64-bit constructors store the bit pattern of their argument.\<close>

lemma mkInt64_boxed:
  assumes "rt_wf m"
  shows "idris2_mkInt64 w m = Inr (p, m') \<Longrightarrow> boxed_64 p m' = Inr w"
    and "idris2_mkBits64 w m = Inr (p, m') \<Longrightarrow> boxed_64 p m' = Inr w"
proof -
  note wf = rt_wf_mem_wf [OF assms]
  show "boxed_64 p m' = Inr w" if "idris2_mkInt64 w m = Inr (p, m')"
  proof (cases "sint w \<ge> 0 \<and> sint w < 100")
    case True
    then have "word_of_nat (nat (sint w)) = (word_of_int (sint w) :: 64 word)"
      by (subst of_nat_nat) simp_all
    then have "word_of_nat (nat (sint w)) = w" by simp
    with True that boxed_64_static(1) [OF assms, of "nat (sint w)"] show ?thesis
      by (auto simp: idris2_mkInt64_def)
  qed (use that wf in \<open>auto simp: idris2_mkInt64_def new_tagged_cases boxed_64_new split: if_splits\<close>)
  show "boxed_64 p m' = Inr w" if "idris2_mkBits64 w m = Inr (p, m')"
  proof (cases "w < 100")
    case True
    then have "unat w < 100" by (simp add: word_less_nat_alt)
    with True that boxed_64_static(2) [OF assms, of "unat w"] show ?thesis
      by (auto simp: idris2_mkBits64_def)
  qed (use that wf in \<open>auto simp: idris2_mkBits64_def new_tagged_cases boxed_64_new split: if_splits\<close>)
qed

lemma mk_cases:
  assumes "rt_wf m"
  shows "mk ty v m = Inl e \<Longrightarrow> e = Verify_failed \<and> \<not> brk m < lim m"
    and "mk ty v m = Inr (p, m') \<Longrightarrow> m' = m \<or> brk m < lim m \<and> (\<exists>u. m' = alloc_obj u m)"
  using rt_wf_mem_wf [OF assms]
  by (cases ty; auto simp: idris2_mkBits64_def idris2_mkInt64_def new_tagged_cases split: if_splits)+

lemma uint_word_conv: "uint (word_of_int v :: 64 word) = c_conv Bits64 v"
  by (simp add: c_conv_def uint_word_of_int_eq)

lemma sint_word_conv: "sint (word_of_int v :: 64 word) = c_conv Int64 v"
  by (simp add: c_conv_def signed_of_int)

interpretation box: int_box ty "mk ty" "vp_to ty" for ty
proof
  fix m v p m' assume wf: "rt_wf m" and make: "mk ty v m = Inr (p, m')"
  show "vp_to ty p m' = Inr (c_conv ty v)"
    using make mkInt64_boxed [OF wf, of "word_of_int v" p m']
    by (cases ty) (auto simp: unboxed_mk_defs unboxed_to_defs unboxed_roundtrip
        idris2_vp_to_Int64_def idris2_vp_to_Bits64_def uint_word_conv sint_word_conv)
  show "rt_wf m'"
    using mk_cases(2) [OF wf make] wf rt_wf_alloc_obj by auto
  show "vp_to ty q m' = Inr a" if "vp_to ty q m = Inr a" for q a
    using mk_cases(2) [OF wf make] that boxed_64_alloc [OF rt_wf_mem_wf [OF wf]]
    by (cases ty) (auto simp: idris2_vp_to_Int64_def idris2_vp_to_Bits64_def res_simps)
next
  fix m v e assume "rt_wf m" "mk ty v m = Inl e"
  then show "e = Verify_failed \<and> \<not> brk m < lim m" by (rule mk_cases(1))
next
  fix p m a assume "vp_to ty p m = Inr a"
  moreover have "in_range Bits64 (uint w)" "in_range Int64 (sint w)" for w :: "64 word"
    using uint_word_conv [of "uint w"] sint_word_conv [of "sint w"]
    by (simp_all flip: c_conv_eq_self_iff)
  ultimately show "in_range ty a"
    by (cases ty) (auto simp: unboxed_to_defs idris2_vp_to_Int64_def idris2_vp_to_Bits64_def res_simps)
qed

section \<open>Addition, subtraction, multiplication\<close>

text \<open>The fixed-width operations with the type they compute at and the operation on integers they
  stand for.\<close>

definition arith_ops ::
  "(ity \<times> (addr \<Rightarrow> addr \<Rightarrow> mem \<Rightarrow> (addr \<times> mem) res) \<times> (int \<Rightarrow> int \<Rightarrow> int)) list" where
  "arith_ops =
     [(Bits8, idris2_add_Bits8, (+)), (Bits16, idris2_add_Bits16, (+)),
      (Bits32, idris2_add_Bits32, (+)), (Bits64, idris2_add_Bits64, (+)),
      (Int8, idris2_add_Int8, (+)), (Int16, idris2_add_Int16, (+)),
      (Int32, idris2_add_Int32, (+)), (Int64, idris2_add_Int64, (+)),
      (Bits8, idris2_sub_Bits8, (-)), (Bits16, idris2_sub_Bits16, (-)),
      (Bits32, idris2_sub_Bits32, (-)), (Bits64, idris2_sub_Bits64, (-)),
      (Int8, idris2_sub_Int8, (-)), (Int16, idris2_sub_Int16, (-)),
      (Int32, idris2_sub_Int32, (-)), (Int64, idris2_sub_Int64, (-)),
      (Bits8, idris2_mul_Bits8, (*)), (Bits16, idris2_mul_Bits16, (*)),
      (Bits32, idris2_mul_Bits32, (*)), (Bits64, idris2_mul_Bits64, (*)),
      (Int8, idris2_mul_Int8, (*)), (Int16, idris2_mul_Int16, (*)),
      (Int32, idris2_mul_Int32, (*)), (Int64, idris2_mul_Int64, (*))]"

lemmas add_defs = idris2_add_Bits8_def idris2_add_Bits16_def idris2_add_Bits32_def
  idris2_add_Bits64_def idris2_add_Int8_def idris2_add_Int16_def idris2_add_Int32_def
  idris2_add_Int64_def
lemmas sub_defs = idris2_sub_Bits8_def idris2_sub_Bits16_def idris2_sub_Bits32_def
  idris2_sub_Bits64_def idris2_sub_Int8_def idris2_sub_Int16_def idris2_sub_Int32_def
  idris2_sub_Int64_def
lemmas mul_defs = idris2_mul_Bits8_def idris2_mul_Bits16_def idris2_mul_Bits32_def
  idris2_mul_Bits64_def idris2_mul_Int8_def idris2_mul_Int16_def idris2_mul_Int32_def
  idris2_mul_Int64_def

lemma arith_ops_binop:
  assumes "(ty, f, g) \<in> set arith_ops"
  shows "f l r m = idris2_binop ty (\<lambda>ty a b. c_fit (c_promote ty) (g a b)) l r m"
  using assms unfolding arith_ops_def
  by (auto simp: add_defs sub_defs mul_defs idris2_binop_def c_add_def c_sub_def c_mul_def)

lemma c_promote_width: "width ty \<le> width (c_promote ty)"
  by (simp add: c_promote_def)

text \<open>The value of a C operator, stored at its own type, is the mathematical result reduced to that
  type, whatever type the operator computed in.\<close>

lemma c_fit_store: "c_fit (c_promote ty) v = Inr c \<Longrightarrow> c_conv ty c = c_conv ty v"
  using c_promote_width by (auto dest!: c_fit_Inr)

lemma c_fit_eq_Inl: "c_fit ty v = Inl e \<longleftrightarrow> e = Undefined Int_overflow \<and> is_signed ty \<and> \<not> in_range ty v"
  by (auto simp: c_fit_def)

lemma binop_unfold: "idris2_binop ty opr l r m =
    bindr (vp_to ty l m) (\<lambda>a. bindr (vp_to ty r m) (\<lambda>b. bindr (opr ty a b) (\<lambda>c. mk ty c m)))"
  by (simp add: idris2_binop_def)

text \<open>C14. Addition, subtraction and multiplication of every fixed-width type (24 macros): on readable
  operands the call either returns a value that reads back as the mathematical result reduced to the
  type (wrap-around), in a well-formed memory where every readable value of the type still reads the
  same, or it faults, and then memory is exhausted or the operator overflowed the signed type it is
  promoted to.\<close>

theorem arith_correct:
  assumes "(ty, f, g) \<in> set arith_ops" "rt_wf m" "vp_to ty l m = Inr a" "vp_to ty r m = Inr b"
  shows "case f l r m of
      Inr (p, m') \<Rightarrow> vp_to ty p m' = Inr (c_conv ty (g a b)) \<and> rt_wf m' \<and>
        (\<forall>q c. vp_to ty q m = Inr c \<longrightarrow> vp_to ty q m' = Inr c)
    | Inl e \<Rightarrow> e = Verify_failed \<and> \<not> brk m < lim m \<or>
        e = Undefined Int_overflow \<and> is_signed (c_promote ty) \<and> \<not> in_range (c_promote ty) (g a b)"
proof (cases "f l r m")
  case (Inl e)
  then show ?thesis
    using box.op_fault [OF assms(2-4), of "\<lambda>a b. c_fit (c_promote ty) (g a b)"]
    by (auto simp: arith_ops_binop [OF assms(1)] binop_unfold c_fit_eq_Inl)
next
  case (Inr pm)
  then obtain p m' c where c: "f l r m = Inr (p, m')" "c_fit (c_promote ty) (g a b) = Inr c"
    "mk ty c m = Inr (p, m')" using assms(3,4)
    by (cases pm) (auto simp: arith_ops_binop [OF assms(1)] binop_unfold res_simps)
  with box.make_rd [OF assms(2)] box.make_wf [OF assms(2)] box.make_frame [OF assms(2)] show ?thesis
    by (auto simp: c_fit_store)
qed

lemma unboxed_read [simp]:
  "idris2_vp_to_Bits8 (idris2_mkBits8 x) = c_conv Bits8 x"
  "idris2_vp_to_Bits16 (idris2_mkBits16 x) = c_conv Bits16 x"
  "idris2_vp_to_Bits32 (idris2_mkBits32 x) = c_conv Bits32 x"
  "idris2_vp_to_Int8 (idris2_mkInt8 x) = c_conv Int8 x"
  "idris2_vp_to_Int16 (idris2_mkInt16 x) = c_conv Int16 x"
  "idris2_vp_to_Int32 (idris2_mkInt32 x) = c_conv Int32 x"
  "idris2_vp_to_Char (idris2_mkChar x) = c_conv Char x"
  "idris2_vp_to_Bool (idris2_mkBool x) = c_conv Int8 x"
  by (simp_all add: unboxed_mk_defs unboxed_to_defs idris2_vp_to_Bool_def idris2_mkBool_def
      unboxed_roundtrip)

lemma rt_wf_example: "rt_wf (init_mem 1000)"
  by (rule rt_wf_init) (simp_all add: static_end_def)

theorem arith_correct_witness:
  "rt_wf (init_mem 1000) \<and>
   (case idris2_add_Bits8 (idris2_mkBits8 200) (idris2_mkBits8 100) (init_mem 1000) of
      Inr (p, m') \<Rightarrow> vp_to Bits8 p m' = Inr (c_conv Bits8 (200 + 100)) \<and> rt_wf m' \<and>
        (\<forall>q c. vp_to Bits8 q (init_mem 1000) = Inr c \<longrightarrow> vp_to Bits8 q m' = Inr c)
    | Inl e \<Rightarrow> e = Verify_failed \<and> \<not> brk (init_mem 1000) < lim (init_mem 1000) \<or>
        e = Undefined Int_overflow \<and> is_signed (c_promote Bits8) \<and>
        \<not> in_range (c_promote Bits8) (200 + 100))"
  using rt_wf_example
    arith_correct [of Bits8 idris2_add_Bits8 "(+)" "init_mem 1000" "idris2_mkBits8 200" 200
      "idris2_mkBits8 100" 100]
  by (simp add: arith_ops_def in_range_code)

text \<open>Addition and subtraction of the types of at most 32 bits other than \<open>Int32\<close> are total: no
  fault, no allocation, and the result is the sum or difference reduced to the type.\<close>

theorem narrow_add_sub_total:
  assumes "ty \<in> {Bits8, Bits16, Bits32, Int8, Int16}" "vp_to ty l m = Inr a" "vp_to ty r m = Inr b"
    and "(ty, f, g) \<in> set arith_ops" "g = (+) \<or> g = (-)"
  shows "\<exists>p. f l r m = Inr (p, m) \<and> vp_to ty p m = Inr (c_conv ty (g a b))"
proof -
  have range: "in_range ty a" "in_range ty b"
    using assms(2,3) box.rd_range by blast+
  have "\<exists>c. c_fit (c_promote ty) (g a b) = Inr c"
    using assms(1,5) range by (auto simp: c_promote_def c_fit_def in_range_code)
  then obtain c where c: "c_fit (c_promote ty) (g a b) = Inr c" ..
  then have "f l r m = mk ty c m"
    using assms(2,3) by (simp add: arith_ops_binop [OF assms(4)] binop_unfold)
  with assms(1) c_fit_store [OF c] show ?thesis by auto
qed

theorem narrow_add_sub_total_witness:
  "\<exists>p. idris2_sub_Int8 (idris2_mkInt8 (- 100)) (idris2_mkInt8 100) (init_mem 1000) = Inr (p, init_mem 1000) \<and>
     vp_to Int8 p (init_mem 1000) = Inr (c_conv Int8 (- 200))"
  using narrow_add_sub_total [of Int8 "idris2_mkInt8 (- 100)" "init_mem 1000" "- 100"
      "idris2_mkInt8 100" 100 idris2_sub_Int8 "(-)"]
  by (simp add: arith_ops_def in_range_code)

text \<open>The product of two \<open>Bits16\<close> values is computed in \<open>int\<close>, and is undefined exactly when it
  exceeds \<open>INT_MAX\<close>: \<open>65535 * 65535\<close> has no defined result although the type is unsigned.\<close>

theorem mul_Bits16_defined_iff:
  "idris2_mul_Bits16 l r m =
     (let v = idris2_vp_to_Bits16 l * idris2_vp_to_Bits16 r
      in if v \<le> 2147483647 then Inr (idris2_mkBits16 v, m) else Inl (Undefined Int_overflow))"
proof -
  have "in_range Bits16 (idris2_vp_to_Bits16 p)" for p
    by (simp add: idris2_vp_to_Bits16_def)
  then have "0 \<le> idris2_vp_to_Bits16 l * idris2_vp_to_Bits16 r"
    by (simp add: in_range_code)
  then show ?thesis
    by (simp add: idris2_mul_Bits16_def idris2_binop_def c_int Let_def)
qed

section \<open>Division and remainder\<close>

text \<open>The division and remainder of Idris: the remainder is never negative.\<close>

definition euclid_div :: "int \<Rightarrow> int \<Rightarrow> int" where
  "euclid_div a b = (if b < 0 then - (a div (- b)) else a div b)"

definition euclid_mod :: "int \<Rightarrow> int \<Rightarrow> int" where
  "euclid_mod a b = a mod \<bar>b\<bar>"

lemma euclid_spec:
  "b \<noteq> 0 \<Longrightarrow> a = b * euclid_div a b + euclid_mod a b \<and> 0 \<le> euclid_mod a b \<and> euclid_mod a b < \<bar>b\<bar>"
  using mult_div_mod_eq [of b a] mult_div_mod_eq [of "- b" a]
  by (auto simp: euclid_div_def euclid_mod_def abs_if)

text \<open>C's truncated quotient and remainder in terms of \<open>div\<close> and \<open>mod\<close>.\<close>

lemma sdiv_cases:
  "(a::int) sdiv b =
     (if 0 \<le> a then if 0 \<le> b then a div b else - (a div (- b))
      else if 0 \<le> b then - ((- a) div b) else (- a) div (- b))"
  by (auto simp: signed_divide_int_def sgn_if)

lemma smod_cases: "(a::int) smod b = (if 0 \<le> a then a mod \<bar>b\<bar> else - ((- a) mod \<bar>b\<bar>))"
  by (auto simp: signed_modulo_int_def sgn_if abs_if)

lemma minus_mod_cases:
  fixes a c :: int
  assumes "0 < c"
  shows "(- a) mod c = (if a mod c = 0 then 0 else c - a mod c)"
    and "(- a) div c = (if a mod c = 0 then - (a div c) else - (a div c) - 1)"
  using assms zmod_zminus1_eq_if [of a c] zdiv_zminus1_eq_if [of c a] by simp_all

text \<open>The correction terms of the C code turn the truncated results into the Euclidean ones.\<close>

lemma euclid_div_correction:
  assumes "b \<noteq> 0"
  shows "a sdiv b + (if a smod b < 0 then if b < 0 then 1 else - 1 else 0) = euclid_div a b"
proof (cases "0 \<le> a")
  case True
  moreover have "0 \<le> a mod \<bar>b\<bar>" using assms by simp
  ultimately show ?thesis
    using assms by (cases "b < 0") (simp_all add: sdiv_cases smod_cases euclid_div_def not_less)
next
  case False
  define d where "d = - a"
  have a: "a = - d" "0 < d" using False by (auto simp: d_def)
  have "0 \<le> d mod \<bar>b\<bar>" using assms by simp
  then have "- (d mod \<bar>b\<bar>) < 0 \<longleftrightarrow> d mod \<bar>b\<bar> \<noteq> 0" by linarith
  then show ?thesis
    using a assms minus_mod_cases(2) [of "\<bar>b\<bar>" d]
    by (cases "b < 0") (simp_all add: sdiv_cases smod_cases euclid_div_def)
qed

lemma euclid_mod_correction:
  assumes "b \<noteq> 0"
  shows "a smod b + (if a < 0 then \<bar>b\<bar> else 0) =
    (if a < 0 \<and> b dvd a then \<bar>b\<bar> else euclid_mod a b)"
proof (cases "0 \<le> a")
  case True
  then show ?thesis by (simp add: smod_cases euclid_mod_def)
next
  case False
  have "b dvd a \<longleftrightarrow> (- a) mod \<bar>b\<bar> = 0" by (simp add: dvd_eq_mod_eq_0 [symmetric])
  with False assms minus_mod_cases [of "\<bar>b\<bar>" "- a"] show ?thesis
    by (auto simp: smod_cases euclid_mod_def)
qed

lemma div_half:
  assumes "2 \<le> (c::int)"
  shows "2 * \<bar>a div c\<bar> \<le> \<bar>a\<bar> + 1"
proof (cases "0 \<le> a")
  case True
  then have "a div c \<le> a div 2" "0 \<le> a div c"
    using assms zdiv_mono2 [of a 2 c] by (simp_all add: pos_imp_zdiv_nonneg_iff)
  then show ?thesis using True by linarith
next
  case False
  then have "a div 2 \<le> a div c" "a div c < 0"
    using assms zdiv_mono2_neg [of a 2 c] pos_imp_zdiv_neg_iff [of c a] by simp_all
  then show ?thesis using False by linarith
qed

text \<open>A quotient of two values of a signed type is representable in the promoted type, except for
  the most negative value divided by \<open>-1\<close> where the type is not promoted.\<close>

definition div_overflows :: "ity \<Rightarrow> int \<Rightarrow> int \<Rightarrow> bool" where
  "div_overflows ty a b \<longleftrightarrow> 32 \<le> width ty \<and> a = c_min ty \<and> b = - 1"

lemma half_in_range:
  "in_range ty a \<Longrightarrow> is_signed ty \<Longrightarrow> 2 * \<bar>q\<bar> \<le> \<bar>a\<bar> + 1 \<Longrightarrow> in_range (c_promote ty) q"
  by (cases ty) (auto simp: in_range_code c_promote_def)

lemma in_range_promote: "in_range ty a \<Longrightarrow> in_range (c_promote ty) a"
  by (cases ty) (auto simp: c_promote_def in_range_code)

lemma minus_in_range:
  "in_range ty a \<Longrightarrow> is_signed ty \<Longrightarrow>
   in_range (c_promote ty) (- a) \<longleftrightarrow> \<not> (32 \<le> width ty \<and> a = c_min ty)"
  by (cases ty) (auto simp: in_range_code c_promote_def c_min_def)

lemma signed_promote [simp]: "is_signed ty \<Longrightarrow> is_signed (c_promote ty)"
  by (simp add: c_promote_def)

lemma quotient_fits:
  assumes "in_range ty a" "is_signed ty" "b \<noteq> 0"
  shows "in_range (c_promote ty) (a sdiv b) \<longleftrightarrow> \<not> div_overflows ty a b"
    and "in_range (c_promote ty) (euclid_div a b) \<longleftrightarrow> \<not> div_overflows ty a b"
proof -
  consider "b = 1" | "b = - 1" | "2 \<le> b" | "2 \<le> - b" using assms(3) by linarith
  then have "(in_range (c_promote ty) (a sdiv b) \<longleftrightarrow> \<not> div_overflows ty a b) \<and>
      (in_range (c_promote ty) (euclid_div a b) \<longleftrightarrow> \<not> div_overflows ty a b)"
  proof cases
    case 3
    then show ?thesis
      using assms div_half [of b a] div_half [of b "- a"]
      by (auto simp: sdiv_cases euclid_div_def div_overflows_def intro: half_in_range)
  next
    case 4
    then show ?thesis
      using assms div_half [of "- b" a] div_half [of "- b" "- a"]
      by (auto simp: sdiv_cases euclid_div_def div_overflows_def intro: half_in_range)
  qed (use assms minus_in_range in_range_promote in
        \<open>auto simp: sdiv_cases euclid_div_def div_overflows_def\<close>)
  then show "in_range (c_promote ty) (a sdiv b) \<longleftrightarrow> \<not> div_overflows ty a b"
    "in_range (c_promote ty) (euclid_div a b) \<longleftrightarrow> \<not> div_overflows ty a b" by blast+
qed

lemma smod_in_range: "in_range ty a \<Longrightarrow> is_signed ty \<Longrightarrow> in_range ty (a smod b)"
proof -
  assume a: "in_range ty a" "is_signed ty"
  have "\<bar>a smod b\<bar> \<le> \<bar>a\<bar>" "0 \<le> a \<Longrightarrow> 0 \<le> a smod b" "a < 0 \<Longrightarrow> a smod b \<le> 0"
    using zmod_le_nonneg_dividend [of a "\<bar>b\<bar>"] zmod_le_nonneg_dividend [of "- a" "\<bar>b\<bar>"]
    by (cases "b = 0"; auto simp: smod_cases)+
  with a show ?thesis by (cases "0 \<le> a"; cases ty) (auto simp: in_range_code)
qed

definition div_ops :: "(ity \<times> (addr \<Rightarrow> addr \<Rightarrow> mem \<Rightarrow> (addr \<times> mem) res)) list" where
  "div_ops = [(Int8, idris2_div_Int8), (Int16, idris2_div_Int16), (Int32, idris2_div_Int32),
              (Int64, idris2_div_Int64)]"

definition mod_ops :: "(ity \<times> (addr \<Rightarrow> addr \<Rightarrow> mem \<Rightarrow> (addr \<times> mem) res)) list" where
  "mod_ops = [(Int8, idris2_mod_Int8), (Int16, idris2_mod_Int16), (Int32, idris2_mod_Int32),
              (Int64, idris2_mod_Int64)]"

lemma div_ops_unfold:
  assumes "(ty, f) \<in> set div_ops" "vp_to ty x m = Inr a" "vp_to ty y m = Inr b"
  shows "f x y m = bindr (c_mod ty a b) (\<lambda>r. bindr (c_div ty a b) (\<lambda>q.
      bindr (c_add ty q (if c_conv ty r < 0 then if b < 0 then 1 else - 1 else 0)) (\<lambda>v. mk ty v m)))"
  using assms unfolding div_ops_def
  by (auto simp: idris2_div_Int8_def idris2_div_Int16_def idris2_div_Int32_def
      idris2_div_Int64_def Let_def)

lemma mod_ops_unfold:
  assumes "(ty, f) \<in> set mod_ops" "vp_to ty x m = Inr a" "vp_to ty y m = Inr b"
  shows "f x y m = bindr (if b < 0 then c_neg ty b else Inr b) (\<lambda>d.
      bindr (c_mod ty a (c_conv ty d)) (\<lambda>r.
      bindr (c_add ty r (if a < 0 then c_conv ty d else 0)) (\<lambda>v. mk ty v m)))"
  using assms unfolding mod_ops_def
  by (auto simp: idris2_mod_Int8_def idris2_mod_Int16_def idris2_mod_Int32_def
      idris2_mod_Int64_def Let_def)

lemma div_ops_signed: "(ty, f) \<in> set div_ops \<Longrightarrow> is_signed ty"
  and mod_ops_signed: "(ty, f) \<in> set mod_ops \<Longrightarrow> is_signed ty"
  by (auto simp: div_ops_def mod_ops_def)

lemma div_ops_result:
  assumes "(ty, f) \<in> set div_ops" "vp_to ty x m = Inr a" "vp_to ty y m = Inr b"
  shows "f x y m =
    (if b = 0 then Inl (Undefined Div_zero)
     else if div_overflows ty a b then Inl (Undefined Int_overflow)
     else mk ty (euclid_div a b) m)"
proof -
  have a: "in_range ty a" and sg: "is_signed ty"
    using assms div_ops_signed box.rd_range by blast+
  have "c_conv ty (a smod b) = a smod b" by (rule c_conv_self) (rule smod_in_range [OF a sg])
  with a sg show ?thesis
    by (simp add: div_ops_unfold [OF assms] c_mod_def c_div_def c_add_def c_fit_def
        quotient_fits euclid_div_correction)
qed



text \<open>What the remainder functions compute: they add the divisor for every negative dividend.\<close>

lemma abs_conv_cases:
  assumes "in_range ty b" "is_signed ty"
  shows "c_conv ty \<bar>b\<bar> = \<bar>b\<bar> \<and> in_range ty \<bar>b\<bar> \<or> b = c_min ty \<and> c_conv ty \<bar>b\<bar> = b"
proof (cases "b = c_min ty")
  case True
  have "c_conv ty (- c_min ty) = c_min ty"
    using assms(2) by (cases ty) (simp_all add: c_conv_def c_min_def)
  moreover have "\<bar>c_min ty\<bar> = - c_min ty" by (simp add: c_min_def)
  ultimately show ?thesis using True by simp
next
  case False
  then have "in_range ty \<bar>b\<bar>"
    using assms by (cases ty) (auto simp: in_range_code c_min_def)
  then show ?thesis by simp
qed

lemma c_conv_add_right: "c_conv ty (u + c_conv ty v) = c_conv ty (u + v)"
  using c_conv_mod_add [of ty "u" "c_conv ty v"] c_conv_mod_add [of ty u v] by simp

text \<open>What the remainder functions compute: they add the divisor for every negative dividend.\<close>

lemma mod_value:
  assumes r: "in_range ty a" "in_range ty b" and sg: "is_signed ty" and b: "b \<noteq> 0"
    and min: "\<not> (32 \<le> width ty \<and> b = c_min ty)"
  defines "d \<equiv> c_conv ty \<bar>b\<bar>"
  shows "c_mod ty a d = Inr (a smod b)"
    and "c_add ty (a smod b) (if a < 0 then d else 0) = Inr (a smod b + (if a < 0 then d else 0))"
    and "c_conv ty (a smod b + (if a < 0 then d else 0)) =
      c_conv ty (if a < 0 \<and> b dvd a then \<bar>b\<bar> else euclid_mod a b)"
proof -
  have d: "d = \<bar>b\<bar> \<and> in_range ty \<bar>b\<bar> \<or> width ty < 32 \<and> b = c_min ty \<and> d = b"
    using abs_conv_cases [OF r(2) sg] min by (auto simp: d_def)
  then have "\<bar>d\<bar> = \<bar>b\<bar>" "d \<noteq> 0" "\<not> div_overflows ty a d"
    using b by (auto simp: div_overflows_def)
  moreover from this have "a smod d = a smod b" by (simp add: smod_cases)
  ultimately show "c_mod ty a d = Inr (a smod b)"
    using r sg by (simp add: c_mod_def c_fit_def quotient_fits)
  have "in_range (c_promote ty) (a smod b + (if a < 0 then d else 0))"
  proof (cases "a < 0")
    case True
    then have "- \<bar>b\<bar> < a smod b" "a smod b \<le> 0" using b by (simp_all add: smod_cases)
    moreover have "in_range ty (a smod b)" "in_range ty d"
      using smod_in_range [OF r(1) sg] by (simp_all add: d_def)
    ultimately show ?thesis
      using d True sg by (cases ty) (auto simp: in_range_code c_promote_def c_min_def)
  qed (use smod_in_range [OF r(1) sg] in_range_promote in auto)
  then show "c_add ty (a smod b) (if a < 0 then d else 0) = Inr (a smod b + (if a < 0 then d else 0))"
    by (simp add: c_add_def)
  show "c_conv ty (a smod b + (if a < 0 then d else 0)) =
      c_conv ty (if a < 0 \<and> b dvd a then \<bar>b\<bar> else euclid_mod a b)"
    using euclid_mod_correction [OF b, of a] c_conv_add_right [of ty "a smod b" "\<bar>b\<bar>"]
    by (cases "a < 0") (simp_all add: d_def)
qed



section \<open>Integers of any size\<close>

text \<open>The interface the big-integer operations share: a new cell gets the result, nothing else
  changes.\<close>

lemma mkInteger_cases:
  assumes "rt_wf m"
  shows "idris2_mkInteger m =
    (if brk m < lim m
     then Inr (addr_of (brk m), alloc_obj \<lparr>refCounter = 1, tag = INTEGER_TAG, payload = Idris2_Integer 0\<rparr> m)
     else Inl Verify_failed)"
  using rt_wf_mem_wf [OF assms] by (simp add: idris2_mkInteger_def new_tagged_cases)

definition new_integer :: "int \<Rightarrow> mem \<Rightarrow> mem" where
  "new_integer i m = alloc_obj \<lparr>refCounter = 1, tag = INTEGER_TAG, payload = Idris2_Integer i\<rparr> m"

lemma get_integer_alloc:
  assumes "rt_wf m" "get_integer x m = Inr a"
  shows "get_integer x (alloc_obj v m) = Inr a"
proof -
  have "x \<noteq> addr_of (brk m)"
    using assms mem_wf_fresh(1) [OF rt_wf_mem_wf [OF assms(1)]]
    by (auto simp: get_integer_def res_simps)
  then show ?thesis using assms(2) by (simp add: get_integer_def)
qed

lemma new_integer_read:
  "rt_wf m \<Longrightarrow> get_integer (addr_of (brk m)) (new_integer i m) = Inr i"
  using mem_wf_fresh(3) [OF rt_wf_mem_wf] by (simp add: get_integer_def new_integer_def)

lemma set_integer_new:
  "rt_wf m \<Longrightarrow>
   set_integer (addr_of (brk m)) j
     (alloc_obj \<lparr>refCounter = 1, tag = INTEGER_TAG, payload = Idris2_Integer i\<rparr> m) =
   Inr (new_integer j m)"
  using mem_wf_fresh(3) [OF rt_wf_mem_wf]
  by (simp add: set_integer_def new_integer_def put_obj_def alloc_obj_def)

lemmas integer_steps = mkInteger_cases get_integer_alloc set_integer_new

lemma div_Integer_result:
  assumes "gmp_documented g" "rt_wf m" "get_integer x m = Inr a" "get_integer y m = Inr b"
  shows "idris2_div_Integer g x y m =
    (if b = 0 then Inl (Undefined Div_zero)
     else if brk m < lim m then Inr (addr_of (brk m), new_integer (euclid_div a b) m)
     else Inl Verify_failed)"
proof (cases "b = 0")
  case False
  have "a - a mod \<bar>b\<bar> = b * euclid_div a b"
    using False euclid_spec [of b a] by (simp add: euclid_mod_def)
  then have "b dvd a - a mod \<bar>b\<bar>" "(a - a mod \<bar>b\<bar>) div b = euclid_div a b"
    using False by simp_all
  then show ?thesis
    using False assms
    by (simp add: idris2_div_Integer_def integer_steps gmp_divisor_def gmp_documentedD [OF assms(1)])
qed (use assms in \<open>simp add: idris2_div_Integer_def gmp_divisor_def\<close>)

lemma mod_Integer_result:
  assumes "gmp_documented g" "rt_wf m" "get_integer x m = Inr a" "get_integer y m = Inr b" "b \<noteq> 0"
  shows "idris2_mod_Integer g x y m =
    (if brk m < lim m then Inr (addr_of (brk m), new_integer (euclid_mod a b) m)
     else Inl Verify_failed)"
  using assms by (simp add: idris2_mod_Integer_def integer_steps gmp_divisor_def
      gmp_documentedD [OF assms(1)] euclid_mod_def)

lemma rt_wf_new_integer: "rt_wf m \<Longrightarrow> brk m < lim m \<Longrightarrow> rt_wf (new_integer i m)"
  by (simp add: new_integer_def rt_wf_alloc_obj)

text \<open>C16. On big integers division followed by remainder gives the Euclidean pair: with memory for
  two results and a non-zero divisor both calls return, the quotient and the remainder reproduce the
  dividend, and the remainder lies between zero and the absolute value of the divisor. The operands
  are unchanged.\<close>

theorem div_mod_Integer_euclidean:
  assumes "gmp_documented g" "rt_wf m" "get_integer x m = Inr a" "get_integer y m = Inr b"
    and "b \<noteq> 0" "Suc (brk m) < lim m"
  shows "\<exists>p m1 q m2 d r. idris2_div_Integer g x y m = Inr (p, m1) \<and>
    idris2_mod_Integer g x y m1 = Inr (q, m2) \<and>
    get_integer p m2 = Inr d \<and> get_integer q m2 = Inr r \<and>
    a = b * d + r \<and> 0 \<le> r \<and> r < \<bar>b\<bar> \<and>
    get_integer x m2 = Inr a \<and> get_integer y m2 = Inr b \<and> rt_wf m2"
proof -
  let ?m1 = "new_integer (euclid_div a b) m" and ?m2 = "new_integer (euclid_mod a b)"
  have wf1: "rt_wf ?m1" using assms by (simp add: rt_wf_new_integer)
  have brk1: "brk ?m1 = Suc (brk m)" "lim ?m1 = lim m" by (simp_all add: new_integer_def)
  have keep: "get_integer x ?m1 = Inr a" "get_integer y ?m1 = Inr b"
    using assms by (simp_all add: new_integer_def get_integer_alloc)
  have "idris2_mod_Integer g x y ?m1 = Inr (addr_of (Suc (brk m)), ?m2 ?m1)"
    using mod_Integer_result [OF assms(1) wf1 keep assms(5)] assms(6) brk1 by simp
  moreover have "get_integer p (?m2 ?m1) = Inr i" if "get_integer p ?m1 = Inr i" for p i
    using get_integer_alloc [OF wf1 that] by (simp add: new_integer_def)
  moreover have "get_integer (addr_of (Suc (brk m))) (?m2 ?m1) = Inr (euclid_mod a b)"
    using new_integer_read [OF wf1] brk1 by simp
  moreover have "rt_wf (?m2 ?m1)"
    using wf1 assms(6) brk1 by (simp add: rt_wf_new_integer)
  ultimately show ?thesis
    using assms keep div_Integer_result [OF assms(1-4)] new_integer_read [OF assms(2)]
      euclid_spec [OF assms(5), of a] by auto
qed

definition example_ints :: mem where
  "example_ints = new_integer 3 (new_integer (- 7) (init_mem 1000))"

lemma example_ints_facts:
  "rt_wf example_ints" "brk example_ints = 322" "lim example_ints = 1000"
  "get_integer (addr_of 320) example_ints = Inr (- 7)"
  "get_integer (addr_of 321) example_ints = Inr 3"
proof -
  have b: "brk (init_mem 1000) = 320" "lim (init_mem 1000) = 1000"
    by (simp_all add: init_mem_def static_end_def)
  define m1 where "m1 = new_integer (- 7) (init_mem 1000)"
  have m1: "rt_wf m1" "brk m1 = 321" "lim m1 = 1000" "get_integer (addr_of 320) m1 = Inr (- 7)"
    using b new_integer_read [OF rt_wf_example] rt_wf_new_integer [OF rt_wf_example]
    by (simp_all add: m1_def new_integer_def)
  have e: "example_ints = new_integer 3 m1" by (simp add: example_ints_def m1_def)
  show "rt_wf example_ints" "brk example_ints = 322" "lim example_ints = 1000"
    "get_integer (addr_of 320) example_ints = Inr (- 7)"
    "get_integer (addr_of 321) example_ints = Inr 3"
    using m1 new_integer_read [OF m1(1)] rt_wf_new_integer [OF m1(1)] get_integer_alloc [OF m1(1)]
    unfolding e by (simp_all add: new_integer_def)
qed

theorem div_mod_Integer_euclidean_witness:
  "\<exists>p m1 q m2 d r. idris2_div_Integer gmp_ints (addr_of 320) (addr_of 321) example_ints = Inr (p, m1) \<and>
    idris2_mod_Integer gmp_ints (addr_of 320) (addr_of 321) m1 = Inr (q, m2) \<and>
    get_integer p m2 = Inr d \<and> get_integer q m2 = Inr r \<and>
    - 7 = 3 * d + r \<and> 0 \<le> r \<and> r < \<bar>3\<bar> \<and>
    get_integer (addr_of 320) m2 = Inr (- 7) \<and> get_integer (addr_of 321) m2 = Inr 3 \<and> rt_wf m2"
  by (rule div_mod_Integer_euclidean) (simp_all add: example_ints_facts gmp_ints_documented)

section \<open>Comparisons\<close>

definition cmp_ops :: "(ity \<times> (addr \<Rightarrow> addr \<Rightarrow> mem \<Rightarrow> addr res) \<times> (int \<Rightarrow> int \<Rightarrow> bool)) list" where
  "cmp_ops =
     [(Bits8, idris2_eq_Bits8, (=)), (Bits16, idris2_eq_Bits16, (=)),
      (Bits32, idris2_eq_Bits32, (=)), (Bits64, idris2_eq_Bits64, (=)),
      (Int8, idris2_eq_Int8, (=)), (Int16, idris2_eq_Int16, (=)),
      (Int32, idris2_eq_Int32, (=)), (Int64, idris2_eq_Int64, (=)),
      (Char, idris2_eq_Char, (=)), (Bits8, idris2_lt_Bits8, (<)),
      (Bits16, idris2_lt_Bits16, (<)), (Bits32, idris2_lt_Bits32, (<)),
      (Bits64, idris2_lt_Bits64, (<)), (Int8, idris2_lt_Int8, (<)),
      (Int16, idris2_lt_Int16, (<)), (Int32, idris2_lt_Int32, (<)),
      (Int64, idris2_lt_Int64, (<)), (Char, idris2_lt_Char, (<)),
      (Bits8, idris2_gt_Bits8, (>)), (Bits16, idris2_gt_Bits16, (>)),
      (Bits32, idris2_gt_Bits32, (>)), (Bits64, idris2_gt_Bits64, (>)),
      (Int8, idris2_gt_Int8, (>)), (Int16, idris2_gt_Int16, (>)),
      (Int32, idris2_gt_Int32, (>)), (Int64, idris2_gt_Int64, (>)),
      (Char, idris2_gt_Char, (>)), (Bits8, idris2_lte_Bits8, (\<le>)),
      (Bits16, idris2_lte_Bits16, (\<le>)), (Bits32, idris2_lte_Bits32, (\<le>)),
      (Bits64, idris2_lte_Bits64, (\<le>)), (Int8, idris2_lte_Int8, (\<le>)),
      (Int16, idris2_lte_Int16, (\<le>)), (Int32, idris2_lte_Int32, (\<le>)),
      (Int64, idris2_lte_Int64, (\<le>)), (Char, idris2_lte_Char, (\<le>)),
      (Bits8, idris2_gte_Bits8, (\<ge>)), (Bits16, idris2_gte_Bits16, (\<ge>)),
      (Bits32, idris2_gte_Bits32, (\<ge>)), (Bits64, idris2_gte_Bits64, (\<ge>)),
      (Int8, idris2_gte_Int8, (\<ge>)), (Int16, idris2_gte_Int16, (\<ge>)),
      (Int32, idris2_gte_Int32, (\<ge>)), (Int64, idris2_gte_Int64, (\<ge>)),
      (Char, idris2_gte_Char, (\<ge>))]"

lemmas cmp_defs = idris2_eq_Bits8_def idris2_eq_Bits16_def idris2_eq_Bits32_def
  idris2_eq_Bits64_def idris2_eq_Int8_def idris2_eq_Int16_def
  idris2_eq_Int32_def idris2_eq_Int64_def idris2_eq_Char_def
  idris2_lt_Bits8_def idris2_lt_Bits16_def idris2_lt_Bits32_def
  idris2_lt_Bits64_def idris2_lt_Int8_def idris2_lt_Int16_def
  idris2_lt_Int32_def idris2_lt_Int64_def idris2_lt_Char_def
  idris2_gt_Bits8_def idris2_gt_Bits16_def idris2_gt_Bits32_def
  idris2_gt_Bits64_def idris2_gt_Int8_def idris2_gt_Int16_def
  idris2_gt_Int32_def idris2_gt_Int64_def idris2_gt_Char_def
  idris2_lte_Bits8_def idris2_lte_Bits16_def idris2_lte_Bits32_def
  idris2_lte_Bits64_def idris2_lte_Int8_def idris2_lte_Int16_def
  idris2_lte_Int32_def idris2_lte_Int64_def idris2_lte_Char_def
  idris2_gte_Bits8_def idris2_gte_Bits16_def idris2_gte_Bits32_def
  idris2_gte_Bits64_def idris2_gte_Int8_def idris2_gte_Int16_def
  idris2_gte_Int32_def idris2_gte_Int64_def idris2_gte_Char_def

text \<open>The 45 comparison macros on fixed-width integers and characters decide the order of the
  numbers their operands read as, signed or unsigned as the type says, and return 0 or 1.\<close>

theorem comparison_correct:
  assumes "(ty, f, cmp) \<in> set cmp_ops" "vp_to ty l m = Inr a" "vp_to ty r m = Inr b"
  shows "\<exists>p. f l r m = Inr p \<and> idris2_vp_to_Bool p = (if cmp a b then 1 else 0)"
  using assms unfolding cmp_ops_def
  by (auto simp: cmp_defs idris2_cmpop_def c_bool_def in_range_code)

theorem comparison_correct_witness:
  "\<exists>p. idris2_lt_Int8 (idris2_mkInt8 200) (idris2_mkInt8 1) (init_mem 1000) = Inr p \<and>
     idris2_vp_to_Bool p = (if c_conv Int8 200 < 1 then 1 else 0)"
  using comparison_correct [of Int8 idris2_lt_Int8 "(<)" "idris2_mkInt8 200" "init_mem 1000" "c_conv Int8 200"
      "idris2_mkInt8 1" 1]
  by (simp add: cmp_ops_def in_range_code)

lemma until_nul_no_zero: "until_nul bs = Inr s \<Longrightarrow> 0 \<notin> set s"
  by (induction bs arbitrary: s rule: until_nul.induct) (auto simp: res_simps split: if_splits)

lemma string_of_no_zero: "string_of p m = Inr s \<Longrightarrow> 0 \<notin> set s"
  using until_nul_no_zero by (auto simp: string_of_def c_string_def res_simps split: if_splits)

text \<open>On strings without zero bytes the sign of \<open>strcmp\<close> is the lexicographic order of the bytes.\<close>

lemma c_strcmp_lexordp:
  "0 \<notin> set a \<Longrightarrow> 0 \<notin> set b \<Longrightarrow>
   (c_strcmp a b < 0 \<longleftrightarrow> ord_class.lexordp a b) \<and> (c_strcmp a b = 0 \<longleftrightarrow> a = b) \<and>
   (c_strcmp a b > 0 \<longleftrightarrow> ord_class.lexordp b a)"
proof (induction a b rule: c_strcmp.induct)
  case (4 a as b bs)
  then show ?case
    by (auto simp: word_less_def word_uint_eq_iff)
qed (auto simp: word_neq_0_conv word_less_def)

definition string_cmp_ops ::
  "((addr \<Rightarrow> addr \<Rightarrow> mem \<Rightarrow> addr res) \<times> (byte list \<Rightarrow> byte list \<Rightarrow> bool)) list" where
  "string_cmp_ops =
     [(idris2_eq_string, (=)), (idris2_lt_string, ord_class.lexordp),
      (idris2_gt_string, \<lambda>a b. ord_class.lexordp b a),
      (idris2_lte_string, \<lambda>a b. \<not> ord_class.lexordp b a),
      (idris2_gte_string, \<lambda>a b. \<not> ord_class.lexordp a b)]"

text \<open>The string comparisons decide equality and the lexicographic order of the byte strings
  (bytes compared unsigned).\<close>

theorem string_comparison_correct:
  assumes "(f, cmp) \<in> set string_cmp_ops" "string_of l m = Inr a" "string_of r m = Inr b"
  shows "\<exists>p. f l r m = Inr p \<and> idris2_vp_to_Bool p = (if cmp a b then 1 else 0)"
  using assms c_strcmp_lexordp [OF string_of_no_zero [OF assms(2)] string_of_no_zero [OF assms(3)]]
  unfolding string_cmp_ops_def
  by (auto simp: idris2_eq_string_def idris2_lt_string_def idris2_gt_string_def
      idris2_lte_string_def idris2_gte_string_def c_bool_def in_range_code not_less [symmetric])

theorem string_comparison_correct_witness:
  "\<exists>p. idris2_lt_string (addr_of 303) (addr_of 305) (init_mem 1000) = Inr p \<and>
     idris2_vp_to_Bool p =
       (if ord_class.lexordp [0x4C, 0x69, 0x6E, 0x75, 0x78] ([0x72, 0x65, 0x66, 0x63] :: byte list) then 1 else 0)"
  by (rule string_comparison_correct)
    (simp_all add: string_cmp_ops_def string_of_def get_str_def get_obj_def init_mem_def unat_addr_of
      static_obj_def static_blk_def IDRIS2_STOCKVAL_def c_string_def get_bytes_def addr_of_nonzero)

end
