(* ===== verification/Bits_Correct.thy ===== *)
theory Bits_Correct
  imports Math_Correct
begin

text \<open>
  Shifts, bitwise operations and the unsigned division of \<open>refc/mathFunctions.h\<close> (48 macros), the negations, and the
  operations on big integers of \<open>refc/mathFunctions.c\<close>.
\<close>

section \<open>Fixed-width types\<close>

datatype bop = Shl | Shr | And | Or | Xor | Quo | Rem

primrec bop_c :: "bop \<Rightarrow> ity \<Rightarrow> int \<Rightarrow> int \<Rightarrow> int res" where
  "bop_c Shl = c_shl"
| "bop_c Shr = c_shr"
| "bop_c And = c_and"
| "bop_c Or = c_or"
| "bop_c Xor = c_xor"
| "bop_c Quo = c_div"
| "bop_c Rem = c_mod"

text \<open>The number an operation stands for, and when it has no defined result.\<close>

primrec bop_value :: "bop \<Rightarrow> int \<Rightarrow> int \<Rightarrow> int" where
  "bop_value Shl a b = a * 2 ^ nat b"
| "bop_value Shr a b = a div 2 ^ nat b"
| "bop_value And a b = a AND b"
| "bop_value Or a b = a OR b"
| "bop_value Xor a b = a XOR b"
| "bop_value Quo a b = a div b"
| "bop_value Rem a b = a mod b"

primrec bop_ub :: "bop \<Rightarrow> ity \<Rightarrow> int \<Rightarrow> int \<Rightarrow> ub option" where
  "bop_ub Shl ty a b =
     (if b < 0 \<or> int (width (c_promote ty)) \<le> b \<or> a < 0 then Some Bad_shift
      else if is_signed (c_promote ty) \<and> \<not> in_range (c_promote ty) (a * 2 ^ nat b) then Some Int_overflow
      else None)"
| "bop_ub Shr ty a b = (if b < 0 \<or> int (width (c_promote ty)) \<le> b then Some Bad_shift else None)"
| "bop_ub And ty a b = None"
| "bop_ub Or ty a b = None"
| "bop_ub Xor ty a b = None"
| "bop_ub Quo ty a b = (if b = 0 then Some Div_zero else None)"
| "bop_ub Rem ty a b = (if b = 0 then Some Div_zero else None)"

definition bit_ops :: "(ity \<times> (addr \<Rightarrow> addr \<Rightarrow> mem \<Rightarrow> (addr \<times> mem) res) \<times> bop) list" where
  "bit_ops =
     [(Bits8, idris2_shiftl_Bits8, Shl), (Bits16, idris2_shiftl_Bits16, Shl),
      (Bits32, idris2_shiftl_Bits32, Shl), (Bits64, idris2_shiftl_Bits64, Shl),
      (Int8, idris2_shiftl_Int8, Shl), (Int16, idris2_shiftl_Int16, Shl),
      (Int32, idris2_shiftl_Int32, Shl), (Int64, idris2_shiftl_Int64, Shl),
      (Bits8, idris2_shiftr_Bits8, Shr), (Bits16, idris2_shiftr_Bits16, Shr),
      (Bits32, idris2_shiftr_Bits32, Shr), (Bits64, idris2_shiftr_Bits64, Shr),
      (Int8, idris2_shiftr_Int8, Shr), (Int16, idris2_shiftr_Int16, Shr),
      (Int32, idris2_shiftr_Int32, Shr), (Int64, idris2_shiftr_Int64, Shr),
      (Bits8, idris2_and_Bits8, And), (Bits16, idris2_and_Bits16, And),
      (Bits32, idris2_and_Bits32, And), (Bits64, idris2_and_Bits64, And),
      (Int8, idris2_and_Int8, And), (Int16, idris2_and_Int16, And),
      (Int32, idris2_and_Int32, And), (Int64, idris2_and_Int64, And),
      (Bits8, idris2_or_Bits8, Or), (Bits16, idris2_or_Bits16, Or),
      (Bits32, idris2_or_Bits32, Or), (Bits64, idris2_or_Bits64, Or),
      (Int8, idris2_or_Int8, Or), (Int16, idris2_or_Int16, Or),
      (Int32, idris2_or_Int32, Or), (Int64, idris2_or_Int64, Or),
      (Bits8, idris2_xor_Bits8, Xor), (Bits16, idris2_xor_Bits16, Xor),
      (Bits32, idris2_xor_Bits32, Xor), (Bits64, idris2_xor_Bits64, Xor),
      (Int8, idris2_xor_Int8, Xor), (Int16, idris2_xor_Int16, Xor),
      (Int32, idris2_xor_Int32, Xor), (Int64, idris2_xor_Int64, Xor),
      (Bits8, idris2_div_Bits8, Quo), (Bits16, idris2_div_Bits16, Quo),
      (Bits32, idris2_div_Bits32, Quo), (Bits64, idris2_div_Bits64, Quo),
      (Bits8, idris2_mod_Bits8, Rem), (Bits16, idris2_mod_Bits16, Rem),
      (Bits32, idris2_mod_Bits32, Rem), (Bits64, idris2_mod_Bits64, Rem)]"

lemmas shift_defs = idris2_shiftl_Bits8_def idris2_shiftl_Bits16_def idris2_shiftl_Bits32_def idris2_shiftl_Bits64_def
  idris2_shiftl_Int8_def idris2_shiftl_Int16_def idris2_shiftl_Int32_def idris2_shiftl_Int64_def
  idris2_shiftr_Bits8_def idris2_shiftr_Bits16_def idris2_shiftr_Bits32_def idris2_shiftr_Bits64_def
  idris2_shiftr_Int8_def idris2_shiftr_Int16_def idris2_shiftr_Int32_def idris2_shiftr_Int64_def
lemmas bitwise_defs = idris2_and_Bits8_def idris2_and_Bits16_def idris2_and_Bits32_def idris2_and_Bits64_def
  idris2_and_Int8_def idris2_and_Int16_def idris2_and_Int32_def idris2_and_Int64_def
  idris2_or_Bits8_def idris2_or_Bits16_def idris2_or_Bits32_def idris2_or_Bits64_def
  idris2_or_Int8_def idris2_or_Int16_def idris2_or_Int32_def idris2_or_Int64_def
  idris2_xor_Bits8_def idris2_xor_Bits16_def idris2_xor_Bits32_def idris2_xor_Bits64_def
  idris2_xor_Int8_def idris2_xor_Int16_def idris2_xor_Int32_def idris2_xor_Int64_def
lemmas unsigned_div_defs = idris2_div_Bits8_def idris2_div_Bits16_def idris2_div_Bits32_def idris2_div_Bits64_def
  idris2_mod_Bits8_def idris2_mod_Bits16_def idris2_mod_Bits32_def idris2_mod_Bits64_def

text \<open>Division is listed at the unsigned types only.\<close>

definition divides_at :: "bop \<Rightarrow> ity \<Rightarrow> bool" where
  "divides_at op ty \<longleftrightarrow> (op = Quo \<or> op = Rem \<longrightarrow> \<not> is_signed ty)"

lemma bit_ops_binop:
  assumes "(ty, f, op) \<in> set bit_ops"
  shows "f l r m = idris2_binop ty (bop_c op) l r m" "divides_at op ty"
  using assms unfolding bit_ops_def divides_at_def
  by (auto simp: shift_defs bitwise_defs unsigned_div_defs)

lemma c_conv_bitwise:
  "c_conv ty (a AND b) = c_conv ty a AND c_conv ty b"
  "c_conv ty (a OR b) = c_conv ty a OR c_conv ty b"
  "c_conv ty (a XOR b) = c_conv ty a XOR c_conv ty b"
  by (rule bit_eqI; auto simp: c_conv_def bit_simps)+

lemma div_power_in_range: "in_range ty a \<Longrightarrow> in_range ty (a div 2 ^ n)"
proof -
  assume a: "in_range ty a"
  have "a div 2 ^ n \<le> (if 0 \<le> a then a else -1)" "(if 0 \<le> a then 0 else a) \<le> a div 2 ^ n"
    using zdiv_mono2 [of a 1 "2 ^ n"] zdiv_mono2_neg [of a 1 "2 ^ n"] div_neg_pos_less0 [of a "2 ^ n"]
    by (auto simp: pos_imp_zdiv_nonneg_iff not_le)
  moreover have "c_min ty \<le> 0" "-1 \<le> c_max ty" by (cases ty; simp add: c_min_def c_max_def)+
  ultimately show ?thesis using a by (auto simp: in_range_def split: if_splits)
qed

lemma bop_in_range:
  assumes "in_range ty a" "in_range ty b" "divides_at op ty" "bop_ub op ty a b = None" "op \<noteq> Shl"
  shows "in_range ty (bop_value op a b)"
proof (cases op)
  case Quo
  then have "0 \<le> a" "0 < b" using assms by (auto simp: divides_at_def in_range_def c_min_def split: if_splits)
  then have "0 \<le> a div b" "a div b \<le> a" using zdiv_mono2 [of a 1 b] by (simp_all add: pos_imp_zdiv_nonneg_iff)
  then show ?thesis using Quo assms(1,3) by (auto simp: divides_at_def in_range_def c_min_def)
next
  case Rem
  then have "0 < b" using assms by (auto simp: divides_at_def in_range_def c_min_def split: if_splits)
  then have "0 \<le> a mod b" "a mod b < b" by simp_all
  then show ?thesis using Rem assms(2,3) by (auto simp: divides_at_def in_range_def c_min_def)
next
  case Shr
  then show ?thesis using assms(1) by (simp add: div_power_in_range)
qed (use assms in \<open>auto simp: c_conv_bitwise simp flip: c_conv_eq_self_iff\<close>)

text \<open>The C operator and the number it stands for.\<close>

lemma bop_c_result:
  assumes "in_range ty a" "in_range ty b" "divides_at op ty"
  shows "case bop_ub op ty a b of
      Some u \<Rightarrow> bop_c op ty a b = Inl (Undefined u)
    | None \<Rightarrow> \<exists>c. bop_c op ty a b = Inr c \<and> c_conv ty c = c_conv ty (bop_value op a b)"
proof (cases "bop_ub op ty a b")
  case (Some u)
  then show ?thesis using assms(3)
    by (cases op) (auto simp: c_shl_def c_shr_def c_div_def c_mod_def c_fit_eq_Inl split: if_splits)
next
  case None
  have fit: "c_fit (c_promote ty) v = Inr (c_conv (c_promote ty) v)"
    if "\<not> is_signed (c_promote ty) \<or> in_range (c_promote ty) v" for v
    using that by (auto simp: c_fit_def)
  have pos: "0 \<le> a" "0 < b" if "op = Quo \<or> op = Rem"
    using that None assms by (auto simp: divides_at_def in_range_def c_min_def split: if_splits)
  have "in_range (c_promote ty) (a div b)" if "op = Quo \<or> op = Rem"
    using bop_in_range [OF assms(1,2), of Quo] pos [OF that] assms(3) that
    by (cases ty) (auto simp: divides_at_def c_promote_def in_range_code)
  then show ?thesis using None pos fit
    by (cases op) (auto simp: c_int sdiv_cases smod_cases c_promote_width split: if_splits)
qed

text \<open>C27. Shifts, bitwise operations and unsigned division and remainder of every fixed-width type (48 macros): on
  readable operands the call either returns a value that reads back as the number the operation stands for,
  reduced to the type by a left shift and unreduced by all others, in a well-formed memory where every
  readable value of the type still reads the same; or it faults. It faults for want of memory, or exactly when
  C leaves the operation undefined: a shift count that is negative or not below the width of the promoted type, a
  left shift of a negative number or one that overflows the promoted signed type, a division by zero.\<close>

theorem bit_ops_correct:
  assumes "(ty, f, op) \<in> set bit_ops" "rt_wf m" "vp_to ty l m = Inr a" "vp_to ty r m = Inr b"
  shows "case f l r m of
      Inr (p, m') \<Rightarrow> bop_ub op ty a b = None \<and> vp_to ty p m' = Inr (c_conv ty (bop_value op a b)) \<and>
        (op = Shl \<or> c_conv ty (bop_value op a b) = bop_value op a b) \<and> rt_wf m' \<and>
        (\<forall>q c. vp_to ty q m = Inr c \<longrightarrow> vp_to ty q m' = Inr c)
    | Inl e \<Rightarrow> (case bop_ub op ty a b of Some u \<Rightarrow> e = Undefined u | None \<Rightarrow> e = Verify_failed \<and> \<not> brk m < lim m)"
proof -
  note range = box.rd_range [OF assms(3)] box.rd_range [OF assms(4)]
  have run: "f l r m = bindr (bop_c op ty a b) (\<lambda>c. mk ty c m)"
    using assms(3,4) by (simp add: bit_ops_binop(1) [OF assms(1)] binop_unfold)
  note result = bop_c_result [OF range bit_ops_binop(2) [OF assms(1)]]
  show ?thesis
  proof (cases "bop_ub op ty a b")
    case (Some u)
    then show ?thesis using run result by simp
  next
    case None
    then obtain c where c: "bop_c op ty a b = Inr c" "c_conv ty c = c_conv ty (bop_value op a b)"
      using result by auto
    moreover have "op = Shl \<or> c_conv ty (bop_value op a b) = bop_value op a b"
      using bop_in_range [OF range bit_ops_binop(2) [OF assms(1)] None] by (auto simp: c_conv_eq_self_iff)
    ultimately show ?thesis
      using run None box.make_rd [OF assms(2), of ty c] box.make_wf [OF assms(2), of ty c] box.make_frame [OF assms(2), of ty c]
        box.make_fault [OF assms(2), of ty c]
      by (auto split: sum.split)
  qed
qed

theorem bit_ops_correct_witness:
  "(case idris2_shiftl_Bits8 (idris2_mkBits8 200) (idris2_mkBits8 3) (init_mem 1000) of
      Inr (p, m') \<Rightarrow> bop_ub Shl Bits8 200 3 = None \<and> vp_to Bits8 p m' = Inr (c_conv Bits8 (bop_value Shl 200 3)) \<and>
        (Shl = Shl \<or> c_conv Bits8 (bop_value Shl 200 3) = bop_value Shl 200 3) \<and> rt_wf m' \<and>
        (\<forall>q c. vp_to Bits8 q (init_mem 1000) = Inr c \<longrightarrow> vp_to Bits8 q m' = Inr c)
    | Inl e \<Rightarrow> (case bop_ub Shl Bits8 200 3 of Some u \<Rightarrow> e = Undefined u
        | None \<Rightarrow> e = Verify_failed \<and> \<not> brk (init_mem 1000) < lim (init_mem 1000)))"
  by (rule bit_ops_correct) (simp_all add: bit_ops_def rt_wf_example in_range_code)

text \<open>Negation of the signed types wraps around, except at the least \<open>Int32\<close> and \<open>Int64\<close>, where it is undefined.\<close>

definition negate_ops :: "(ity \<times> (addr \<Rightarrow> mem \<Rightarrow> (addr \<times> mem) res)) list" where
  "negate_ops = [(Int8, idris2_negate_Int8), (Int16, idris2_negate_Int16), (Int32, idris2_negate_Int32), (Int64, idris2_negate_Int64)]"

lemma negate_correct:
  assumes "(ty, f) \<in> set negate_ops" "rt_wf m" "vp_to ty x m = Inr a"
  shows "case f x m of
      Inr (p, m') \<Rightarrow> vp_to ty p m' = Inr (c_conv ty (- a)) \<and> rt_wf m'
    | Inl e \<Rightarrow> e = Verify_failed \<and> \<not> brk m < lim m \<or>
        e = Undefined Int_overflow \<and> (ty = Int32 \<or> ty = Int64) \<and> a = c_min ty"
proof -
  have ty: "ty = Int8 \<or> ty = Int16 \<or> ty = Int32 \<or> ty = Int64" using assms(1) by (auto simp: negate_ops_def)
  have run: "f x m = bindr (c_fit (c_promote ty) (- a)) (\<lambda>b. mk ty b m)"
    using assms(1,3)
    by (auto simp: negate_ops_def idris2_negate_Int8_def idris2_negate_Int16_def idris2_negate_Int32_def idris2_negate_Int64_def c_neg_def)
  show ?thesis
  proof (cases "c_fit (c_promote ty) (- a)")
    case (Inl e)
    then have "f x m = Inl e" using run by simp
    then show ?thesis
      using Inl box.rd_range [OF assms(3)] ty by (auto simp: c_fit_eq_Inl c_promote_def in_range_code c_min_def)
  next
    case (Inr b)
    then show ?thesis
      using run c_fit_store [OF Inr] box.make_rd [OF assms(2), of ty b] box.make_wf [OF assms(2), of ty b] box.make_fault [OF assms(2), of ty b]
      by (auto split: sum.split)
  qed
qed

section \<open>Big integers\<close>

text \<open>The operations on \<open>Integer\<close> with the functions they stand for; a shift is by the absolute value of the count.\<close>

definition integer_ops :: "gmp \<Rightarrow> ((addr \<Rightarrow> addr \<Rightarrow> mem \<Rightarrow> (addr \<times> mem) res) \<times> (int \<Rightarrow> int \<Rightarrow> int)) list" where
  "integer_ops g =
     [(idris2_add_Integer g, (+)), (idris2_sub_Integer g, (-)), (idris2_mul_Integer g, (*)),
      (idris2_and_Integer g, (AND)), (idris2_or_Integer g, (OR)), (idris2_xor_Integer g, (XOR)),
      (idris2_shiftl_Integer g, \<lambda>a b. a * 2 ^ nat \<bar>b\<bar>), (idris2_shiftr_Integer g, \<lambda>a b. a div 2 ^ nat \<bar>b\<bar>)]"

lemmas integer_op_defs = idris2_add_Integer_def idris2_sub_Integer_def idris2_mul_Integer_def idris2_and_Integer_def
  idris2_or_Integer_def idris2_xor_Integer_def idris2_shiftl_Integer_def idris2_shiftr_Integer_def idris2_integer_op_def



lemma negate_Integer_correct:
  assumes "gmp_documented g" "rt_wf m" "get_integer x m = Inr a"
  shows "idris2_negate_Integer g x m =
    (if brk m < lim m then Inr (addr_of (brk m), new_integer (- a) m) else Inl Verify_failed)"
  using assms by (simp add: idris2_negate_Integer_def integer_steps gmp_documentedD [OF assms(1)])

text \<open>The comparisons use only the sign of \<open>mpz_cmp\<close>, and decide the order.\<close>

lemma compare_Integer_correct:
  assumes "gmp_documented g" "get_integer x m = Inr a" "get_integer y m = Inr b"
  shows "idris2_eq_Integer g x y m = Inr (idris2_mkBool (c_bool (a = b)))"
    "idris2_lt_Integer g x y m = Inr (idris2_mkBool (c_bool (a < b)))"
    "idris2_gt_Integer g x y m = Inr (idris2_mkBool (c_bool (a > b)))"
    "idris2_lte_Integer g x y m = Inr (idris2_mkBool (c_bool (a \<le> b)))"
    "idris2_gte_Integer g x y m = Inr (idris2_mkBool (c_bool (a \<ge> b)))"
proof -
  have "sgn (mpz_cmp g a b) = sgn (a - b)" using gmp_documentedD(13) [OF assms(1)] .
  then have "mpz_cmp g a b = 0 \<longleftrightarrow> a = b" "mpz_cmp g a b < 0 \<longleftrightarrow> a < b" "mpz_cmp g a b > 0 \<longleftrightarrow> a > b"
    "mpz_cmp g a b \<le> 0 \<longleftrightarrow> a \<le> b" "mpz_cmp g a b \<ge> 0 \<longleftrightarrow> a \<ge> b"
    by (auto simp: sgn_if split: if_splits)
  with assms(2,3) show "idris2_eq_Integer g x y m = Inr (idris2_mkBool (c_bool (a = b)))"
    "idris2_lt_Integer g x y m = Inr (idris2_mkBool (c_bool (a < b)))"
    "idris2_gt_Integer g x y m = Inr (idris2_mkBool (c_bool (a > b)))"
    "idris2_lte_Integer g x y m = Inr (idris2_mkBool (c_bool (a \<le> b)))"
    "idris2_gte_Integer g x y m = Inr (idris2_mkBool (c_bool (a \<ge> b)))"
    by (simp_all add: idris2_eq_Integer_def idris2_lt_Integer_def idris2_gt_Integer_def idris2_lte_Integer_def idris2_gte_Integer_def)
qed

end
