(* ===== verification/C_Strings.thy ===== *)
theory C_Strings
  imports Math_Correct
begin

text \<open>
  Strings: the parts of \<open><stdio.h>\<close> and \<open><stdlib.h>\<close> the casts use (decimal printing, \<open>atoi\<close>), and the
  lemmas on string objects that the casts, the string operations and the primitives share.

  A function that builds a value only adds objects and blocks to memory; \<open>extends\<close> says so, and every
  reader is stable under it.
\<close>

subsection \<open>Printing and parsing decimal numbers\<close>

fun dec_nat :: "nat \<Rightarrow> byte list" where
  "dec_nat n = (if n < 10 then [word_of_nat (48 + n)]
                else dec_nat (n div 10) @ [word_of_nat (48 + n mod 10)])"

declare dec_nat.simps [simp del]

text \<open>\<open>sprintf\<close> with \<open>%d\<close>, \<open>%u\<close> and their fixed-width variants.\<close>

definition c_decimal :: "int \<Rightarrow> byte list" where
  "c_decimal v = (if v < 0 then 0x2D # dec_nat (nat (- v)) else dec_nat (nat v))"

definition is_digit :: "byte \<Rightarrow> bool" where
  "is_digit b \<longleftrightarrow> 48 \<le> b \<and> b \<le> 57"

definition is_space :: "byte \<Rightarrow> bool" where
  "is_space b \<longleftrightarrow> b = 32 \<or> 9 \<le> b \<and> b \<le> 13"

definition dec_value :: "byte list \<Rightarrow> int" where
  "dec_value ds = foldl (\<lambda>acc d. 10 * acc + (uint d - 48)) 0 ds"

text \<open>\<open>atoi\<close>: white space, an optional sign, digits; a value that is no \<open>int\<close> is undefined behaviour.\<close>

definition c_atoi :: "byte list \<Rightarrow> int res" where
  "c_atoi s =
     (let t = dropWhile is_space s;
          neg = (t \<noteq> [] \<and> hd t = 0x2D);
          u = (if t \<noteq> [] \<and> (hd t = 0x2D \<or> hd t = 0x2B) then tl t else t);
          v = dec_value (takeWhile is_digit u);
          w = (if neg then - v else v)
      in if in_range Int32 w then Inr w else Inl (Undefined Int_overflow))"

lemma word_of_nat_digit: "n < 10 \<Longrightarrow> is_digit (word_of_nat (48 + n)) \<and> uint (word_of_nat (48 + n) :: byte) = 48 + int n"
proof -
  assume "n < 10"
  then have "unat (word_of_nat (48 + n) :: byte) = 48 + n"
    by (simp add: unsigned_of_nat take_bit_nat_eq_self del: of_nat_add)
  with \<open>n < 10\<close> show ?thesis
    by (simp add: is_digit_def word_le_nat_alt uint_nat del: of_nat_add)
qed

lemma dec_nat_digits: "\<forall>b\<in>set (dec_nat n). is_digit b"
proof (induction n rule: dec_nat.induct)
  case (1 n)
  then show ?case
    using word_of_nat_digit [of n] word_of_nat_digit [of "n mod 10"]
    by (subst dec_nat.simps) auto
qed

lemma dec_value_snoc: "dec_value (ds @ [d]) = 10 * dec_value ds + (uint d - 48)"
  by (simp add: dec_value_def)

lemma dec_value_dec_nat: "dec_value (dec_nat n) = int n"
proof (induction n rule: dec_nat.induct)
  case (1 n)
  show ?case
  proof (cases "n < 10")
    case True
    then show ?thesis
      using word_of_nat_digit [of n] by (subst dec_nat.simps) (simp add: dec_value_def del: of_nat_add)
  next
    case False
    then have "dec_value (dec_nat n) = 10 * int (n div 10) + int (n mod 10)"
      using word_of_nat_digit [of "n mod 10"] 1
      by (subst dec_nat.simps) (simp add: dec_value_snoc del: of_nat_add)
    also have "\<dots> = int n" by presburger
    finally show ?thesis .
  qed
qed

lemma dec_nat_nonempty: "dec_nat n \<noteq> []"
  by (subst dec_nat.simps) simp

lemma digit_not_other: "is_digit b \<Longrightarrow> b \<noteq> 0x2D \<and> b \<noteq> 0x2B \<and> \<not> is_space b \<and> b \<noteq> 0"
  by (auto simp: is_digit_def is_space_def word_le_nat_alt)

lemma takeWhile_digits: "takeWhile is_digit (dec_nat n) = dec_nat n"
  using dec_nat_digits by (simp add: takeWhile_eq_all_conv)

text \<open>Parsing what was printed gives the number back.\<close>

lemma c_atoi_decimal:
  "c_atoi (c_decimal v) = (if in_range Int32 v then Inr v else Inl (Undefined Int_overflow))"
proof (cases "v < 0")
  case True
  then have "dropWhile is_space (c_decimal v) = 0x2D # dec_nat (nat (- v))"
    by (simp add: c_decimal_def is_space_def word_le_nat_alt)
  with True show ?thesis
    by (simp add: c_atoi_def takeWhile_digits dec_value_dec_nat)
next
  case False
  have "is_digit (hd (dec_nat (nat v)))"
    using dec_nat_digits [of "nat v"] dec_nat_nonempty [of "nat v"] by simp
  moreover from this have "dropWhile is_space (dec_nat (nat v)) = dec_nat (nat v)"
    using digit_not_other by (cases "dec_nat (nat v)") auto
  ultimately show ?thesis
    using False digit_not_other [of "hd (dec_nat (nat v))"]
    by (simp add: c_atoi_def c_decimal_def takeWhile_digits dec_value_dec_nat)
qed

lemma dec_nat_length: "0 < k \<Longrightarrow> n < 10 ^ k \<Longrightarrow> length (dec_nat n) \<le> k"
proof (induction k arbitrary: n)
  case (Suc k)
  show ?case
  proof (cases "n < 10")
    case True
    then show ?thesis by (subst dec_nat.simps) simp
  next
    case False
    then have "0 < k" using Suc.prems(2) by (cases k) simp_all
    moreover have "n div 10 < 10 ^ k" using Suc.prems(2) by (simp add: less_mult_imp_div_less mult.commute)
    ultimately show ?thesis using False Suc.IH [of "n div 10"] by (subst dec_nat.simps) simp
  qed
qed simp

lemma c_decimal_length:
  assumes "in_range ty v"
  shows "length (c_decimal v) \<le> 21"
proof -
  have "nat v < 10 ^ 20 \<and> nat (- v) < 10 ^ 20"
    using assms by (cases ty) (auto simp: in_range_code nat_less_iff)
  then show ?thesis
    using dec_nat_length [of 20 "nat v"] dec_nat_length [of 20 "nat (- v)"] by (simp add: c_decimal_def)
qed

lemma c_decimal_no_zero: "0 \<notin> set (c_decimal v)"
  using dec_nat_digits [of "nat v"] dec_nat_digits [of "nat (- v)"] digit_not_other [of 0]
  by (auto simp: c_decimal_def)

subsection \<open>Writing bytes\<close>

definition c_store_bytes :: "addr \<Rightarrow> int \<Rightarrow> byte list \<Rightarrow> mem \<Rightarrow> mem res" where
  "c_store_bytes p off s m =
     bindr (get_bytes p m) (\<lambda>ds.
       if 0 \<le> off \<and> off + int (length s) \<le> int (length ds)
       then Inr (m\<lparr>blks := (blks m)(p \<mapsto>
              Bytes (take (nat off) ds @ map Some s @ drop (nat off + length s) ds))\<rparr>)
       else Inl (Undefined Out_of_bounds))"

text \<open>\<open>sprintf\<close> of a text: its characters and a terminating zero.\<close>

definition c_sprintf :: "addr \<Rightarrow> byte list \<Rightarrow> mem \<Rightarrow> mem res" where
  "c_sprintf p s m = c_store_bytes p 0 (s @ [0]) m"

subsection \<open>Growing memory\<close>

text \<open>\<open>m'\<close> has everything \<open>m\<close> has, unchanged.\<close>

definition extends :: "mem \<Rightarrow> mem \<Rightarrow> bool" where
  "extends m m' \<longleftrightarrow> objs m \<subseteq>\<^sub>m objs m' \<and> blks m \<subseteq>\<^sub>m blks m'"

lemma extends_refl [simp]: "extends m m"
  by (simp add: extends_def)

lemma extends_trans: "extends m m' \<Longrightarrow> extends m' m'' \<Longrightarrow> extends m m''"
  unfolding extends_def by (meson map_le_trans)

named_theorems stable \<open>readers whose result is unchanged when memory grows\<close>

lemma extends_get_obj [stable]: "extends m m' \<Longrightarrow> get_obj p m = Inr v \<Longrightarrow> get_obj p m' = Inr v"
  by (auto simp: extends_def res_simps map_le_def dom_def)

lemma get_bytes_eq_Inr [res_simps]: "get_bytes p m = Inr bs \<longleftrightarrow> p \<noteq> 0 \<and> blks m p = Some (Bytes bs)"
  by (auto simp: get_bytes_def split: option.splits blk.splits)

lemma get_ptrs_eq_Inr [res_simps]: "get_ptrs p m = Inr ps \<longleftrightarrow> p \<noteq> 0 \<and> blks m p = Some (Ptrs ps)"
  by (auto simp: get_ptrs_def split: option.splits blk.splits)

lemma extends_get_bytes [stable]: "extends m m' \<Longrightarrow> get_bytes p m = Inr bs \<Longrightarrow> get_bytes p m' = Inr bs"
  by (auto simp: extends_def res_simps map_le_def dom_def)

lemma extends_get_str [stable]: "extends m m' \<Longrightarrow> get_str p m = Inr s \<Longrightarrow> get_str p m' = Inr s"
  using extends_get_obj [of m m' p] by (auto simp: get_str_def bindr_eq_Inr)

lemma extends_get_integer [stable]: "extends m m' \<Longrightarrow> get_integer p m = Inr s \<Longrightarrow> get_integer p m' = Inr s"
  using extends_get_obj [of m m' p] by (auto simp: get_integer_def bindr_eq_Inr)

lemma extends_boxed_64 [stable]: "extends m m' \<Longrightarrow> boxed_64 p m = Inr s \<Longrightarrow> boxed_64 p m' = Inr s"
  using extends_get_obj [of m m' p] by (auto simp: boxed_64_def bindr_eq_Inr)

lemma extends_vp_to [stable]: "extends m m' \<Longrightarrow> vp_to ty p m = Inr a \<Longrightarrow> vp_to ty p m' = Inr a"
  using extends_boxed_64 [of m m' p]
  by (cases ty) (auto simp: idris2_vp_to_Int64_def idris2_vp_to_Bits64_def bindr_eq_Inr)

lemma extends_c_string [stable]: "extends m m' \<Longrightarrow> c_string p i m = Inr s \<Longrightarrow> c_string p i m' = Inr s"
  using extends_get_bytes [of m m' p] by (auto simp: c_string_def bindr_eq_Inr split: if_splits)

lemma extends_load_byte [stable]: "extends m m' \<Longrightarrow> load_byte p i m = Inr s \<Longrightarrow> load_byte p i m' = Inr s"
  using extends_get_bytes [of m m' p] by (auto simp: load_byte_def bindr_eq_Inr)

lemma extends_string_of [stable]: "extends m m' \<Longrightarrow> string_of p m = Inr s \<Longrightarrow> string_of p m' = Inr s"
  using extends_get_str [of m m' p] extends_c_string [of m m'] by (auto simp: string_of_def bindr_eq_Inr)

lemma extends_alloc_obj: "mem_wf m \<Longrightarrow> extends m (alloc_obj v m)"
  using mem_wf_fresh(1) [of m] by (auto simp: extends_def map_le_def)

lemma mk_extends: "rt_wf m \<Longrightarrow> mk ty v m = Inr (p, m') \<Longrightarrow> extends m m'"
  using mk_cases(2) [of m ty v p m'] extends_alloc_obj [OF rt_wf_mem_wf] by auto

subsection \<open>Blocks and string objects\<close>

definition alloc_blk :: "blk \<Rightarrow> mem \<Rightarrow> mem" where
  "alloc_blk b m = m\<lparr>blks := (blks m)(addr_of (brk m) \<mapsto> b), brk := Suc (brk m)\<rparr>"

lemma alloc_blk_sel [simp]:
  "objs (alloc_blk b m) = objs m"
  "blks (alloc_blk b m) = (blks m)(addr_of (brk m) \<mapsto> b)"
  "brk (alloc_blk b m) = Suc (brk m)"
  "lim (alloc_blk b m) = lim m"
  by (simp_all add: alloc_blk_def)

lemma c_malloc_cases:
  "n < 2 ^ 63 \<Longrightarrow> c_malloc n m =
    (if brk m < lim m then (addr_of (brk m), alloc_blk (Bytes (replicate n None)) m) else (0, m))"
  by (simp add: c_malloc_def can_alloc_def alloc_blk_def)

lemma mem_wf_alloc_blk:
  assumes "mem_wf m" "brk m < lim m"
  shows "mem_wf (alloc_blk b m)"
proof -
  have "addr_of ` {0<..<brk m} \<subseteq> addr_of ` {0<..<Suc (brk m)}"
    by (rule image_mono) auto
  moreover have "addr_of (brk m) \<in> addr_of ` {0<..<Suc (brk m)}"
    using assms(1) by (auto simp: mem_wf_def static_end_def)
  ultimately show ?thesis
    using assms mem_wf_fresh(1) [OF assms(1)] unfolding mem_wf_def by auto
qed

lemma rt_wf_alloc_blk:
  assumes "rt_wf m" "brk m < lim m"
  shows "rt_wf (alloc_blk b m)"
proof -
  have "statics_ok (alloc_blk b m)"
    using assms static_not_fresh [OF rt_wf_mem_wf [OF assms(1)]] static_blk_bounds
    unfolding rt_wf_def statics_ok_def by auto
  then show ?thesis
    using assms mem_wf_alloc_blk by (simp add: rt_wf_def)
qed

lemma extends_alloc_blk: "mem_wf m \<Longrightarrow> extends m (alloc_blk v m)"
  using mem_wf_fresh(2) [of m] by (auto simp: extends_def map_le_def)

text \<open>Memory with a new string object and its characters.\<close>

definition alloc_str :: "byte option list \<Rightarrow> mem \<Rightarrow> mem" where
  "alloc_str bs m =
     alloc_blk (Bytes bs)
       (alloc_obj \<lparr>refCounter = 1, tag = STRING_TAG, payload = Idris2_String (addr_of (Suc (brk m)))\<rparr> m)"

lemma alloc_str_sel [simp]: "brk (alloc_str bs m) = Suc (Suc (brk m))" "lim (alloc_str bs m) = lim m"
  by (simp_all add: alloc_str_def)

lemma rt_wf_alloc_str:
  assumes "rt_wf m" "Suc (brk m) < lim m"
  shows "rt_wf (alloc_str bs m)" "extends m (alloc_str bs m)"
proof -
  let ?m1 = "alloc_obj \<lparr>refCounter = 1, tag = STRING_TAG, payload = Idris2_String (addr_of (Suc (brk m)))\<rparr> m"
  have wf: "rt_wf ?m1" using assms by (simp add: rt_wf_alloc_obj)
  show "rt_wf (alloc_str bs m)" using wf assms(2) by (simp add: alloc_str_def rt_wf_alloc_blk)
  show "extends m (alloc_str bs m)"
    using extends_alloc_obj [OF rt_wf_mem_wf [OF assms(1)]] extends_alloc_blk [OF rt_wf_mem_wf [OF wf]]
    unfolding alloc_str_def by (rule extends_trans)
qed

lemma alloc_str_addrs:
  assumes "rt_wf m" "Suc (brk m) < lim m"
  shows "addr_of (brk m) \<noteq> 0" "addr_of (Suc (brk m)) \<noteq> 0" "addr_of (brk m) \<noteq> addr_of (Suc (brk m))"
proof -
  have "0 < brk m" "Suc (brk m) < 2 ^ 60"
    using rt_wf_mem_wf [OF assms(1)] assms(2) by (auto simp: mem_wf_def static_end_def)
  then show "addr_of (brk m) \<noteq> 0" "addr_of (Suc (brk m)) \<noteq> 0"
    "addr_of (brk m) \<noteq> addr_of (Suc (brk m))"
    using addr_of_nonzero [of "brk m"] addr_of_nonzero [of "Suc (brk m)"]
      addr_of_inj [of "brk m" "Suc (brk m)"] by simp_all
qed

lemma alloc_str_read:
  assumes "rt_wf m" "Suc (brk m) < lim m"
  shows "get_str (addr_of (brk m)) (alloc_str bs m) = Inr (addr_of (Suc (brk m)))"
    "get_bytes (addr_of (Suc (brk m))) (alloc_str bs m) = Inr bs"
  using alloc_str_addrs [OF assms] by (simp_all add: get_str_def alloc_str_def get_bytes_def)

lemma alloc_str_write:
  assumes "rt_wf m" "Suc (brk m) < lim m"
  shows "(alloc_str bs m)\<lparr>blks := (blks (alloc_str bs m))(addr_of (Suc (brk m)) \<mapsto> Bytes bs')\<rparr> = alloc_str bs' m"
  by (simp add: alloc_str_def alloc_blk_def alloc_obj_def)

lemma until_nul_map [simp]: "0 \<notin> set s \<Longrightarrow> until_nul (map Some s @ Some 0 # rest) = Inr s"
  by (induction s) auto

lemma alloc_str_string:
  assumes "rt_wf m" "Suc (brk m) < lim m" "0 \<notin> set s"
  shows "string_of (addr_of (brk m)) (alloc_str (map Some s @ Some 0 # rest) m) = Inr s"
  using assms by (simp add: string_of_def alloc_str_read c_string_def)

text \<open>Allocation of a string object on every branch. The result of the second \<open>malloc\<close> is not
  checked: when it fails, \<open>memset\<close> writes through a null pointer.\<close>

lemma set_payload_new:
  assumes "rt_wf m" "brk m < lim m"
  shows "set_payload (addr_of (brk m)) t pl
      (alloc_blk b (alloc_obj \<lparr>refCounter = 1, tag = t0, payload = pl0\<rparr> m)) =
    Inr (alloc_blk b (alloc_obj \<lparr>refCounter = 1, tag = t, payload = pl\<rparr> m))"
    "set_payload (addr_of (brk m)) t pl (alloc_obj \<lparr>refCounter = 1, tag = t0, payload = pl0\<rparr> m) =
    Inr (alloc_obj \<lparr>refCounter = 1, tag = t, payload = pl\<rparr> m)"
  using mem_wf_fresh(3) [OF rt_wf_mem_wf [OF assms(1)]]
  by (simp_all add: set_payload_def get_obj_def put_obj_def alloc_blk_def alloc_obj_def)

lemma mkEmptyString_cases:
  assumes "rt_wf m" "l \<noteq> 1" "l < 2 ^ 62"
  shows "idris2_mkEmptyString l m =
    (if Suc (brk m) < lim m then Inr (addr_of (brk m), alloc_str (replicate l (Some 0)) m)
     else if brk m < lim m then Inl (Undefined Null_deref)
     else Inl Verify_failed)"
proof -
  have wf: "mem_wf m" using assms(1) by (rule rt_wf_mem_wf)
  have "l < 2 ^ 63" using assms(3) by simp
  then show ?thesis
    using alloc_str_addrs [OF assms(1)] set_payload_new [OF assms(1)] assms(1,2)
    by (auto simp: idris2_mkEmptyString_def idris2_newValue_cases [OF wf] c_malloc_cases c_memset_def
        alloc_str_def get_bytes_def alloc_blk_def)
qed

text \<open>Copying the start of a block into a fresh string.\<close>

lemma memcpy_to_new_str:
  assumes "rt_wf m" "Suc (brk m) < lim m" "get_bytes q m = Inr ss" "0 \<le> soff" "0 \<le> doff"
    and "soff + int n \<le> int (length ss)" "doff + int n \<le> int (length bs)"
  shows "c_memcpy (addr_of (Suc (brk m))) doff q soff n (alloc_str bs m) =
    Inr (alloc_str (take (nat doff) bs @ take n (drop (nat soff) ss) @ drop (nat doff + n) bs) m)"
proof -
  have "get_bytes q (alloc_str bs m) = Inr ss"
    using extends_get_bytes [OF rt_wf_alloc_str(2) [OF assms(1,2)] assms(3)] .
  moreover have "addr_of (Suc (brk m)) \<noteq> q"
  proof -
    have "addr_of (brk (alloc_obj v m)) \<noteq> q" for v
      using mem_wf_fresh(2) [OF mem_wf_alloc_obj [OF rt_wf_mem_wf [OF assms(1)]], of v] assms(2,3)
      by (auto simp: get_bytes_eq_Inr)
    then show ?thesis by simp
  qed
  ultimately show ?thesis
    using assms by (simp add: c_memcpy_def alloc_str_read alloc_str_write)
qed

lemma until_nul_split:
  "until_nul bs = Inr s \<Longrightarrow> \<exists>rest. bs = map Some s @ Some 0 # rest"
  by (induction bs arbitrary: s rule: until_nul.induct) (auto simp: res_simps split: if_splits)

text \<open>The block behind a string object: its characters, a zero, and possibly more.\<close>

lemma string_ofE:
  assumes "string_of p m = Inr s"
  obtains q rest where "get_str p m = Inr q" "get_bytes q m = Inr (map Some s @ Some 0 # rest)"
    "c_strlen q 0 m = Inr (length s)" "0 \<notin> set s"
proof -
  obtain q where q: "get_str p m = Inr q" "c_string q 0 m = Inr s"
    using assms by (auto simp: string_of_def res_simps)
  then obtain bs where bs: "get_bytes q m = Inr bs" "until_nul bs = Inr s"
    by (auto simp: c_string_def bindr_eq_Inr)
  obtain rest where "bs = map Some s @ Some 0 # rest" using until_nul_split [OF bs(2)] by blast
  with q bs string_of_no_zero [OF assms] that show thesis by (simp add: c_strlen_def)
qed

lemma nullstring_empty:
  assumes "rt_wf m"
  shows "string_of idris2_predefined_nullstring m = Inr []"
proof -
  have "objs m (addr_of 301) = static_obj 301" "blks m (addr_of 302) = static_blk 302"
    using assms by (simp_all add: rt_wf_def statics_ok_def static_obj_def static_blk_def)
  moreover have "addr_of 301 \<noteq> 0" "addr_of 302 \<noteq> 0" by (simp_all add: addr_of_nonzero)
  ultimately show ?thesis
    by (simp add: string_of_def get_str_def get_obj_def idris2_predefined_nullstring_def static_obj_def
        IDRIS2_STOCKVAL_def nullstring_chars_def c_string_def get_bytes_def static_blk_def)
qed

end
