(* ===== verification/Runtime.thy ===== *)
theory Runtime
  imports Memory_Management
begin

text \<open>
  \<open>refc/runtime.c\<close>: closures, the trampoline and constructor reuse.

  The functions that closures point to are emitted by the compiler or come from the FFI: they are a
  parameter \<open>code\<close> that maps a function pointer and its arguments to an effect on memory. A function
  of up to 16 parameters receives them one by one; a function of more parameters receives the
  address of the closure whose \<open>args\<close> array it is given (\<open>FUNStar\<close>).

  The trampoline runs until it reaches a value that is not a saturated closure, which depends on
  \<open>code\<close>; it takes fuel.
\<close>

datatype call_args = Args "addr list" | Arg_array addr

type_synonym code = "addr \<Rightarrow> call_args \<Rightarrow> mem \<Rightarrow> (addr \<times> mem) res"

text \<open>What is printed on the standard error, and the \<open>exit\<close> that follows it.\<close>

definition idris2_missing_ffi :: "byte list \<times> fault" where
  "idris2_missing_ffi =
     (chars ''Foreign function declared, but not defined.'' @ [0x0A] @
      chars ''Cannot call missing FFI - aborting.'' @ [0x0A], Exit 1)"

definition get_closure :: "addr \<Rightarrow> mem \<Rightarrow> (addr \<times> 8 word \<times> 8 word \<times> addr option list) res" where
  "get_closure p m =
     bindr (get_obj p m) (\<lambda>v. case payload v of
         Idris2_Closure f arity filled args \<Rightarrow> Inr (f, arity, filled, args)
       | _ \<Rightarrow> Inl (Undefined Bad_type))"

text \<open>The flexible \<open>args[]\<close> member of a closure or constructor.\<close>

definition get_args :: "addr \<Rightarrow> mem \<Rightarrow> addr option list res" where
  "get_args p m =
     bindr (get_obj p m) (\<lambda>v. case payload v of
         Idris2_Closure f arity filled args \<Rightarrow> Inr args
       | Idris2_Constructor tot tg name args \<Rightarrow> Inr args
       | _ \<Rightarrow> Inl (Undefined Bad_type))"

definition get_arg :: "addr \<Rightarrow> int \<Rightarrow> mem \<Rightarrow> addr res" where
  "get_arg p i m = bindr (get_args p m) (\<lambda>args. nth_res args i)"

definition set_args :: "addr \<Rightarrow> addr option list \<Rightarrow> mem \<Rightarrow> mem res" where
  "set_args p args' m =
     bindr (get_obj p m) (\<lambda>v. case payload v of
         Idris2_Closure f arity filled args \<Rightarrow>
           Inr (put_obj p (v\<lparr>payload := Idris2_Closure f arity filled args'\<rparr>) m)
       | Idris2_Constructor tot tg name args \<Rightarrow>
           Inr (put_obj p (v\<lparr>payload := Idris2_Constructor tot tg name args'\<rparr>) m)
       | _ \<Rightarrow> Inl (Undefined Bad_type))"

definition set_arg :: "addr \<Rightarrow> int \<Rightarrow> addr \<Rightarrow> mem \<Rightarrow> mem res" where
  "set_arg p i x m =
     bindr (get_args p m) (\<lambda>args. bindr (upd_res args i x) (\<lambda>args'. set_args p args' m))"

text \<open>The first \<open>n\<close> arguments, read in order.\<close>

primrec read_args :: "nat \<Rightarrow> addr option list \<Rightarrow> addr list res" where
  "read_args 0 args = Inr []"
| "read_args (Suc n) args =
     bindr (read_args n args) (\<lambda>xs. bindr (nth_res args (int n)) (\<lambda>x. Inr (xs @ [x])))"

definition idris2_dispatch_closure :: "code \<Rightarrow> addr \<Rightarrow> mem \<Rightarrow> (addr \<times> mem) res" where
  "idris2_dispatch_closure code clo m =
     bindr (get_closure clo m) (\<lambda>(f, arity, filled, args).
       if unat arity \<le> 16
       then bindr (read_args (unat arity) args) (\<lambda>xs. code f (Args xs) m)
       else code f (Arg_array clo) m)"

definition idris2_isUnique :: "addr \<Rightarrow> mem \<Rightarrow> bool res" where
  "idris2_isUnique x m = bindr (get_obj x m) (\<lambda>v. Inr (refCounter v = 1))"

text \<open>\<open>if (idris2_isUnique(clos)) free(clos); else --clos->header.refCounter;\<close>\<close>

definition drop_closure :: "addr \<Rightarrow> mem \<Rightarrow> mem res" where
  "drop_closure clos m =
     bindr (idris2_isUnique clos m) (\<lambda>u.
       if u then c_free clos m
       else bindr (get_obj clos m) (\<lambda>v. Inr (put_obj clos (v\<lparr>refCounter := refCounter v - 1\<rparr>) m)))"

primrec idris2_trampoline :: "nat \<Rightarrow> code \<Rightarrow> addr \<Rightarrow> mem \<Rightarrow> (addr \<times> mem) res" where
  "idris2_trampoline 0 code it m = Inl Out_of_fuel"
| "idris2_trampoline (Suc fuel) code it m =
     (if it \<noteq> 0 \<and> \<not> idris2_vp_is_unboxed it
      then bindr (get_obj it m) (\<lambda>v.
        if tag v = CLOSURE_TAG
        then bindr (get_closure it m) (\<lambda>(f, arity, filled, args).
          if filled < arity then Inr (it, m)
          else bindr (idris2_dispatch_closure code it m) (\<lambda>(it', m1).
               bindr (drop_closure it m1) (\<lambda>m2. idris2_trampoline fuel code it' m2)))
        else Inr (it, m))
      else Inr (it, m))"

text \<open>\<open>filled + 1\<close> is passed as an \<open>uint8_t\<close>, so it wraps at 256 (word addition).\<close>

definition idris2_tailcall_apply_closure :: "addr \<Rightarrow> addr \<Rightarrow> mem \<Rightarrow> (addr \<times> mem) res" where
  "idris2_tailcall_apply_closure clos arg m =
     bindr (get_closure clos m) (\<lambda>(f, arity, filled, args).
     bindr (idris2_mkClosure f arity (filled + 1) m) (\<lambda>(newclos, m1).
     bindr (get_obj clos m1) (\<lambda>v.
     bindr (if refCounter v \<le> 1
            then bindr (get_args newclos m1) (\<lambda>new.
                   if unat filled \<le> length args \<and> unat filled \<le> length new
                   then set_args newclos (take (unat filled) args @ drop (unat filled) new) m1
                   else Inl (Undefined Out_of_bounds))
            else eachr (\<lambda>i m. bindr (get_arg clos (int i) m) (\<lambda>a.
                               bindr (idris2_newReference a m) (\<lambda>(a', m').
                               set_arg newclos (int i) a' m'))) [0..<unat filled] m1) (\<lambda>m2.
     bindr (set_arg newclos (uint filled) arg m2) (\<lambda>m3.
     bindr (drop_closure clos m3) (\<lambda>m4. Inr (newclos, m4)))))))"

definition idris2_apply_closure :: "nat \<Rightarrow> code \<Rightarrow> addr \<Rightarrow> addr \<Rightarrow> mem \<Rightarrow> (addr \<times> mem) res" where
  "idris2_apply_closure fuel code clos arg m =
     bindr (idris2_tailcall_apply_closure clos arg m) (\<lambda>(p, m1). idris2_trampoline fuel code p m1)"

definition idris2_removeReuseConstructor :: "addr \<Rightarrow> mem \<Rightarrow> mem res" where
  "idris2_removeReuseConstructor constr m =
     (if constr = 0 then Inr m
      else bindr (get_obj constr m) (\<lambda>v.
           bindr (checkr (refCounter v > 0)) (\<lambda>_.
           let v1 = v\<lparr>refCounter := refCounter v - 1\<rparr>; m1 = put_obj constr v1 m
           in if refCounter v1 = 0 then c_free constr m1 else Inr m1)))"

end
