(* ===== verification/String_Ops.thy ===== *)
theory String_Ops
  imports C_Strings Runtime
begin

text \<open>
  \<open>refc/stringOps.c\<close> and \<open>refc/stringOps.h\<close>: operations on strings, conversion between strings and
  lists of characters, and string iterators.

  An \<open>int\<close> variable that receives \<open>strlen\<close> is the conversion of the length to \<open>Int32\<close>. A \<open>char *\<close>
  argument is a block (offset 0). Plain \<open>char\<close> is signed, so a byte widened to \<open>int\<close> is \<open>sint\<close>. A list
  is a chain of \<open>Idris2_Constructor\<close> cells ending in a null pointer; the loops over one take fuel, one
  unit per cell. A \<open>String_Iterator\<close> struct (16 bytes) is a block of two words, the pointer \<open>str\<close> and
  the position \<open>pos\<close>.
\<close>

definition int_strlen :: "addr \<Rightarrow> mem \<Rightarrow> int res" where
  "int_strlen s m = bindr (c_strlen s 0 m) (\<lambda>n. Inr (c_conv Int32 (int n)))"

definition stringLength :: "addr \<Rightarrow> mem \<Rightarrow> (addr \<times> mem) res" where
  "stringLength x m =
     bindr (get_str x m) (\<lambda>s. bindr (c_strlen s 0 m) (\<lambda>n. idris2_mkInt64 (word_of_nat n) m))"

definition head :: "addr \<Rightarrow> mem \<Rightarrow> (addr \<times> mem) res" where
  "head x m =
     bindr (get_str x m) (\<lambda>s. bindr (load_byte s 0 m) (\<lambda>c. Inr (idris2_mkChar (sint c), m)))"

definition tail :: "addr \<Rightarrow> mem \<Rightarrow> (addr \<times> mem) res" where
  "tail input m =
     bindr (idris2_newValue 16 m) (\<lambda>(tailStr, m1).
     bindr (set_payload tailStr STRING_TAG No_payload m1) (\<lambda>m2.
     bindr (get_str input m2) (\<lambda>s.
     bindr (int_strlen s m2) (\<lambda>l.
     if l = 0 then Inr (idris2_predefined_nullstring, m2)
     else let (str, m3) = c_malloc (c_size l) m2 in
       bindr (set_payload tailStr STRING_TAG (Idris2_String str) m3) (\<lambda>m4.
       bindr (checkr (str \<noteq> 0)) (\<lambda>_.
       bindr (c_memset str 0 (c_size l) m4) (\<lambda>m5.
       bindr (c_sub Int32 l 1) (\<lambda>l1.
       bindr (c_memcpy str 0 s 1 (c_size l1) m5) (\<lambda>m6. Inr (tailStr, m6))))))))))"

text \<open>Iteration \<open>i\<close> of the loop copies from \<open>q = input->str + (l - 1) - i\<close> to \<open>p = retVal->str + i\<close>.
  The pointer \<open>q\<close> ends one place before the string; it is not read there, and only accesses are
  checked.\<close>

definition reverse :: "addr \<Rightarrow> mem \<Rightarrow> (addr \<times> mem) res" where
  "reverse s m =
     bindr (idris2_newValue 16 m) (\<lambda>(retVal, m1).
     bindr (set_payload retVal STRING_TAG No_payload m1) (\<lambda>m2.
     bindr (get_str s m2) (\<lambda>input.
     bindr (int_strlen input m2) (\<lambda>l.
     bindr (c_add Int32 l 1) (\<lambda>l1.
     let (str, m3) = c_malloc (c_size l1) m2 in
     bindr (set_payload retVal STRING_TAG (Idris2_String str) m3) (\<lambda>m4.
     bindr (checkr (str \<noteq> 0)) (\<lambda>_.
     bindr (c_memset str 0 (c_size l1) m4) (\<lambda>m5.
     bindr (eachr (\<lambda>i m. bindr (load_byte input (l - 1 - int i) m) (\<lambda>c. store_byte str (int i) c m))
              [0..<nat l] m5) (\<lambda>m6. Inr (retVal, m6))))))))))"

definition strIndex :: "addr \<Rightarrow> addr \<Rightarrow> mem \<Rightarrow> (addr \<times> mem) res" where
  "strIndex str i m =
     bindr (get_str str m) (\<lambda>s.
     bindr (idris2_vp_to_Int64 i m) (\<lambda>v.
     let idx = c_conv Int32 v in
     bindr (load_byte s idx m) (\<lambda>c. Inr (idris2_mkChar (sint c), m))))"

definition strCons :: "addr \<Rightarrow> addr \<Rightarrow> mem \<Rightarrow> (addr \<times> mem) res" where
  "strCons c str m =
     bindr (get_str str m) (\<lambda>s.
     bindr (int_strlen s m) (\<lambda>l.
     bindr (c_add Int32 l 2) (\<lambda>l2.
     bindr (idris2_mkEmptyString (c_size l2) m) (\<lambda>(retVal, m1).
     bindr (get_str retVal m1) (\<lambda>d.
     bindr (store_byte d 0 (word_of_int (idris2_vp_to_Char c)) m1) (\<lambda>m2.
     bindr (c_memcpy d 1 s 0 (c_size l) m2) (\<lambda>m3. Inr (retVal, m3))))))))"

definition strAppend :: "addr \<Rightarrow> addr \<Rightarrow> mem \<Rightarrow> (addr \<times> mem) res" where
  "strAppend a b m =
     bindr (get_str a m) (\<lambda>sa. bindr (int_strlen sa m) (\<lambda>la.
     bindr (get_str b m) (\<lambda>sb. bindr (int_strlen sb m) (\<lambda>lb.
     bindr (c_add Int32 la lb) (\<lambda>l. bindr (c_add Int32 l 1) (\<lambda>l1.
     bindr (idris2_mkEmptyString (c_size l1) m) (\<lambda>(retVal, m1).
     bindr (get_str retVal m1) (\<lambda>d.
     bindr (c_memcpy d 0 sa 0 (c_size la) m1) (\<lambda>m2.
     bindr (c_memcpy d la sb 0 (c_size lb) m2) (\<lambda>m3. Inr (retVal, m3)))))))))))"

text \<open>\<open>strlen(input) - offset\<close> is computed in \<open>size_t\<close> and then stored in an \<open>int\<close>.\<close>

definition strSubstr :: "addr \<Rightarrow> addr \<Rightarrow> addr \<Rightarrow> mem \<Rightarrow> (addr \<times> mem) res" where
  "strSubstr start len s m =
     bindr (get_str s m) (\<lambda>input.
     bindr (idris2_vp_to_Int64 start m) (\<lambda>v.
     let offset = c_conv Int32 v in
     bindr (idris2_vp_to_Int64 len m) (\<lambda>w.
     let l0 = c_conv Int32 w in
     bindr (c_strlen input 0 m) (\<lambda>n.
     let tailLen = c_conv Int32 (c_conv Bits64 (int n - offset));
         l = (if tailLen < l0 then tailLen else l0) in
     bindr (c_add Int32 l 1) (\<lambda>l1.
     bindr (idris2_mkEmptyString (c_size l1) m) (\<lambda>(retVal, m1).
     bindr (get_str retVal m1) (\<lambda>d.
     bindr (c_memcpy d 0 input offset (c_size l) m1) (\<lambda>m2. Inr (retVal, m2)))))))))"

subsection \<open>Lists of characters and of strings\<close>

primrec fastPack_count :: "nat \<Rightarrow> addr \<Rightarrow> int \<Rightarrow> mem \<Rightarrow> int res" where
  "fastPack_count 0 current l m = Inl Out_of_fuel"
| "fastPack_count (Suc fuel) current l m =
     (if current = 0 then Inr l
      else bindr (c_add Int32 l 1) (\<lambda>l1.
           bindr (get_arg current 1 m) (\<lambda>next. fastPack_count fuel next l1 m)))"

primrec fastPack_fill :: "nat \<Rightarrow> addr \<Rightarrow> addr \<Rightarrow> int \<Rightarrow> mem \<Rightarrow> mem res" where
  "fastPack_fill 0 retVal current i m = Inl Out_of_fuel"
| "fastPack_fill (Suc fuel) retVal current i m =
     (if current = 0 then Inr m
      else bindr (get_arg current 0 m) (\<lambda>c.
           bindr (store_byte retVal i (word_of_int (idris2_vp_to_Char c)) m) (\<lambda>m1.
           bindr (c_add Int32 i 1) (\<lambda>i1.
           bindr (get_arg current 1 m1) (\<lambda>next. fastPack_fill fuel retVal next i1 m1)))))"

definition fastPack :: "nat \<Rightarrow> addr \<Rightarrow> mem \<Rightarrow> (addr \<times> mem) res" where
  "fastPack fuel charList m =
     bindr (fastPack_count fuel charList 0 m) (\<lambda>l.
     bindr (c_add Int32 l 1) (\<lambda>l1.
     let (retVal, m1) = c_malloc (c_size l1) m in
     bindr (store_byte retVal l 0 m1) (\<lambda>m2.
     bindr (fastPack_fill fuel retVal charList 0 m2) (\<lambda>m3. Inr (retVal, m3)))))"

primrec fastUnpack_loop :: "nat \<Rightarrow> addr \<Rightarrow> addr \<Rightarrow> int \<Rightarrow> mem \<Rightarrow> mem res" where
  "fastUnpack_loop 0 str current i m = Inl Out_of_fuel"
| "fastUnpack_loop (Suc fuel) str current i m =
     bindr (load_byte str i m) (\<lambda>c.
     if c = 0 then set_arg current 1 0 m
     else bindr (idris2_newConstructor 2 1 m) (\<lambda>(next, m1).
          bindr (set_arg next 0 (idris2_mkChar (sint c)) m1) (\<lambda>m2.
          bindr (set_arg current 1 next m2) (\<lambda>m3.
          bindr (c_add Int32 i 1) (\<lambda>i1. fastUnpack_loop fuel str next i1 m3)))))"

definition fastUnpack :: "nat \<Rightarrow> addr \<Rightarrow> mem \<Rightarrow> (addr \<times> mem) res" where
  "fastUnpack fuel str m =
     bindr (load_byte str 0 m) (\<lambda>c.
     if c = 0 then Inr (0, m)
     else bindr (idris2_newConstructor 2 1 m) (\<lambda>(retVal, m1).
          bindr (set_arg retVal 0 (idris2_mkChar (sint c)) m1) (\<lambda>m2.
          bindr (fastUnpack_loop fuel str retVal 1 m2) (\<lambda>m3. Inr (retVal, m3)))))"

text \<open>\<open>totalLength += strlen(..)\<close>: the sum is computed in \<open>size_t\<close> and stored in an \<open>int\<close>.\<close>

primrec fastConcat_length :: "nat \<Rightarrow> addr \<Rightarrow> int \<Rightarrow> mem \<Rightarrow> int res" where
  "fastConcat_length 0 current totalLength m = Inl Out_of_fuel"
| "fastConcat_length (Suc fuel) current totalLength m =
     (if current = 0 then Inr totalLength
      else bindr (get_arg current 0 m) (\<lambda>x.
           bindr (get_str x m) (\<lambda>s.
           bindr (c_strlen s 0 m) (\<lambda>n.
           bindr (get_arg current 1 m) (\<lambda>next.
           fastConcat_length fuel next (c_conv Int32 (c_conv Bits64 (totalLength + int n))) m)))))"

primrec fastConcat_fill :: "nat \<Rightarrow> addr \<Rightarrow> addr \<Rightarrow> int \<Rightarrow> mem \<Rightarrow> mem res" where
  "fastConcat_fill 0 retVal current offset m = Inl Out_of_fuel"
| "fastConcat_fill (Suc fuel) retVal current offset m =
     (if current = 0 then Inr m
      else bindr (get_arg current 0 m) (\<lambda>x.
           bindr (get_str x m) (\<lambda>currentStr.
           bindr (int_strlen currentStr m) (\<lambda>currentStrLen.
           bindr (c_memcpy retVal offset currentStr 0 (c_size currentStrLen) m) (\<lambda>m1.
           bindr (c_add Int32 offset currentStrLen) (\<lambda>offset1.
           bindr (get_arg current 1 m1) (\<lambda>next. fastConcat_fill fuel retVal next offset1 m1)))))))"

definition fastConcat :: "nat \<Rightarrow> addr \<Rightarrow> mem \<Rightarrow> (addr \<times> mem) res" where
  "fastConcat fuel strList m =
     bindr (fastConcat_length fuel strList 0 m) (\<lambda>totalLength.
     bindr (c_add Int32 totalLength 1) (\<lambda>l1.
     let (retVal, m1) = c_malloc (c_size l1) m in
     bindr (store_byte retVal totalLength 0 m1) (\<lambda>m2.
     bindr (fastConcat_fill fuel retVal strList 0 m2) (\<lambda>m3. Inr (retVal, m3)))))"

subsection \<open>String iterators\<close>

text \<open>The parameter \<open>fp\<close> is the address of the C function \<open>onCollectStringIterator\<close>.\<close>

definition stringIteratorNew :: "addr \<Rightarrow> addr \<Rightarrow> mem \<Rightarrow> (addr \<times> mem) res" where
  "stringIteratorNew fp str m =
     bindr (int_strlen str m) (\<lambda>l.
     let (it, m1) = c_malloc_ptrs 2 m in
     bindr (checkr (it \<noteq> 0)) (\<lambda>_.
     bindr (c_add Int32 l 1) (\<lambda>l1.
     let (buf, m2) = c_malloc (c_size l1) m1 in
     bindr (store_ptr it 0 buf m2) (\<lambda>m3.
     bindr (store_ptr it 1 0 m3) (\<lambda>m4.
     bindr (c_memcpy buf 0 str 0 (c_size l1) m4) (\<lambda>m5.
     bindr (idris2_mkClosure fp 2 0 m5) (\<lambda>(clo, m6).
     idris2_makeGCPointer it clo m6)))))))"

definition get_pointer :: "addr \<Rightarrow> mem \<Rightarrow> addr res" where
  "get_pointer p m =
     bindr (get_obj p m) (\<lambda>v. case payload v of
         Idris2_Pointer q \<Rightarrow> Inr q
       | _ \<Rightarrow> Inl (Undefined Bad_type))"

definition onCollectStringIterator :: "addr \<Rightarrow> mem \<Rightarrow> (addr \<times> mem) res" where
  "onCollectStringIterator ptr m =
     bindr (get_pointer ptr m) (\<lambda>it.
     bindr (load_ptr it 0 m) (\<lambda>s.
     bindr (c_free s m) (\<lambda>m1.
     bindr (c_free it m1) (\<lambda>m2. Inr (0, m2)))))"

text \<open>\<open>((Idris2_GCPointer *)it_p)->p->p\<close>\<close>

definition get_iterator :: "addr \<Rightarrow> mem \<Rightarrow> addr res" where
  "get_iterator it_p m =
     bindr (get_obj it_p m) (\<lambda>v. case payload v of
         Idris2_GCPointer p onCollect \<Rightarrow> get_pointer p m
       | _ \<Rightarrow> Inl (Undefined Bad_type))"

definition stringIteratorToString :: "nat \<Rightarrow> code \<Rightarrow> addr \<Rightarrow> addr \<Rightarrow> mem \<Rightarrow> (addr \<times> mem) res" where
  "stringIteratorToString fuel code it_p f m =
     bindr (get_iterator it_p m) (\<lambda>it.
     bindr (load_ptr it 0 m) (\<lambda>s.
     bindr (load_ptr it 1 m) (\<lambda>pos.
     bindr (idris2_mkString s (c_conv Int32 (uint pos)) m) (\<lambda>(strVal, m1).
     bindr (idris2_newReference f m1) (\<lambda>(f', m2).
     idris2_apply_closure fuel code f' strVal m2)))))"

definition stringIteratorNext :: "addr \<Rightarrow> mem \<Rightarrow> (addr \<times> mem) res" where
  "stringIteratorNext it_p m =
     bindr (get_iterator it_p m) (\<lambda>it.
     bindr (load_ptr it 0 m) (\<lambda>s.
     bindr (load_ptr it 1 m) (\<lambda>pos.
     bindr (load_byte s (c_conv Int32 (uint pos)) m) (\<lambda>c.
     if c = 0 then Inr (0, m)
     else bindr (c_add Int32 (c_conv Int32 (uint pos)) 1) (\<lambda>pos1.
          bindr (store_ptr it 1 (word_of_int (c_conv Bits32 pos1)) m) (\<lambda>m1.
          bindr (idris2_newConstructor 2 1 m1) (\<lambda>(retVal, m2).
          bindr (set_arg retVal 0 (idris2_mkChar (sint c)) m2) (\<lambda>m3.
          bindr (idris2_newReference it_p m3) (\<lambda>(it', m4).
          bindr (set_arg retVal 1 it' m4) (\<lambda>m5. Inr (retVal, m5)))))))))))"

end
