(* ===== verification/String_Correct.thy ===== *)
theory String_Correct
  imports String_Ops
begin

text \<open>
  Correctness of \<open>String_Ops\<close>: each operation in terms of the byte strings its arguments read as.
\<close>

section \<open>Shared steps\<close>

lemma int_strlen_value:
  "c_strlen q 0 m = Inr (length s) \<Longrightarrow> length s < 2 ^ 31 \<Longrightarrow> int_strlen q m = Inr (int (length s))"
  by (simp add: int_strlen_def in_range_code)

lemma extends_c_strlen [stable]: "extends m m' \<Longrightarrow> c_strlen q i m = Inr n \<Longrightarrow> c_strlen q i m' = Inr n"
  using extends_c_string [of m m' q i] by (auto simp: c_strlen_def bindr_eq_Inr)

lemma c_size_nonneg [simp]: "0 \<le> v \<Longrightarrow> v < 2 ^ 64 \<Longrightarrow> c_size v = nat v"
  by (simp add: c_size_def in_range_code)

lemma nat_one_plus_int [simp]: "nat (1 + int n) = Suc n"
  by linarith

lemma c_add_Int32: "in_range Int32 (a + b) \<Longrightarrow> c_add Int32 a b = Inr (a + b)"
  and c_sub_Int32: "in_range Int32 (a - b) \<Longrightarrow> c_sub Int32 a b = Inr (a - b)"
  by (simp_all add: c_add_def c_sub_def c_promote_def)

text \<open>The object that \<open>tail\<close> and \<open>reverse\<close> allocate before they look at their argument.\<close>

definition blank_str :: "mem \<Rightarrow> mem" where
  "blank_str m = alloc_obj \<lparr>refCounter = 1, tag = STRING_TAG, payload = No_payload\<rparr> m"

lemma blank_str_sel [simp]: "brk (blank_str m) = Suc (brk m)" "lim (blank_str m) = lim m"
  by (simp_all add: blank_str_def)

lemma newValue_blank_str:
  assumes "rt_wf m" "brk m < lim m"
  shows "bindr (idris2_newValue 16 m) (\<lambda>(p, m1). bindr (set_payload p STRING_TAG No_payload m1) (g p)) =
    g (addr_of (brk m)) (blank_str m)"
    "rt_wf (blank_str m)" "extends m (blank_str m)"
  using assms set_payload_new(2) [OF assms]
  by (simp_all add: idris2_newValue_cases rt_wf_mem_wf blank_str_def rt_wf_alloc_obj extends_alloc_obj)

lemma blank_str_fill:
  assumes "rt_wf m" "brk m < lim m"
  shows "set_payload (addr_of (brk m)) STRING_TAG (Idris2_String (addr_of (Suc (brk m))))
      (alloc_blk (Bytes bs) (blank_str m)) = Inr (alloc_str bs m)"
  using set_payload_new(1) [OF assms] by (simp add: blank_str_def alloc_str_def)

lemma memset_new_str:
  assumes "rt_wf m" "Suc (brk m) < lim m"
  shows "c_memset (addr_of (Suc (brk m))) 0 n (alloc_str (replicate n v) m) =
    Inr (alloc_str (replicate n (Some 0)) m)"
  using assms by (simp add: c_memset_def alloc_str_read alloc_str_write)

section \<open>tail\<close>

lemma tail_result:
  assumes "rt_wf m" "Suc (brk m) < lim m" "string_of x m = Inr s" "length s < 2 ^ 31"
  shows "tail x m = (if s = [] then Inr (idris2_predefined_nullstring, blank_str m)
    else Inr (addr_of (brk m), alloc_str (map Some (tl s @ [0])) m))"
proof -
  obtain q rest where q: "get_str x m = Inr q" "get_bytes q m = Inr (map Some s @ Some 0 # rest)"
    "c_strlen q 0 m = Inr (length s)" using string_ofE [OF assms(3)] by metis
  have b: "brk m < lim m" using assms(2) by simp
  note nv = newValue_blank_str [OF assms(1) b]
  have len: "get_str x (blank_str m) = Inr q" "int_strlen q (blank_str m) = Inr (int (length s))"
    using q nv(3) assms(4) by (auto intro: stable int_strlen_value)
  show ?thesis
  proof (cases s)
    case Nil
    with len show ?thesis by (simp add: tail_def nv(1))
  next
    case (Cons c t)
    have addr: "addr_of (Suc (brk m)) \<noteq> 0" using alloc_str_addrs [OF assms(1,2)] by simp
    have cp: "c_memcpy (addr_of (Suc (brk m))) 0 q 1 (length t)
        (alloc_str (replicate (Suc (length t)) (Some 0)) m) =
      Inr (alloc_str (map Some (t @ [0])) m)"
      using memcpy_to_new_str [OF assms(1,2) q(2), of 1 0 "length t" "replicate (Suc (length t)) (Some 0)"] Cons
      by (simp add: replicate_append_same [symmetric])
    have "c_sub Int32 (int (length s)) 1 = Inr (int (length t))"
      using assms(4) Cons by (simp add: c_sub_Int32 in_range_code)
    moreover have "c_malloc (length s) (blank_str m) =
        (addr_of (Suc (brk m)), alloc_blk (Bytes (replicate (length s) None)) (blank_str m))"
      using assms(2,4) by (simp add: c_malloc_cases)
    ultimately show ?thesis
      using Cons len addr cp assms(4) memset_new_str [OF assms(1,2), of "length s" None]
      by (simp add: tail_def nv(1) blank_str_fill [OF assms(1) b])
  qed
qed

section \<open>reverse\<close>

lemma load_byte_string:
  assumes "get_bytes q m = Inr (map Some s @ Some 0 # rest)"
  shows "0 \<le> i \<Longrightarrow> i < int (length s) \<Longrightarrow> load_byte q i m = Inr (s ! nat i)"
    and "load_byte q (int (length s)) m = Inr 0"
  using assms by (simp_all add: load_byte_def nth_res_def nth_append nat_less_iff)

lemma store_byte_new_str:
  assumes "rt_wf m" "Suc (brk m) < lim m" "i < length bs"
  shows "store_byte (addr_of (Suc (brk m))) (int i) v (alloc_str bs m) = Inr (alloc_str (bs[i := Some v]) m)"
  using assms by (simp add: store_byte_def alloc_str_read alloc_str_write upd_res_def)

definition reversed :: "byte list \<Rightarrow> nat \<Rightarrow> byte option list" where
  "reversed s k = map Some (take k (rev s)) @ replicate (Suc (length s) - k) (Some 0)"

lemma reversed_step:
  assumes "k < length s"
  shows "(reversed s k)[k := Some (s ! (length s - 1 - k))] = reversed s (Suc k)"
proof -
  have "Suc (length s) - k = Suc (length s - k)" using assms by simp
  moreover have "s ! (length s - 1 - k) = rev s ! k" using assms by (simp add: rev_nth)
  ultimately show ?thesis
    using assms by (simp add: reversed_def take_Suc_conv_app_nth list_update_append)
qed

lemma reverse_result:
  assumes "rt_wf m" "Suc (brk m) < lim m" "string_of x m = Inr s" "length s < 2 ^ 31 - 1"
  shows "reverse x m = Inr (addr_of (brk m), alloc_str (map Some (rev s @ [0])) m)"
proof -
  obtain q rest where q: "get_str x m = Inr q" "get_bytes q m = Inr (map Some s @ Some 0 # rest)"
    "c_strlen q 0 m = Inr (length s)" using string_ofE [OF assms(3)] by metis
  have b: "brk m < lim m" using assms(2) by simp
  note nv = newValue_blank_str [OF assms(1) b]
  let ?str = "addr_of (Suc (brk m))" and ?l = "int (length s)"
  let ?body = "\<lambda>i m. bindr (load_byte q (?l - 1 - int i) m) (\<lambda>c. store_byte ?str (int i) c m)"
  have len: "get_str x (blank_str m) = Inr q" "int_strlen q (blank_str m) = Inr (int (length s))"
    using q nv(3) assms(4) by (auto intro: stable int_strlen_value)
  have step: "?body k (alloc_str (reversed s k) m) = Inr (alloc_str (reversed s (Suc k)) m)"
    if k: "k < length s" for k
  proof -
    have "get_bytes q (alloc_str (reversed s k) m) = Inr (map Some s @ Some 0 # rest)"
      using rt_wf_alloc_str(2) [OF assms(1,2)] q(2) by (rule stable)
    then have "load_byte q (?l - 1 - int k) (alloc_str (reversed s k) m) = Inr (s ! (length s - 1 - k))"
      using k load_byte_string(1) [of q _ s rest "?l - 1 - int k"] by (simp add: nat_diff_distrib)
    then show ?thesis
      using k store_byte_new_str [OF assms(1,2), of k "reversed s k"] reversed_step [OF k]
      by (simp add: reversed_def)
  qed
  have "\<exists>m'. eachr ?body [0..<length s] (alloc_str (reversed s 0) m) = Inr m' \<and>
      m' = alloc_str (reversed s (length s)) m"
    by (rule eachr_invariant) (use step in auto)
  moreover have "reversed s 0 = replicate (Suc (length s)) (Some 0)"
    "reversed s (length s) = map Some (rev s @ [0])" by (simp_all add: reversed_def)
  moreover have "c_malloc (Suc (length s)) (blank_str m) =
      (?str, alloc_blk (Bytes (replicate (Suc (length s)) None)) (blank_str m))"
    using assms(2,4) by (simp add: c_malloc_cases)
  ultimately show ?thesis
    using len alloc_str_addrs(2) [OF assms(1,2)] memset_new_str [OF assms(1,2), of "Suc (length s)" None]
      assms(4)
    by (simp add: reverse_def nv(1) c_add_Int32 in_range_code blank_str_fill [OF assms(1) b]
        add.commute [of "int (length s)" 1] del: replicate_Suc)
qed

section \<open>cons, append, substring\<close>

lemma strCons_result:
  assumes "rt_wf m" "Suc (brk m) < lim m" "string_of x m = Inr s" "length s < 2 ^ 31 - 2"
  shows "strCons c x m =
    Inr (addr_of (brk m), alloc_str (map Some (word_of_int (idris2_vp_to_Char c) # s @ [0])) m)"
proof -
  obtain q rest where q: "get_str x m = Inr q" "get_bytes q m = Inr (map Some s @ Some 0 # rest)"
    "c_strlen q 0 m = Inr (length s)" using string_ofE [OF assms(3)] by metis
  let ?c = "Some (word_of_int (idris2_vp_to_Char c))"
  have "nat (int (length s) + 2) = Suc (Suc (length s))" by linarith
  moreover have "c_memcpy (addr_of (Suc (brk m))) 1 q 0 (length s)
      (alloc_str (?c # replicate (Suc (length s)) (Some 0)) m) =
    Inr (alloc_str (?c # map Some s @ [Some 0]) m)"
    using memcpy_to_new_str [OF assms(1,2) q(2), of 0 1 "length s" "?c # replicate (Suc (length s)) (Some 0)"]
    by (simp del: replicate_Suc add: Suc_diff_le) simp
  ultimately show ?thesis
    using q int_strlen_value [OF q(3)] assms(4) alloc_str_read(1) [OF assms(1,2)]
      store_byte_new_str [OF assms(1,2), of 0]
    by (simp add: strCons_def c_add_Int32 in_range_code mkEmptyString_cases [OF assms(1)] assms(2))
qed

lemma strAppend_result:
  assumes "rt_wf m" "Suc (brk m) < lim m" "string_of x m = Inr s" "string_of y m = Inr t"
    and "length s + length t < 2 ^ 31 - 1" "s @ t \<noteq> []"
  shows "strAppend x y m = Inr (addr_of (brk m), alloc_str (map Some (s @ t @ [0])) m)"
proof -
  obtain q rest where q: "get_str x m = Inr q" "get_bytes q m = Inr (map Some s @ Some 0 # rest)"
    "c_strlen q 0 m = Inr (length s)" using string_ofE [OF assms(3)] by metis
  obtain r rest' where r: "get_str y m = Inr r" "get_bytes r m = Inr (map Some t @ Some 0 # rest')"
    "c_strlen r 0 m = Inr (length t)" using string_ofE [OF assms(4)] by metis
  let ?n = "Suc (length s + length t)"
  have n: "nat (int (length s) + int (length t) + 1) = ?n" "?n \<noteq> 1" "?n < 2 ^ 62"
    using assms(5,6) by auto
  have "c_memcpy (addr_of (Suc (brk m))) 0 q 0 (length s) (alloc_str (replicate ?n (Some 0)) m) =
      Inr (alloc_str (map Some s @ replicate (Suc (length t)) (Some 0)) m)"
    using memcpy_to_new_str [OF assms(1,2) q(2), of 0 0 "length s" "replicate ?n (Some 0)"]
    by (simp add: Suc_diff_le del: replicate_Suc)
  moreover have "c_memcpy (addr_of (Suc (brk m))) (int (length s)) r 0 (length t)
      (alloc_str (map Some s @ replicate (Suc (length t)) (Some 0)) m) =
      Inr (alloc_str (map Some (s @ t @ [0])) m)"
    using memcpy_to_new_str [OF assms(1,2) r(2), of 0 "int (length s)" "length t"
        "map Some s @ replicate (Suc (length t)) (Some 0)"]
    by (simp del: replicate_Suc add: Suc_diff_le) simp
  ultimately show ?thesis
    using q r int_strlen_value [OF q(3)] int_strlen_value [OF r(3)] assms(5) n
      alloc_str_read(1) [OF assms(1,2)]
    by (simp add: strAppend_def c_add_Int32 in_range_code mkEmptyString_cases [OF assms(1)] assms(2)
        del: replicate_Suc)
qed

text \<open>An empty result is the shared empty string.\<close>

lemma memcpy_nothing:
  assumes "get_bytes d m = Inr ds" "get_bytes q m = Inr ss" "0 \<le> soff" "soff \<le> int (length ss)"
    "0 \<le> doff" "doff \<le> int (length ds)"
  shows "c_memcpy d doff q soff 0 m = Inr m"
proof -
  have "m\<lparr>blks := (blks m)(d \<mapsto> Bytes ds)\<rparr> = m"
    using assms(1) by (simp add: get_bytes_eq_Inr fun_upd_idem)
  then show ?thesis using assms by (simp add: c_memcpy_def)
qed

lemma mkEmptyString_one: "idris2_mkEmptyString (Suc 0) m = Inr (idris2_predefined_nullstring, m)"
  by (simp add: idris2_mkEmptyString_def)

lemma strAppend_empty:
  assumes "rt_wf m" "string_of x m = Inr []" "string_of y m = Inr []"
  shows "strAppend x y m = Inr (idris2_predefined_nullstring, m)"
proof -
  obtain q rest where q: "get_str x m = Inr q" "get_bytes q m = Inr (map Some [] @ Some 0 # rest)"
    "c_strlen q 0 m = Inr (length ([] :: byte list))"
    by (rule string_ofE [OF assms(2)])
  obtain r rest' where r: "get_str y m = Inr r" "get_bytes r m = Inr (map Some [] @ Some 0 # rest')"
    "c_strlen r 0 m = Inr (length ([] :: byte list))"
    by (rule string_ofE [OF assms(3)])
  obtain d rest'' where d: "get_str idris2_predefined_nullstring m = Inr d"
    "get_bytes d m = Inr (map Some [] @ Some 0 # rest'')"
    using string_ofE [OF nullstring_empty [OF assms(1)]] by metis
  show ?thesis
    using q r d int_strlen_value [of q m "[]"] int_strlen_value [of r m "[]"]
      memcpy_nothing [OF d(2) q(2), of 0 0] memcpy_nothing [OF d(2) r(2), of 0 0]
    by (simp add: strAppend_def c_add_Int32 in_range_code mkEmptyString_one)
qed

text \<open>The common shape of the results below: a string object with the given bytes, everything else
  as before.\<close>

definition returns_string :: "(addr \<times> mem) res \<Rightarrow> byte list \<Rightarrow> mem \<Rightarrow> bool" where
  "returns_string r s m \<longleftrightarrow>
     (\<exists>p m'. r = Inr (p, m') \<and> string_of p m' = Inr s \<and> rt_wf m' \<and> extends m m')"

lemma returns_new_str:
  assumes "rt_wf m" "Suc (brk m) < lim m" "0 \<notin> set s" "r = Inr (addr_of (brk m), alloc_str (map Some (s @ [0])) m)"
  shows "returns_string r s m"
  using assms alloc_str_string [OF assms(1-3), of "[]"] rt_wf_alloc_str [OF assms(1,2)]
  by (simp add: returns_string_def)

lemma returns_nullstring: "rt_wf m' \<Longrightarrow> extends m m' \<Longrightarrow> returns_string (Inr (idris2_predefined_nullstring, m')) [] m"
  by (simp add: returns_string_def nullstring_empty)

text \<open>Copying bytes of one block into a string made for them.\<close>

lemma copy_into_new_string:
  assumes m: "rt_wf m" "Suc (brk m) < lim m" and q: "get_bytes q m = Inr bs" "0 \<le> off" "off + int (length t) \<le> int (length bs)"
    and t: "take (length t) (drop (nat off) bs) = map Some t" "length t < 2 ^ 31 - 1" "0 \<notin> set t"
  shows "returns_string (bindr (idris2_mkEmptyString (Suc (length t)) m) (\<lambda>(retVal, m1).
    bindr (get_str retVal m1) (\<lambda>d. bindr (c_memcpy d 0 q off (length t) m1) (\<lambda>m2. Inr (retVal, m2))))) t m"
    (is "returns_string ?run t m")
proof (cases t)
  case Nil
  obtain d rest where d: "get_str idris2_predefined_nullstring m = Inr d" "get_bytes d m = Inr (map Some [] @ Some 0 # rest)"
    using string_ofE [OF nullstring_empty [OF m(1)]] by metis
  then have "?run = Inr (idris2_predefined_nullstring, m)"
    using Nil memcpy_nothing [OF d(2) q(1), of off 0] q(2,3) by (simp add: mkEmptyString_one)
  then show ?thesis using Nil m(1) returns_nullstring [of m m] by simp
next
  case (Cons c u)
  then have n: "Suc (length t) \<noteq> 1" "Suc (length t) < 2 ^ 62" using t(2) by auto
  have "c_memcpy (addr_of (Suc (brk m))) 0 q off (length t)
      (alloc_str (replicate (Suc (length t)) (Some 0)) m) = Inr (alloc_str (map Some (t @ [0])) m)"
    using memcpy_to_new_str [OF m q(1,2), of 0 "length t" "replicate (Suc (length t)) (Some 0)"] q(3) t(1)
    by (simp add: Suc_diff_le del: replicate_Suc length_map) simp
  then have "?run = Inr (addr_of (brk m), alloc_str (map Some (t @ [0])) m)"
    using n by (simp add: mkEmptyString_cases [OF m(1)] m(2) alloc_str_read [OF m] del: replicate_Suc)
  then show ?thesis using returns_new_str [OF m t(3)] by simp
qed



text \<open>The static strings of the runtime as sample arguments.\<close>

lemma static_string_samples:
  "string_of (addr_of 303) (init_mem 1000) = Inr [0x4C, 0x69, 0x6E, 0x75, 0x78]"
  "string_of (addr_of 305) (init_mem 1000) = Inr [0x72, 0x65, 0x66, 0x63]"
  by (simp_all add: string_of_def get_str_def get_obj_def init_mem_def unat_addr_of
      static_obj_def static_blk_def IDRIS2_STOCKVAL_def c_string_def get_bytes_def addr_of_nonzero)


lemma predefined_Int64_read: "rt_wf m \<Longrightarrow> i < 100 \<Longrightarrow> idris2_vp_to_Int64 (idris2_predefined_Int64 i) m = Inr (int i)"
  using boxed_64_static(1) [of m i] sint_word_conv [of "int i"]
  by (simp add: idris2_vp_to_Int64_def in_range_code)


end
