(* ===== verification/List_Conversion.thy ===== *)
theory List_Conversion
  imports String_Correct
begin

text \<open>
  Lists of values in memory, and the correctness of \<open>fastPack\<close>, \<open>fastUnpack\<close> and \<open>fastConcat\<close> with the
  fuel they need.
\<close>

section \<open>Lists in memory\<close>

text \<open>The cells reachable from \<open>p\<close> are a list of the given values.\<close>

fun list_at :: "mem \<Rightarrow> addr \<Rightarrow> addr list \<Rightarrow> bool" where
  "list_at m p [] \<longleftrightarrow> p = 0"
| "list_at m p (x # xs) \<longleftrightarrow>
     p \<noteq> 0 \<and> get_arg p 0 m = Inr x \<and> (\<exists>q. get_arg p 1 m = Inr q \<and> list_at m q xs)"

lemma extends_get_args [stable]: "extends m m' \<Longrightarrow> get_args p m = Inr xs \<Longrightarrow> get_args p m' = Inr xs"
  using extends_get_obj [of m m' p] by (auto simp: get_args_def bindr_eq_Inr)

lemma extends_get_arg [stable]: "extends m m' \<Longrightarrow> get_arg p i m = Inr x \<Longrightarrow> get_arg p i m' = Inr x"
  using extends_get_args [of m m' p] by (auto simp: get_arg_def bindr_eq_Inr)

lemma extends_list_at: "extends m m' \<Longrightarrow> list_at m p xs \<Longrightarrow> list_at m' p xs"
  by (induction xs arbitrary: p) (auto intro: stable)

text \<open>A list cell with its two fields.\<close>

definition cell :: "addr option \<Rightarrow> addr option \<Rightarrow> Idris2_Value" where
  "cell x y = \<lparr>refCounter = 1, tag = CONSTRUCTOR_TAG, payload = Idris2_Constructor 2 1 0 [x, y]\<rparr>"

lemma newConstructor_cell:
  assumes "rt_wf m" "brk m < lim m"
  shows "idris2_newConstructor 2 1 m = Inr (addr_of (brk m), alloc_obj (cell None None) m)"
proof -
  have "replicate 2 None = [None, None :: addr option]" by (simp add: numeral_2_eq_2)
  then show ?thesis
    using assms set_payload_new(2) [OF assms]
    by (simp add: idris2_newConstructor_def idris2_newValue_cases [OF rt_wf_mem_wf [OF assms(1)]]
        cell_def)
qed

lemma cell_fields:
  assumes "objs m p = Some (cell x y)" "p \<noteq> 0"
  shows "get_args p m = Inr [x, y]"
    "set_arg p 0 v m = Inr (put_obj p (cell (Some v) y) m)"
    "set_arg p 1 v m = Inr (put_obj p (cell x (Some v)) m)"
  using assms by (simp_all add: get_args_def set_arg_def set_args_def upd_res_def cell_def)

lemma cell_get:
  assumes "objs m p = Some (cell (Some x) (Some y))" "p \<noteq> 0"
  shows "get_arg p 0 m = Inr x" "get_arg p 1 m = Inr y"
  using cell_fields(1) [OF assms] by (simp_all add: get_arg_def nth_res_def)

section \<open>fastUnpack\<close>

text \<open>Writing to an object that is not static data keeps memory well-formed.\<close>

definition dynamic :: "mem \<Rightarrow> addr \<Rightarrow> bool" where
  "dynamic m p \<longleftrightarrow> (\<exists>k. p = addr_of k \<and> static_end \<le> k \<and> k < brk m)"

lemma rt_wf_put_obj:
  assumes "rt_wf m" "objs m p \<noteq> None" "dynamic m p"
  shows "rt_wf (put_obj p v m)"
proof -
  obtain k where k: "p = addr_of k" "static_end \<le> k" "k < 2 ^ 60"
    using assms(3) mem_wf_brk [OF rt_wf_mem_wf [OF assms(1)]] by (auto simp: dynamic_def)
  have "addr_of j \<noteq> p" if "j < static_end" for j
    using that k addr_of_inj [of j k] by (auto simp: static_end_def)
  then have "statics_ok (put_obj p v m)"
    using assms(1) static_obj_bounds unfolding rt_wf_def statics_ok_def by auto
  then show ?thesis
    using mem_wf_put_obj [OF rt_wf_mem_wf [OF assms(1)] assms(2)] by (simp add: rt_wf_def)
qed

lemma dynamic_fresh: "rt_wf m \<Longrightarrow> dynamic (alloc_obj v m) (addr_of (brk m))"
  using mem_wf_brk [OF rt_wf_mem_wf] by (auto simp: dynamic_def)

lemma dynamic_mono: "dynamic m p \<Longrightarrow> brk m \<le> brk m' \<Longrightarrow> dynamic m' p"
  by (auto simp: dynamic_def)

text \<open>\<open>m'\<close> has everything \<open>m\<close> has, except that the object at \<open>p\<close> may have changed.\<close>

definition extends_but :: "addr \<Rightarrow> mem \<Rightarrow> mem \<Rightarrow> bool" where
  "extends_but p m m' \<longleftrightarrow>
     (\<forall>q v. q \<noteq> p \<longrightarrow> objs m q = Some v \<longrightarrow> objs m' q = Some v) \<and> blks m \<subseteq>\<^sub>m blks m'"

lemma extends_but_bytes: "extends_but p m m' \<Longrightarrow> get_bytes q m = Inr bs \<Longrightarrow> get_bytes q m' = Inr bs"
  by (auto simp: extends_but_def get_bytes_eq_Inr map_le_def dom_def)

abbreviation char_val :: "byte \<Rightarrow> addr" where
  "char_val b \<equiv> idris2_mkChar (sint b)"

text \<open>Both functions make a cell and set its head at once.\<close>

lemma new_cell:
  assumes "rt_wf m" "brk m < lim m"
  shows "bindr (idris2_newConstructor 2 1 m) (\<lambda>(p, m1). bindr (set_arg p 0 v m1) (\<lambda>m2. k p m2)) =
    k (addr_of (brk m)) (alloc_obj (cell (Some v) None) m)"
proof -
  have "put_obj (addr_of (brk m)) (cell (Some v) None) (alloc_obj (cell None None) m) = alloc_obj (cell (Some v) None) m"
    by (simp add: put_obj_def alloc_obj_def)
  then show ?thesis
    using newConstructor_cell [OF assms] mem_wf_fresh(3) [OF rt_wf_mem_wf [OF assms(1)]]
      cell_fields(2) [of "alloc_obj (cell None None) m" "addr_of (brk m)" None None v] by simp
qed

text \<open>Memory after a new cell with head \<open>v\<close> was made and hung behind the cell \<open>cur\<close>.\<close>

definition link_cell :: "addr \<Rightarrow> addr \<Rightarrow> addr \<Rightarrow> mem \<Rightarrow> mem" where
  "link_cell cur x v m = put_obj cur (cell (Some x) (Some (addr_of (brk m)))) (alloc_obj (cell (Some v) None) m)"

lemma link_cell_sel [simp]:
  "blks (link_cell cur x v m) = blks m" "brk (link_cell cur x v m) = Suc (brk m)" "lim (link_cell cur x v m) = lim m"
  by (simp_all add: link_cell_def)

lemma link_cell_ok:
  assumes "rt_wf m" "objs m cur = Some (cell (Some x) None)" "dynamic m cur" "cur \<noteq> 0" "brk m < lim m"
  shows "rt_wf (link_cell cur x v m)" "dynamic (link_cell cur x v m) (addr_of (brk m))" "addr_of (brk m) \<noteq> 0"
    "objs (link_cell cur x v m) = (objs m)(addr_of (brk m) \<mapsto> cell (Some v) None, cur \<mapsto> cell (Some x) (Some (addr_of (brk m))))"
    "cur \<noteq> addr_of (brk m)" "objs m (addr_of (brk m)) = None"
    "set_arg cur 1 (addr_of (brk m)) (alloc_obj (cell (Some v) None) m) = Inr (link_cell cur x v m)"
proof -
  let ?m1 = "alloc_obj (cell (Some v) None) m"
  show fresh: "addr_of (brk m) \<noteq> 0" "cur \<noteq> addr_of (brk m)" "objs m (addr_of (brk m)) = None"
    using mem_wf_fresh [OF rt_wf_mem_wf [OF assms(1)]] assms(2) by auto
  have "dynamic ?m1 cur" using dynamic_mono [OF assms(3), of ?m1] by simp
  then show "rt_wf (link_cell cur x v m)"
    unfolding link_cell_def using assms fresh by (intro rt_wf_put_obj) (simp_all add: rt_wf_alloc_obj)
  show "dynamic (link_cell cur x v m) (addr_of (brk m))"
    by (rule dynamic_mono [OF dynamic_fresh [OF assms(1)]]) simp
  show "objs (link_cell cur x v m) = (objs m)(addr_of (brk m) \<mapsto> cell (Some v) None, cur \<mapsto> cell (Some x) (Some (addr_of (brk m))))"
    by (simp add: link_cell_def)
  show "set_arg cur 1 (addr_of (brk m)) ?m1 = Inr (link_cell cur x v m)"
    using cell_fields(3) [of ?m1 cur "Some x" None] assms(2,4) fresh by (simp add: link_cell_def)
qed

text \<open>The loop appends the rest of the string to the cell \<open>current\<close>; \<open>length t + 1\<close> is enough fuel.\<close>

lemma fastUnpack_loop_correct:
  assumes "rt_wf m" "objs m cur = Some (cell (Some x) None)" "dynamic m cur" "cur \<noteq> 0"
    and "get_bytes str m = Inr (map Some (u @ t) @ Some 0 # rest)" "0 \<notin> set t"
    and "length (u @ t) < 2 ^ 31 - 1" "brk m + length t \<le> lim m" "length t < fuel"
  shows "\<exists>m'. fastUnpack_loop fuel str cur (int (length u)) m = Inr m' \<and>
    list_at m' cur (x # map char_val t) \<and> rt_wf m' \<and> extends_but cur m m' \<and>
    brk m' = brk m + length t \<and> lim m' = lim m"
  using assms
proof (induction t arbitrary: fuel m cur x u)
  case Nil
  then obtain f where f: "fuel = Suc f" by (cases fuel) auto
  define m' where "m' = put_obj cur (cell (Some x) (Some 0)) m"
  have "objs m' cur = Some (cell (Some x) (Some 0))" by (simp add: m'_def)
  then have "list_at m' cur [x]" using Nil.prems(4) cell_get [of m' cur x 0] by simp
  moreover have "fastUnpack_loop fuel str cur (int (length u)) m = Inr m'"
    using Nil.prems f load_byte_string(2) [of str m u rest] cell_fields(3) [of m cur "Some x" None 0]
    by (simp add: m'_def)
  moreover have "rt_wf m'" using Nil.prems by (simp add: m'_def rt_wf_put_obj)
  ultimately show ?case by (auto simp: m'_def extends_but_def)
next
  case (Cons c t)
  then obtain f where f: "fuel = Suc f" by (cases fuel) auto
  have b: "brk m < lim m" using Cons.prems(8) by simp
  let ?next = "addr_of (brk m)" and ?m3 = "link_cell cur x (char_val c) m"
  note link = link_cell_ok(1,2,4,7) [OF Cons.prems(1-4) b, of "char_val c"]
    and new = link_cell_ok(3,5,6) [OF Cons.prems(1-4) b]
  have c: "c \<noteq> 0" "load_byte str (int (length u)) m = Inr c"
    using Cons.prems(5,6) load_byte_string(1) [of str m "u @ c # t" rest "int (length u)"] by auto
  have steps: "fastUnpack_loop fuel str cur (int (length u)) m =
      fastUnpack_loop f str ?next (int (length (u @ [c]))) ?m3"
    using f c link(4) Cons.prems(7) by (simp add: new_cell [OF Cons.prems(1) b] c_add_Int32 in_range_code add.commute)
  have "\<exists>m'. fastUnpack_loop f str ?next (int (length (u @ [c]))) ?m3 = Inr m' \<and>
      list_at m' ?next (char_val c # map char_val t) \<and> rt_wf m' \<and> extends_but ?next ?m3 m' \<and>
      brk m' = brk ?m3 + length t \<and> lim m' = lim ?m3"
    using Cons.prems f link new by (intro Cons.IH) (auto simp: get_bytes_eq_Inr)
  then obtain m' where m': "fastUnpack_loop f str ?next (int (length (u @ [c]))) ?m3 = Inr m'"
    "list_at m' ?next (char_val c # map char_val t)" "rt_wf m'" "extends_but ?next ?m3 m'"
    "brk m' = brk ?m3 + length t" "lim m' = lim ?m3" by blast
  have "objs m' cur = Some (cell (Some x) (Some ?next))"
    using m'(4) link(3) new(2) by (auto simp: extends_but_def)
  then have "list_at m' cur (x # map char_val (c # t))"
    using m'(2) cell_get [of m' cur x ?next] Cons.prems(4) by simp
  moreover have "objs ?m3 q = Some v \<and> q \<noteq> ?next" if "q \<noteq> cur" "objs m q = Some v" for q v
    using that link(3) new(3) by auto
  then have "extends_but cur m m'" using m'(4) unfolding extends_but_def by auto
  ultimately show ?case using steps m' by auto
qed

lemma fastUnpack_correct:
  assumes "rt_wf m" "get_bytes str m = Inr (map Some s @ Some 0 # rest)" "0 \<notin> set s"
    and "length s < 2 ^ 31 - 1" "brk m + length s \<le> lim m" "length s \<le> fuel"
  shows "\<exists>p m'. fastUnpack fuel str m = Inr (p, m') \<and> list_at m' p (map char_val s) \<and>
    rt_wf m' \<and> extends m m' \<and> brk m' = brk m + length s \<and> lim m' = lim m"
proof (cases s)
  case Nil
  then show ?thesis
    using assms load_byte_string(2) [of str m "[]" rest] by (simp add: fastUnpack_def)
next
  case (Cons c t)
  have b: "brk m < lim m" using assms(5) Cons by simp
  let ?p = "addr_of (brk m)" and ?m2 = "alloc_obj (cell (Some (char_val c)) None) m"
  have fresh: "?p \<noteq> 0" "objs m ?p = None" "dynamic ?m2 ?p" "rt_wf ?m2"
    using mem_wf_fresh [OF rt_wf_mem_wf [OF assms(1)]] dynamic_fresh [OF assms(1)] rt_wf_alloc_obj [OF assms(1) b]
    by auto
  have c: "c \<noteq> 0" "load_byte str 0 m = Inr c"
    using assms(2,3) Cons load_byte_string(1) [OF assms(2), of 0] by auto
  have start: "fastUnpack fuel str m = bindr (fastUnpack_loop fuel str ?p 1 ?m2) (\<lambda>m3. Inr (?p, m3))"
    using c by (simp add: fastUnpack_def new_cell [OF assms(1) b])
  have "\<exists>m'. fastUnpack_loop fuel str ?p (int (length [c])) ?m2 = Inr m' \<and>
      list_at m' ?p (char_val c # map char_val t) \<and> rt_wf m' \<and> extends_but ?p ?m2 m' \<and>
      brk m' = brk ?m2 + length t \<and> lim m' = lim ?m2"
    using assms Cons fresh by (intro fastUnpack_loop_correct) (auto simp: get_bytes_eq_Inr)
  then obtain m' where m': "fastUnpack_loop fuel str ?p (int (length [c])) ?m2 = Inr m'"
    "list_at m' ?p (char_val c # map char_val t)" "rt_wf m'" "extends_but ?p ?m2 m'"
    "brk m' = brk ?m2 + length t" "lim m' = lim ?m2" by blast
  have "objs ?m2 q = Some v \<and> q \<noteq> ?p" if "objs m q = Some v" for q v
    using that fresh(2) by auto
  then have "extends m m'" using m'(4) by (auto simp: extends_but_def extends_def map_le_def)
  then show ?thesis using start m' Cons by auto
qed

section \<open>fastPack\<close>

lemma fastPack_count_correct:
  "list_at m p xs \<Longrightarrow> 0 \<le> l \<Longrightarrow> l + int (length xs) < 2 ^ 31 \<Longrightarrow> length xs < fuel \<Longrightarrow>
   fastPack_count fuel p l m = Inr (l + int (length xs))"
proof (induction xs arbitrary: p l fuel)
  case Nil
  then show ?case by (cases fuel) auto
next
  case (Cons x xs)
  then obtain q f where q: "get_arg p 1 m = Inr q" "list_at m q xs" "fuel = Suc f"
    by (cases fuel) auto
  have "c_add Int32 l 1 = Inr (l + 1)" using Cons.prems(2,3) by (simp add: c_add_Int32 in_range_code)
  with q Cons.IH [of q "l + 1" f] Cons.prems show ?case by (simp add: algebra_simps)
qed

definition byte_of :: "addr \<Rightarrow> byte" where
  "byte_of x = word_of_int (idris2_vp_to_Char x)"

text \<open>The bytes of a fresh block, and writing them one by one.\<close>

lemma alloc_blk_read:
  assumes "rt_wf m" "brk m < lim m"
  shows "get_bytes (addr_of (brk m)) (alloc_blk (Bytes bs) m) = Inr bs"
    "i < length bs \<Longrightarrow> store_byte (addr_of (brk m)) (int i) v (alloc_blk (Bytes bs) m) =
       Inr (alloc_blk (Bytes (bs[i := Some v])) m)"
  using mem_wf_fresh(3) [OF rt_wf_mem_wf [OF assms(1)]]
  by (simp_all add: get_bytes_def store_byte_def upd_res_def alloc_blk_def)

lemma fastPack_fill_correct:
  assumes "rt_wf m" "brk m < lim m"
  shows "list_at m p xs \<Longrightarrow> length us + length xs < 2 ^ 31 \<Longrightarrow> length xs < fuel \<Longrightarrow> length vs = length xs \<Longrightarrow>
   fastPack_fill fuel (addr_of (brk m)) p (int (length us)) (alloc_blk (Bytes (us @ vs @ [z])) m) =
   Inr (alloc_blk (Bytes (us @ map (\<lambda>x. Some (byte_of x)) xs @ [z])) m)"
proof (induction xs arbitrary: p us vs fuel)
  case Nil
  then show ?case by (cases fuel) auto
next
  case (Cons x xs)
  then obtain q f v ws where q: "get_arg p 0 m = Inr x" "get_arg p 1 m = Inr q" "list_at m q xs"
    "p \<noteq> 0" "fuel = Suc f" "vs = v # ws"
    by (cases fuel; cases vs) auto
  have ext: "extends m (alloc_blk b m)" for b
    using extends_alloc_blk [OF rt_wf_mem_wf [OF assms(1)]] .
  have "store_byte (addr_of (brk m)) (int (length us)) (byte_of x) (alloc_blk (Bytes (us @ vs @ [z])) m) =
      Inr (alloc_blk (Bytes ((us @ [Some (byte_of x)]) @ ws @ [z])) m)"
    using alloc_blk_read(2) [OF assms, of "length us" "us @ vs @ [z]"] q(6) by (simp add: list_update_append)
  moreover have "c_add Int32 (int (length us)) 1 = Inr (int (length (us @ [Some (byte_of x)])))"
    using Cons.prems(2) by (simp add: c_add_Int32 in_range_code)
  moreover have "fastPack_fill f (addr_of (brk m)) q (int (length (us @ [Some (byte_of x)])))
      (alloc_blk (Bytes ((us @ [Some (byte_of x)]) @ ws @ [z])) m) =
      Inr (alloc_blk (Bytes ((us @ [Some (byte_of x)]) @ map (\<lambda>x. Some (byte_of x)) xs @ [z])) m)"
    by (rule Cons.IH) (use q Cons.prems in auto)
  ultimately show ?case
    using q extends_get_arg [OF ext q(1)] extends_get_arg [OF ext q(2)]
    by (simp add: byte_of_def [symmetric])
qed

lemma fastPack_correct:
  assumes "rt_wf m" "brk m < lim m" "list_at m p xs" "length xs < 2 ^ 31 - 1" "length xs < fuel"
  shows "fastPack fuel p m =
    Inr (addr_of (brk m), alloc_blk (Bytes (map Some (map byte_of xs @ [0]))) m)"
proof -
  let ?n = "length xs"
  have "c_malloc (Suc ?n) m = (addr_of (brk m), alloc_blk (Bytes (replicate (Suc ?n) None)) m)"
    using assms(2,4) by (simp add: c_malloc_cases)
  moreover have "(replicate (Suc ?n) None)[?n := Some 0] = replicate ?n None @ [Some (0 :: byte)]"
    by (simp add: replicate_append_same [symmetric] list_update_append)
  then have "store_byte (addr_of (brk m)) (int ?n) 0 (alloc_blk (Bytes (replicate (Suc ?n) None)) m) =
      Inr (alloc_blk (Bytes (replicate ?n None @ [Some 0])) m)"
    using alloc_blk_read(2) [OF assms(1,2), of ?n "replicate (Suc ?n) None" 0] by simp
  moreover have "fastPack_fill fuel (addr_of (brk m)) p 0 (alloc_blk (Bytes (replicate ?n None @ [Some 0])) m) =
      Inr (alloc_blk (Bytes (map (\<lambda>x. Some (byte_of x)) xs @ [Some 0])) m)"
    using fastPack_fill_correct [OF assms(1,2,3), of "[]" fuel "replicate ?n None" "Some 0"] assms(4,5) by simp
  ultimately show ?thesis
    using fastPack_count_correct [OF assms(3), of 0 fuel] assms(4,5)
    by (simp add: fastPack_def c_add_Int32 in_range_code add.commute comp_def del: replicate_Suc)
qed

lemma byte_of_char_val [simp]: "byte_of (char_val b) = b"
proof -
  have "word_of_int (c_conv Char (sint b)) = (word_of_int (sint b) :: byte)"
    by (rule bit_word_eqI) (simp add: c_conv_def bit_simps)
  then show ?thesis by (simp add: byte_of_def)
qed


lemma static_bytes_sample:
  "get_bytes (addr_of 304) (init_mem 1000) = Inr (map Some [0x4C, 0x69, 0x6E, 0x75, 0x78] @ [Some 0])"
  by (simp add: get_bytes_def init_mem_def unat_addr_of static_blk_def addr_of_nonzero)


section \<open>fastConcat\<close>

definition strings_at :: "mem \<Rightarrow> addr list \<Rightarrow> byte list list \<Rightarrow> bool" where
  "strings_at m xs ss \<longleftrightarrow> list_all2 (\<lambda>x s. string_of x m = Inr s) xs ss"

lemma fastConcat_length_correct:
  "list_at m p xs \<Longrightarrow> strings_at m xs ss \<Longrightarrow> 0 \<le> l \<Longrightarrow> l + int (length (concat ss)) < 2 ^ 31 \<Longrightarrow>
   length xs < fuel \<Longrightarrow> fastConcat_length fuel p l m = Inr (l + int (length (concat ss)))"
proof (induction xs arbitrary: p l fuel ss)
  case Nil
  then show ?case by (cases fuel) (auto simp: strings_at_def)
next
  case (Cons x xs)
  then obtain q f s ts where q: "get_arg p 0 m = Inr x" "get_arg p 1 m = Inr q" "list_at m q xs" "p \<noteq> 0"
    "fuel = Suc f" "ss = s # ts" "string_of x m = Inr s" "strings_at m xs ts"
    by (cases fuel; cases ss) (auto simp: strings_at_def)
  obtain d rest where d: "get_str x m = Inr d" "c_strlen d 0 m = Inr (length s)"
    using string_ofE [OF q(7)] by metis
  have "c_conv Int32 (l + int (length s)) = l + int (length s)"
    using Cons.prems(3,4) q(6) by (simp add: in_range_code)
  with q d Cons.IH [OF q(3,8), of "l + int (length s)" f] Cons.prems(3-5) show ?case
    by (simp add: algebra_simps)
qed

lemma fastConcat_fill_correct:
  assumes "rt_wf m" "brk m < lim m"
  shows "list_at m p xs \<Longrightarrow> strings_at m xs ss \<Longrightarrow> length us + length (concat ss) < 2 ^ 31 \<Longrightarrow>
   length xs < fuel \<Longrightarrow> length vs = length (concat ss) \<Longrightarrow>
   fastConcat_fill fuel (addr_of (brk m)) p (int (length us)) (alloc_blk (Bytes (us @ vs @ [z])) m) =
   Inr (alloc_blk (Bytes (us @ map Some (concat ss) @ [z])) m)"
proof (induction xs arbitrary: p us vs ss fuel)
  case Nil
  then show ?case by (cases fuel) (auto simp: strings_at_def)
next
  case (Cons x xs)
  then obtain q f s ts where q: "get_arg p 0 m = Inr x" "get_arg p 1 m = Inr q" "list_at m q xs" "p \<noteq> 0"
    "fuel = Suc f" "ss = s # ts" "string_of x m = Inr s" "strings_at m xs ts"
    by (cases fuel; cases ss) (auto simp: strings_at_def)
  obtain d rest where d: "get_str x m = Inr d" "get_bytes d m = Inr (map Some s @ Some 0 # rest)"
    "c_strlen d 0 m = Inr (length s)" using string_ofE [OF q(7)] by metis
  have ext: "extends m (alloc_blk b m)" for b
    using extends_alloc_blk [OF rt_wf_mem_wf [OF assms(1)]] .
  let ?us = "us @ map Some s" and ?ws = "drop (length s) vs"
  have ne: "addr_of (brk m) \<noteq> d"
    using mem_wf_fresh(2) [OF rt_wf_mem_wf [OF assms(1)]] d(2) by (auto simp: get_bytes_eq_Inr)
  have vs: "length s \<le> length vs" using Cons.prems(5) q(6) by simp
  have len: "int_strlen d (alloc_blk b m) = Inr (int (length s))" for b
    using extends_c_strlen [OF ext d(3)] Cons.prems(3) q(6) by (intro int_strlen_value) auto
  have "c_memcpy (addr_of (brk m)) (int (length us)) d 0 (length s) (alloc_blk (Bytes (us @ vs @ [z])) m) =
      Inr (alloc_blk (Bytes (?us @ ?ws @ [z])) m)"
    using alloc_blk_read(1) [OF assms] extends_get_bytes [OF ext d(2)] ne vs
    by (simp add: c_memcpy_def alloc_blk_def)
  moreover have "c_add Int32 (int (length us)) (int (length s)) = Inr (int (length ?us))"
    using Cons.prems(3) q(6) by (simp add: c_add_Int32 in_range_code)
  moreover have "fastConcat_fill f (addr_of (brk m)) q (int (length ?us)) (alloc_blk (Bytes (?us @ ?ws @ [z])) m) =
      Inr (alloc_blk (Bytes (?us @ map Some (concat ts) @ [z])) m)"
    by (rule Cons.IH [OF q(3,8)]) (use q Cons.prems in auto)
  ultimately show ?case
    using q len extends_get_arg [OF ext q(1)] extends_get_arg [OF ext q(2)] extends_get_str [OF ext d(1)]
      Cons.prems(3)
    by simp
qed



end
