(* ===== verification/Buffer.thy ===== *)
theory Buffer
  imports List_Conversion
begin

text \<open>
  \<open>refc/buffer.c\<close> and \<open>refc/buffer.h\<close>: byte buffers.

  A \<open>Buffer\<close> is a block of \<open>4 + size\<close> bytes: the \<open>int\<close> member \<open>size\<close> (little endian, as on the supported
  platforms) and the flexible array \<open>data\<close>, which starts at offset 4. An argument of type \<open>int\<close> or
  \<open>size_t\<close> is an integer in the range of that type.
\<close>

primrec le_bytes :: "nat \<Rightarrow> int \<Rightarrow> byte list" where
  "le_bytes 0 v = []"
| "le_bytes (Suc n) v = word_of_int v # le_bytes n (v div 256)"

primrec le_value :: "byte list \<Rightarrow> int" where
  "le_value [] = 0"
| "le_value (b # bs) = uint b + 256 * le_value bs"

text \<open>Access to an \<open>int\<close> member of a struct in raw memory.\<close>

definition store_int :: "addr \<Rightarrow> int \<Rightarrow> int \<Rightarrow> mem \<Rightarrow> mem res" where
  "store_int p off v m = c_store_bytes p off (le_bytes 4 v) m"

definition load_int :: "addr \<Rightarrow> int \<Rightarrow> mem \<Rightarrow> int res" where
  "load_int p off m =
     bindr (load_byte p off m) (\<lambda>a. bindr (load_byte p (off + 1) m) (\<lambda>b.
     bindr (load_byte p (off + 2) m) (\<lambda>c. bindr (load_byte p (off + 3) m) (\<lambda>d.
     Inr (c_conv Int32 (le_value [a, b, c, d]))))))"

definition c_memset_at :: "addr \<Rightarrow> int \<Rightarrow> byte \<Rightarrow> nat \<Rightarrow> mem \<Rightarrow> mem res" where
  "c_memset_at p off v n m = c_store_bytes p off (replicate n v) m"

text \<open>\<open>strncpy(dst, src + soff, n)\<close>: at most \<open>n\<close> bytes up to the first zero, then zeros.\<close>

fun strncpy_bytes :: "nat \<Rightarrow> byte option list \<Rightarrow> byte list res" where
  "strncpy_bytes 0 src = Inr []"
| "strncpy_bytes (Suc n) [] = Inl (Undefined Out_of_bounds)"
| "strncpy_bytes (Suc n) (None # src) = Inl (Undefined Uninitialised)"
| "strncpy_bytes (Suc n) (Some c # src) =
     (if c = 0 then Inr (replicate (Suc n) 0)
      else bindr (strncpy_bytes n src) (\<lambda>s. Inr (c # s)))"

definition c_strncpy :: "addr \<Rightarrow> addr \<Rightarrow> int \<Rightarrow> nat \<Rightarrow> mem \<Rightarrow> mem res" where
  "c_strncpy dst src soff n m =
     bindr (get_bytes src m) (\<lambda>ss.
     if 0 \<le> soff \<and> soff \<le> int (length ss)
     then bindr (strncpy_bytes n (drop (nat soff) ss)) (\<lambda>s. c_store_bytes dst 0 s m)
     else Inl (Undefined Out_of_bounds))"

subsection \<open>Operations\<close>

definition newBuffer :: "int \<Rightarrow> mem \<Rightarrow> (addr \<times> mem) res" where
  "newBuffer bytes m =
     (let (buf, m1) = c_malloc (c_size (4 + bytes)) m in
      if buf = 0 then Inr (0, m1)
      else bindr (store_int buf 0 bytes m1) (\<lambda>m2.
           bindr (c_memset_at buf 4 0 (c_size bytes) m2) (\<lambda>m3. Inr (buf, m3))))"

definition getBufferSize :: "addr \<Rightarrow> mem \<Rightarrow> int res" where
  "getBufferSize buffer m = load_int buffer 0 m"

definition assert_valid_range :: "addr \<Rightarrow> int \<Rightarrow> int \<Rightarrow> mem \<Rightarrow> unit res" where
  "assert_valid_range buf offset len m =
     bindr (checkr (offset \<ge> 0)) (\<lambda>_.
     bindr (checkr (len \<ge> 0)) (\<lambda>_.
     bindr (c_add Int64 offset len) (\<lambda>e.
     bindr (load_int buf 0 m) (\<lambda>sz. checkr (e \<le> sz)))))"

definition copyBuffer :: "addr \<Rightarrow> int \<Rightarrow> int \<Rightarrow> addr \<Rightarrow> int \<Rightarrow> mem \<Rightarrow> mem res" where
  "copyBuffer bfrom from_offset len bto to_offset m =
     bindr (assert_valid_range bfrom from_offset len m) (\<lambda>_.
     bindr (assert_valid_range bto to_offset len m) (\<lambda>_.
     c_memcpy bto (4 + to_offset) bfrom (4 + from_offset) (c_size len) m))"

text \<open>\<open>while (len--) { data[loc++] = (uint8_t)val; val >>= 8; }\<close>\<close>

primrec set_le_loop :: "nat \<Rightarrow> addr \<Rightarrow> int \<Rightarrow> 64 word \<Rightarrow> mem \<Rightarrow> mem res" where
  "set_le_loop 0 b loc val m = Inr m"
| "set_le_loop (Suc len) b loc val m =
     bindr (store_byte b (4 + loc) (ucast val) m) (\<lambda>m1.
     bindr (c_add Int32 loc 1) (\<lambda>loc1. set_le_loop len b loc1 (drop_bit 8 val) m1))"

definition setBufferUIntLE :: "addr \<Rightarrow> int \<Rightarrow> 64 word \<Rightarrow> nat \<Rightarrow> mem \<Rightarrow> mem res" where
  "setBufferUIntLE b loc val len m =
     bindr (assert_valid_range b loc (c_conv Int64 (int len)) m) (\<lambda>_. set_le_loop len b loc val m)"

text \<open>\<open>while (len--) { r <<= 8; r += (uint8_t)data[--loc]; }\<close>\<close>

primrec get_le_loop :: "nat \<Rightarrow> addr \<Rightarrow> int \<Rightarrow> 64 word \<Rightarrow> mem \<Rightarrow> 64 word res" where
  "get_le_loop 0 b loc r m = Inr r"
| "get_le_loop (Suc len) b loc r m =
     bindr (c_sub Int32 loc 1) (\<lambda>loc1.
     bindr (load_byte b (4 + loc1) m) (\<lambda>c. get_le_loop len b loc1 (push_bit 8 r + ucast c) m))"

definition getBufferUIntLE :: "addr \<Rightarrow> int \<Rightarrow> nat \<Rightarrow> mem \<Rightarrow> 64 word res" where
  "getBufferUIntLE b loc len m =
     bindr (assert_valid_range b loc (c_conv Int64 (int len)) m) (\<lambda>_.
     get_le_loop len b (c_conv Int32 (c_conv Bits64 (loc + int len))) 0 m)"

definition setBufferUInt8 :: "addr \<Rightarrow> int \<Rightarrow> int \<Rightarrow> mem \<Rightarrow> mem res" where
  "setBufferUInt8 b l v m = setBufferUIntLE b l (word_of_int v) 1 m"

definition setBufferUInt16LE :: "addr \<Rightarrow> int \<Rightarrow> int \<Rightarrow> mem \<Rightarrow> mem res" where
  "setBufferUInt16LE b l v m = setBufferUIntLE b l (word_of_int v) 2 m"

definition setBufferUInt32LE :: "addr \<Rightarrow> int \<Rightarrow> int \<Rightarrow> mem \<Rightarrow> mem res" where
  "setBufferUInt32LE b l v m = setBufferUIntLE b l (word_of_int v) 4 m"

definition setBufferUInt64LE :: "addr \<Rightarrow> int \<Rightarrow> int \<Rightarrow> mem \<Rightarrow> mem res" where
  "setBufferUInt64LE b l v m = setBufferUIntLE b l (word_of_int v) 8 m"

definition setBufferByte :: "addr \<Rightarrow> int \<Rightarrow> int \<Rightarrow> mem \<Rightarrow> mem res" where
  "setBufferByte b l v m = setBufferUIntLE b l (word_of_int v) 1 m"

definition setBufferInt16LE :: "addr \<Rightarrow> int \<Rightarrow> int \<Rightarrow> mem \<Rightarrow> mem res" where
  "setBufferInt16LE b l v m = setBufferUIntLE b l (word_of_int v) 2 m"

definition setBufferInt32LE :: "addr \<Rightarrow> int \<Rightarrow> int \<Rightarrow> mem \<Rightarrow> mem res" where
  "setBufferInt32LE b l v m = setBufferUIntLE b l (word_of_int v) 4 m"

definition setBufferInt64LE :: "addr \<Rightarrow> int \<Rightarrow> int \<Rightarrow> mem \<Rightarrow> mem res" where
  "setBufferInt64LE b l v m = setBufferUIntLE b l (word_of_int v) 8 m"

definition getBufferUInt8 :: "addr \<Rightarrow> int \<Rightarrow> mem \<Rightarrow> int res" where
  "getBufferUInt8 b l m = bindr (getBufferUIntLE b l 1 m) (\<lambda>r. Inr (c_conv Bits8 (uint r)))"

definition getBufferUInt16LE :: "addr \<Rightarrow> int \<Rightarrow> mem \<Rightarrow> int res" where
  "getBufferUInt16LE b l m = bindr (getBufferUIntLE b l 2 m) (\<lambda>r. Inr (c_conv Bits16 (uint r)))"

definition getBufferUInt32LE :: "addr \<Rightarrow> int \<Rightarrow> mem \<Rightarrow> int res" where
  "getBufferUInt32LE b l m = bindr (getBufferUIntLE b l 4 m) (\<lambda>r. Inr (c_conv Bits32 (uint r)))"

definition getBufferUInt64LE :: "addr \<Rightarrow> int \<Rightarrow> mem \<Rightarrow> int res" where
  "getBufferUInt64LE b l m = bindr (getBufferUIntLE b l 8 m) (\<lambda>r. Inr (c_conv Bits64 (uint r)))"

definition getBufferByte :: "addr \<Rightarrow> int \<Rightarrow> mem \<Rightarrow> int res" where
  "getBufferByte b l m = bindr (getBufferUIntLE b l 1 m) (\<lambda>r. Inr (c_conv Int64 (uint r)))"

definition getBufferInt16LE :: "addr \<Rightarrow> int \<Rightarrow> mem \<Rightarrow> int res" where
  "getBufferInt16LE b l m = bindr (getBufferUIntLE b l 2 m) (\<lambda>r. Inr (c_conv Int64 (uint r)))"

definition getBufferInt32LE :: "addr \<Rightarrow> int \<Rightarrow> mem \<Rightarrow> int res" where
  "getBufferInt32LE b l m = bindr (getBufferUIntLE b l 4 m) (\<lambda>r. Inr (c_conv Int64 (uint r)))"

definition getBufferInt64LE :: "addr \<Rightarrow> int \<Rightarrow> mem \<Rightarrow> int res" where
  "getBufferInt64LE b l m = bindr (getBufferUIntLE b l 8 m) (\<lambda>r. Inr (c_conv Int64 (uint r)))"

definition setBufferDouble :: "addr \<Rightarrow> int \<Rightarrow> 64 word \<Rightarrow> mem \<Rightarrow> mem res" where
  "setBufferDouble buffer loc d m = setBufferUIntLE buffer loc d 8 m"

definition getBufferDouble :: "addr \<Rightarrow> int \<Rightarrow> mem \<Rightarrow> 64 word res" where
  "getBufferDouble buffer loc m = getBufferUIntLE buffer loc 8 m"

definition setBufferString :: "addr \<Rightarrow> int \<Rightarrow> addr \<Rightarrow> mem \<Rightarrow> mem res" where
  "setBufferString b loc str m =
     bindr (c_strlen str 0 m) (\<lambda>len.
     bindr (assert_valid_range b loc (c_conv Int64 (int len)) m) (\<lambda>_.
     c_memcpy b (4 + loc) str 0 len m))"

definition getBufferString :: "addr \<Rightarrow> int \<Rightarrow> int \<Rightarrow> mem \<Rightarrow> (addr \<times> mem) res" where
  "getBufferString b loc len m =
     bindr (assert_valid_range b loc len m) (\<lambda>_.
     bindr (c_add Int32 len 1) (\<lambda>len1.
     let (rs, m1) = c_malloc (c_size len1) m in
     bindr (c_strncpy rs b (4 + loc) (c_size len) m1) (\<lambda>m2.
     bindr (store_byte rs len 0 m2) (\<lambda>m3. Inr (rs, m3)))))"

section \<open>Little-endian numbers\<close>

lemma length_le_bytes [simp]: "length (le_bytes n v) = n"
  by (induction n arbitrary: v) simp_all

lemma le_value_le_bytes: "le_value (le_bytes n v) = v mod 256 ^ n"
proof (induction n arbitrary: v)
  case (Suc n)
  have "uint (word_of_int v :: byte) = v mod 256" by (simp add: uint_word_of_int)
  then show ?case using Suc by (simp add: mod_mult2_eq [symmetric] zmod_zmult2_eq)
qed simp

section \<open>A buffer in memory\<close>

definition buffer_at :: "addr \<Rightarrow> byte option list \<Rightarrow> mem \<Rightarrow> bool" where
  "buffer_at b ds m \<longleftrightarrow>
     get_bytes b m = Inr (map Some (le_bytes 4 (int (length ds))) @ ds) \<and> length ds < 2 ^ 31"

text \<open>The memory in which the buffer at \<open>b\<close> has the contents \<open>ds\<close>.\<close>

definition put_buffer :: "addr \<Rightarrow> byte option list \<Rightarrow> mem \<Rightarrow> mem" where
  "put_buffer b ds m =
     m\<lparr>blks := (blks m)(b \<mapsto> Bytes (map Some (le_bytes 4 (int (length ds))) @ ds))\<rparr>"

lemma le_bytes_4: "le_bytes 4 v =
    [word_of_int v, word_of_int (v div 256), word_of_int (v div 256 div 256), word_of_int (v div 256 div 256 div 256)]"
  by (simp add: numeral_eq_Suc)

lemma buffer_size:
  assumes "buffer_at b ds m"
  shows "load_int b 0 m = Inr (int (length ds))"
proof -
  have bs: "get_bytes b m = Inr (map Some (le_bytes 4 (int (length ds))) @ ds)"
    using assms by (simp add: buffer_at_def)
  have "le_value (le_bytes 4 (int (length ds))) = int (length ds)"
    using assms by (simp add: le_value_le_bytes buffer_at_def)
  moreover have "c_conv Int32 (int (length ds)) = int (length ds)"
    using assms by (simp add: buffer_at_def in_range_code)
  ultimately show ?thesis
    using bs unfolding le_bytes_4 by (simp add: load_int_def load_byte_def nth_res_def)
qed

lemma assert_valid_range_cases:
  assumes "buffer_at b ds m" "in_range Int32 off" "in_range Int64 len"
  shows "assert_valid_range b off len m =
    (if 0 \<le> off \<and> 0 \<le> len \<and> off + len \<le> int (length ds) then Inr ()
     else if 0 \<le> off \<and> 0 \<le> len \<and> off + len > 9223372036854775807 then Inl (Undefined Int_overflow)
     else Inl Verify_failed)"
  using assms
  by (auto simp: assert_valid_range_def buffer_size [OF assms(1)] c_add_def c_promote_def c_fit_def
      in_range_code checkr_def buffer_at_def)

lemma buffer_byte:
  assumes "buffer_at b ds m" "0 \<le> i" "i < int (length ds)"
  shows "load_byte b (4 + i) m = (case ds ! nat i of None \<Rightarrow> Inl (Undefined Uninitialised) | Some c \<Rightarrow> Inr c)"
    "store_byte b (4 + i) v m = Inr (put_buffer b (ds[nat i := Some v]) m)"
    "buffer_at b (ds[nat i := Some v]) (put_buffer b (ds[nat i := Some v]) m)"
proof -
  have "nat (4 + i) = 4 + nat i" using assms(2) by simp
  then show "load_byte b (4 + i) m = (case ds ! nat i of None \<Rightarrow> Inl (Undefined Uninitialised) | Some c \<Rightarrow> Inr c)"
    "store_byte b (4 + i) v m = Inr (put_buffer b (ds[nat i := Some v]) m)"
    using assms
    by (simp_all add: load_byte_def store_byte_def buffer_at_def nth_res_def upd_res_def nth_append
        list_update_append put_buffer_def)
  show "buffer_at b (ds[nat i := Some v]) (put_buffer b (ds[nat i := Some v]) m)"
    using assms by (simp add: buffer_at_def put_buffer_def get_bytes_eq_Inr)
qed

lemma put_buffer_twice [simp]: "put_buffer b ds (put_buffer b ds' m) = put_buffer b ds m"
  by (simp add: put_buffer_def)

lemma put_buffer_same: "buffer_at b ds m \<Longrightarrow> put_buffer b ds m = m"
  by (simp add: buffer_at_def put_buffer_def get_bytes_eq_Inr fun_upd_idem)

lemma buffer_at_put:
  "buffer_at b ds m \<Longrightarrow> length ds' = length ds \<Longrightarrow> buffer_at b ds' (put_buffer b ds' m)"
  by (simp add: buffer_at_def put_buffer_def get_bytes_eq_Inr)

lemma ucast_byte: "(ucast val :: byte) = word_of_int (uint val)" for val :: "64 word"
  by (rule bit_word_eqI) (simp add: bit_simps)

lemma set_le_loop_correct:
  assumes "buffer_at b ds m" "0 \<le> loc" "loc + int n \<le> int (length ds)"
  shows "set_le_loop n b loc val m =
    Inr (put_buffer b (take (nat loc) ds @ map Some (le_bytes n (uint val)) @ drop (nat loc + n) ds) m)"
  using assms
proof (induction n arbitrary: loc val ds m)
  case 0
  then show ?case by (simp add: put_buffer_same)
next
  case (Suc n)
  let ?ds = "ds[nat loc := Some (ucast val)]"
  have i: "nat loc < length ds" "nat (loc + 1) = Suc (nat loc)" using Suc.prems(2,3) by auto
  have "c_add Int32 loc 1 = Inr (loc + 1)"
    using Suc.prems by (simp add: c_add_Int32 in_range_code buffer_at_def)
  then have "set_le_loop (Suc n) b loc val m = set_le_loop n b (loc + 1) (drop_bit 8 val) (put_buffer b ?ds m)"
    using buffer_byte(2) [OF Suc.prems(1,2)] Suc.prems(3) by simp
  also have "\<dots> = Inr (put_buffer b (take (nat (loc + 1)) ?ds @
      map Some (le_bytes n (uint (drop_bit 8 val))) @ drop (nat (loc + 1) + n) ?ds) (put_buffer b ?ds m))"
    using buffer_byte(3) [OF Suc.prems(1,2)] Suc.prems by (intro Suc.IH) simp_all
  also have "uint (drop_bit 8 val) = uint val div 256"
    by (simp add: drop_bit_eq_div uint_div)
  also have "take (nat (loc + 1)) ?ds = take (nat loc) ds @ [Some (ucast val)]"
    using i by (simp add: take_Suc_update)
  also have "drop (nat (loc + 1) + n) ?ds = drop (nat loc + Suc n) ds"
    using i(2) by simp
  also have "(take (nat loc) ds @ [Some (ucast val)]) @ map Some (le_bytes n (uint val div 256)) @
      drop (nat loc + Suc n) ds =
    take (nat loc) ds @ map Some (le_bytes (Suc n) (uint val)) @ drop (nat loc + Suc n) ds"
    by (simp only: le_bytes.simps ucast_byte list.map append.simps append_assoc)
  finally show ?case by simp
qed

lemma le_value_snoc: "le_value (cs @ [c]) = le_value cs + 256 ^ length cs * uint c"
  by (induction cs) (simp_all add: algebra_simps)

lemma get_le_loop_correct:
  assumes "buffer_at b ds m" "0 \<le> loc" "loc + int (length cs) \<le> int (length ds)"
    and "take (length cs) (drop (nat loc) ds) = map Some cs"
  shows "get_le_loop (length cs) b (loc + int (length cs)) r m =
    Inr (push_bit (8 * length cs) r + word_of_int (le_value cs))"
  using assms
proof (induction cs arbitrary: r rule: rev_induct)
  case (snoc c cs)
  let ?n = "length cs"
  have "c_sub Int32 (loc + int (Suc ?n)) 1 = Inr (loc + int ?n)"
    using snoc.prems by (simp add: c_sub_Int32 in_range_code buffer_at_def)
  moreover have n: "ds ! (nat loc + ?n) = Some c" "take ?n (drop (nat loc) ds) = map Some cs"
  proof -
    have len: "Suc ?n \<le> length (drop (nat loc) ds)" using snoc.prems(2,3) by simp
    then have eq: "take ?n (drop (nat loc) ds) @ [drop (nat loc) ds ! ?n] = map Some cs @ [Some c]"
      using snoc.prems(4) by (simp add: take_Suc_conv_app_nth)
    with len show "ds ! (nat loc + ?n) = Some c" "take ?n (drop (nat loc) ds) = map Some cs"
      by (simp_all add: nth_drop)
  qed
  have "nat (loc + int ?n) = nat loc + ?n" using snoc.prems(2) by simp
  then have "load_byte b (4 + (loc + int ?n)) m = Inr c"
    using buffer_byte(1) [OF snoc.prems(1), of "loc + int ?n"] snoc.prems(2,3) n(1) by simp
  moreover have "get_le_loop ?n b (loc + int ?n) (push_bit 8 r + ucast c) m =
      Inr (push_bit (8 * ?n) (push_bit 8 r + ucast c) + word_of_int (le_value cs))"
    using snoc.prems n(2) by (intro snoc.IH) simp_all
  moreover have "push_bit (8 * ?n) (ucast c :: 64 word) = word_of_int (256 ^ ?n * uint c)"
  proof -
    have "(2::64 word) ^ (8 * ?n) = 256 ^ ?n" by (simp add: power_mult)
    moreover have "(ucast c :: 64 word) = word_of_int (uint c)" by simp
    ultimately show ?thesis by (simp add: push_bit_eq_mult mult.commute)
  qed
  ultimately show ?case
    by (simp add: le_value_snoc push_bit_add push_bit_push_bit algebra_simps)
qed simp

text \<open>The effect of a write, and its failure outside the buffer.\<close>

lemma setBufferUIntLE_cases:
  assumes "buffer_at b ds m" "in_range Int32 loc" "len \<le> 8"
  shows "setBufferUIntLE b loc val len m =
    (if 0 \<le> loc \<and> loc + int len \<le> int (length ds)
     then Inr (put_buffer b (take (nat loc) ds @ map Some (le_bytes len (uint val)) @ drop (nat loc + len) ds) m)
     else Inl Verify_failed)"
proof -
  have r: "in_range Int64 (int len)" "c_conv Int64 (int len) = int len"
    using assms(3) by (simp_all add: in_range_code)
  show ?thesis
    using assms(2,3) set_le_loop_correct [OF assms(1)]
    by (simp add: setBufferUIntLE_def r(2) assert_valid_range_cases [OF assms(1,2) r(1)] in_range_code)
qed

lemma getBufferUIntLE_cases:
  assumes "buffer_at b ds m" "in_range Int32 loc" "length cs \<le> 8"
    and "0 \<le> loc \<Longrightarrow> loc + int (length cs) \<le> int (length ds) \<Longrightarrow>
      take (length cs) (drop (nat loc) ds) = map Some cs"
  shows "getBufferUIntLE b loc (length cs) m =
    (if 0 \<le> loc \<and> loc + int (length cs) \<le> int (length ds) then Inr (word_of_int (le_value cs))
     else Inl Verify_failed)"
proof -
  have r: "in_range Int64 (int (length cs))" "c_conv Int64 (int (length cs)) = int (length cs)"
    using assms(3) by (simp_all add: in_range_code)
  have "c_conv Int32 (loc + int (length cs)) = loc + int (length cs)"
    if "0 \<le> loc" "loc + int (length cs) \<le> int (length ds)"
    using that assms(1) by (simp add: in_range_code buffer_at_def)
  then show ?thesis
    using assms(2-4) get_le_loop_correct [OF assms(1), of loc cs 0]
    by (simp add: getBufferUIntLE_def r(2) assert_valid_range_cases [OF assms(1,2) r(1)] in_range_code)
qed

text \<open>Writing a number and reading it back.\<close>

lemma buffer_write_read:
  assumes "buffer_at b ds m" "0 \<le> loc" "loc + int len \<le> int (length ds)" "len \<le> 8"
  shows "\<exists>m' ds'. setBufferUIntLE b loc val len m = Inr m' \<and>
    getBufferUIntLE b loc len m' = Inr (take_bit (8 * len) val) \<and>
    buffer_at b ds' m' \<and> length ds' = length ds \<and>
    (\<forall>i < length ds. i < nat loc \<or> nat loc + len \<le> i \<longrightarrow> ds' ! i = ds ! i) \<and>
    objs m' = objs m \<and> (\<forall>q. q \<noteq> b \<longrightarrow> blks m' q = blks m q)"
proof -
  let ?cs = "le_bytes len (uint val)"
  define ds' where "ds' = take (nat loc) ds @ map Some ?cs @ drop (nat loc + len) ds"
  let ?m' = "put_buffer b ds' m"
  have r: "in_range Int32 loc" using assms by (simp add: in_range_code buffer_at_def)
  have len: "length ds' = length ds" "nat loc + len \<le> length ds" "length (take (nat loc) ds) = nat loc"
    using assms(2,3) by (auto simp: ds'_def)
  have at: "buffer_at b ds' ?m'" using buffer_at_put [OF assms(1) len(1)] .
  have "setBufferUIntLE b loc val len m = Inr ?m'"
    using setBufferUIntLE_cases [OF assms(1) r assms(4)] assms(2,3) by (simp add: ds'_def)
  moreover have "getBufferUIntLE b loc len ?m' = Inr (take_bit (8 * len) val)"
  proof -
    have "take len (drop (nat loc) ds') = map Some ?cs" using len(3) by (simp add: ds'_def)
    moreover have "word_of_int (le_value ?cs) = take_bit (8 * len) val"
    proof -
      have "(256::int) ^ len = 2 ^ (8 * len)" by (simp add: power_mult)
      then have "le_value ?cs = take_bit (8 * len) (uint val)" by (simp add: le_value_le_bytes take_bit_eq_mod)
      then show ?thesis by (simp add: of_int_take_bit)
    qed
    ultimately show ?thesis
      using getBufferUIntLE_cases [OF at r, of ?cs] assms(2-4) len(1) by simp
  qed
  moreover have "ds' ! i = ds ! i" if "i < length ds" "i < nat loc \<or> nat loc + len \<le> i" for i
    using that len by (auto simp: ds'_def nth_append)
  ultimately show ?thesis using at len(1) by (intro exI [of _ ?m'] exI [of _ ds']) (simp add: put_buffer_def)
qed

section \<open>Properties\<close>

text \<open>C17. Writing the low \<open>len\<close> bytes of a number at a valid position of a buffer and reading \<open>len\<close>
  bytes there returns the number reduced to \<open>8 * len\<close> bits; the size of the buffer and the bytes outside
  the written range are unchanged, and no other block is touched.\<close>

theorem buffer_le_roundtrip:
  assumes "buffer_at b ds m" "0 \<le> loc" "loc + int len \<le> int (length ds)" "len \<le> 8"
  shows "\<exists>m' ds'. setBufferUIntLE b loc val len m = Inr m' \<and>
    getBufferUIntLE b loc len m' = Inr (take_bit (8 * len) val) \<and>
    buffer_at b ds' m' \<and> length ds' = length ds \<and>
    (\<forall>i < length ds. i < nat loc \<or> nat loc + len \<le> i \<longrightarrow> ds' ! i = ds ! i) \<and>
    objs m' = objs m \<and> (\<forall>q. q \<noteq> b \<longrightarrow> blks m' q = blks m q)"
  using buffer_write_read [OF assms] .

lemma buffer_access_cases:
  assumes "buffer_at b (map Some bs) m" "in_range Int32 loc" "len \<le> 8"
  shows "getBufferUIntLE b loc len m =
      (if 0 \<le> loc \<and> loc + int len \<le> int (length bs)
       then Inr (word_of_int (le_value (take len (drop (nat loc) bs)))) else Inl Verify_failed)"
    and "\<exists>bs' m'. setBufferUIntLE b loc val len m =
      (if 0 \<le> loc \<and> loc + int len \<le> int (length bs) then Inr m' else Inl Verify_failed) \<and>
      buffer_at b (map Some bs') m' \<and> length bs' = length bs"
proof -
  show "getBufferUIntLE b loc len m =
      (if 0 \<le> loc \<and> loc + int len \<le> int (length bs)
       then Inr (word_of_int (le_value (take len (drop (nat loc) bs)))) else Inl Verify_failed)"
  proof (cases "0 \<le> loc \<and> loc + int len \<le> int (length bs)")
    case True
    then have "length (take len (drop (nat loc) bs)) = len" by auto
    then show ?thesis
      using getBufferUIntLE_cases [OF assms(1,2), of "take len (drop (nat loc) bs)"] assms(3) True
      by (simp add: take_map drop_map)
  next
    case False
    then show ?thesis
      using getBufferUIntLE_cases [OF assms(1,2), of "replicate len 0"] assms(3) by (auto split: if_splits)
  qed
  let ?bs = "take (nat loc) bs @ le_bytes len (uint val) @ drop (nat loc + len) bs"
  show "\<exists>bs' m'. setBufferUIntLE b loc val len m =
      (if 0 \<le> loc \<and> loc + int len \<le> int (length bs) then Inr m' else Inl Verify_failed) \<and>
      buffer_at b (map Some bs') m' \<and> length bs' = length bs"
  proof (cases "0 \<le> loc \<and> loc + int len \<le> int (length bs)")
    case True
    then have "length ?bs = length bs" by auto
    moreover from this have "buffer_at b (map Some ?bs) (put_buffer b (map Some ?bs) m)"
      using buffer_at_put [OF assms(1), of "map Some ?bs"] by simp
    moreover have "setBufferUIntLE b loc val len m = Inr (put_buffer b (map Some ?bs) m)"
      using setBufferUIntLE_cases [OF assms] True by (simp add: take_map drop_map)
    ultimately show ?thesis
      using True by (intro exI [of _ ?bs] exI [of _ "put_buffer b (map Some ?bs) m"]) simp
  next
    case False
    then have "setBufferUIntLE b loc val len m = Inl Verify_failed"
      using setBufferUIntLE_cases [OF assms] by simp
    with False assms(1) show ?thesis by (intro exI [of _ bs] exI [of _ m]) simp
  qed
qed


text \<open>A new buffer has the requested size and holds zeros.\<close>

lemma newBuffer_result:
  assumes "rt_wf m" "0 \<le> n" "n < 2 ^ 31"
  shows "newBuffer n m =
    (if brk m < lim m
     then Inr (addr_of (brk m),
       alloc_blk (Bytes (map Some (le_bytes 4 n) @ replicate (nat n) (Some 0))) m)
     else Inr (0, m))"
proof -
  have n: "nat (4 + n) = 4 + nat n" "c_size (4 + n) = 4 + nat n" "c_size n = nat n"
    using assms(2,3) by simp_all
  have m: "c_malloc (4 + nat n) m =
      (if brk m < lim m then (addr_of (brk m), alloc_blk (Bytes (replicate (4 + nat n) None)) m) else (0, m))"
    using assms(3) by (intro c_malloc_cases) simp
  show ?thesis
  proof (cases "brk m < lim m")
    case True
    have "store_int (addr_of (brk m)) 0 n (alloc_blk (Bytes (replicate (4 + nat n) None)) m) =
        Inr (alloc_blk (Bytes (map Some (le_bytes 4 n) @ replicate (nat n) None)) m)"
      using alloc_blk_read(1) [OF assms(1) True]
      by (simp add: store_int_def c_store_bytes_def alloc_blk_def)
    moreover have "c_memset_at (addr_of (brk m)) 4 0 (nat n)
        (alloc_blk (Bytes (map Some (le_bytes 4 n) @ replicate (nat n) None)) m) =
        Inr (alloc_blk (Bytes (map Some (le_bytes 4 n) @ replicate (nat n) (Some 0))) m)"
      using alloc_blk_read(1) [OF assms(1) True]
      by (simp add: c_memset_at_def c_store_bytes_def alloc_blk_def)
    ultimately show ?thesis
      using True n m mem_wf_fresh(3) [OF rt_wf_mem_wf [OF assms(1)]] by (simp add: newBuffer_def)
  qed (use n m in \<open>simp add: newBuffer_def\<close>)
qed

lemma newBuffer_buffer_at:
  assumes "rt_wf m" "brk m < lim m" "n < 2 ^ 31"
  shows "buffer_at (addr_of (brk m)) (replicate n (Some 0))
    (alloc_blk (Bytes (map Some (le_bytes 4 (int n)) @ replicate n (Some 0))) m)"
  using alloc_blk_read(1) [OF assms(1,2)] assms(3) by (simp add: buffer_at_def)


definition example_buffer :: mem where
  "example_buffer =
     alloc_blk (Bytes (map Some (le_bytes 4 (int 8)) @ replicate 8 (Some 0))) (init_mem 1000)"

lemma example_buffer_new: "newBuffer 8 (init_mem 1000) = Inr (addr_of 320, example_buffer)"
  using newBuffer_result [OF rt_wf_example, of 8] by (simp add: example_buffer_def)

lemma example_buffer_at: "buffer_at (addr_of 320) (map Some (replicate 8 0)) example_buffer"
  using newBuffer_buffer_at [OF rt_wf_example, of 8] by (simp add: example_buffer_def)

theorem buffer_le_roundtrip_witness:
  "\<exists>m' ds'. setBufferUIntLE (addr_of 320) 3 258 2 example_buffer = Inr m' \<and>
    getBufferUIntLE (addr_of 320) 3 2 m' = Inr (take_bit (8 * 2) 258) \<and>
    buffer_at (addr_of 320) ds' m' \<and> length ds' = length (map Some (replicate 8 (0::byte))) \<and>
    (\<forall>i < length (map Some (replicate 8 (0::byte))).
       i < nat 3 \<or> nat 3 + 2 \<le> i \<longrightarrow> ds' ! i = map Some (replicate 8 0) ! i) \<and>
    objs m' = objs example_buffer \<and> (\<forall>q. q \<noteq> addr_of 320 \<longrightarrow> blks m' q = blks example_buffer q)"
  by (rule buffer_le_roundtrip [OF example_buffer_at]) simp_all



end
