(* ===== verification/Buffer_Correct.thy ===== *)
theory Buffer_Correct
  imports Buffer
begin

text \<open>
  The typed accessors of \<open>refc/buffer.h\<close> (what \<open>Data.Buffer\<close> calls), and strings in buffers.
\<close>

section \<open>Numbers\<close>

text \<open>Each pair of accessors with the type of the values the Idris library passes through it.\<close>

definition typed_accessors ::
  "(ity \<times> (addr \<Rightarrow> int \<Rightarrow> int \<Rightarrow> mem \<Rightarrow> mem res) \<times> (addr \<Rightarrow> int \<Rightarrow> mem \<Rightarrow> int res)) list" where
  "typed_accessors =
     [(Bits8, setBufferUInt8, getBufferUInt8), (Bits16, setBufferUInt16LE, getBufferUInt16LE),
      (Bits32, setBufferUInt32LE, getBufferUInt32LE), (Bits64, setBufferUInt64LE, getBufferUInt64LE),
      (Bits8, setBufferByte, getBufferByte), (Int16, setBufferInt16LE, getBufferInt16LE),
      (Int32, setBufferInt32LE, getBufferInt32LE), (Int64, setBufferInt64LE, getBufferInt64LE)]"

lemmas accessor_defs = setBufferUInt8_def setBufferUInt16LE_def setBufferUInt32LE_def setBufferUInt64LE_def
  setBufferByte_def setBufferInt16LE_def setBufferInt32LE_def setBufferInt64LE_def
  getBufferUInt8_def getBufferUInt16LE_def getBufferUInt32LE_def getBufferUInt64LE_def
  getBufferByte_def getBufferInt16LE_def getBufferInt32LE_def getBufferInt64LE_def

text \<open>An accessor pair writes and reads the low bytes; the reader's conversion loses none of them.\<close>

lemma typed_accessors_le:
  assumes "(ty, set_v, get_v) \<in> set typed_accessors"
  shows "set_v b loc v m = setBufferUIntLE b loc (word_of_int v) (width ty div 8) m"
    and "\<exists>uty. width ty \<le> width uty \<and>
      get_v b loc m = bindr (getBufferUIntLE b loc (width ty div 8) m) (\<lambda>r. Inr (c_conv uty (uint r)))"
    and "8 * (width ty div 8) = width ty" "width ty div 8 \<le> 8"
  using assms unfolding typed_accessors_def
  by (auto simp: accessor_defs intro: exI [of _ Bits8] exI [of _ Bits16] exI [of _ Bits32] exI [of _ Bits64] exI [of _ Int64])

lemma c_conv_low_bits:
  assumes "in_range ty v" "width ty \<le> width uty" "width ty \<le> 64"
  shows "c_conv ty (c_conv uty (uint (take_bit (width ty) (word_of_int v :: 64 word)))) = v"
proof -
  have "c_conv ty (c_conv uty (uint (take_bit (width ty) (word_of_int v :: 64 word)))) = c_conv ty v"
    using assms(2,3) by (simp add: unsigned_take_bit_eq unsigned_of_int)
  then show ?thesis using assms(1) by simp
qed

text \<open>What a typed accessor of \<open>Data.Buffer\<close> writes is what its partner reads: for the four unsigned types, for
  bytes and for the signed types, a value of the type written at a valid position reads back as a number that
  the conversion to the type turns into the value. Outside the buffer both accessors abort in the range check.\<close>

theorem typed_accessors_roundtrip:
  assumes "(ty, set_v, get_v) \<in> set typed_accessors" "buffer_at b ds m" "in_range Int32 loc" "in_range ty v"
  shows "if 0 \<le> loc \<and> loc + int (width ty div 8) \<le> int (length ds)
    then \<exists>m' r ds'. set_v b loc v m = Inr m' \<and> get_v b loc m' = Inr r \<and> c_conv ty r = v \<and>
      buffer_at b ds' m' \<and> length ds' = length ds \<and>
      (\<forall>i < length ds. i < nat loc \<or> nat loc + width ty div 8 \<le> i \<longrightarrow> ds' ! i = ds ! i) \<and>
      objs m' = objs m \<and> (\<forall>q. q \<noteq> b \<longrightarrow> blks m' q = blks m q)
    else set_v b loc v m = Inl Verify_failed \<and> get_v b loc m = Inl Verify_failed"
proof -
  note le = typed_accessors_le [OF assms(1)]
  show ?thesis
  proof (cases "0 \<le> loc \<and> loc + int (width ty div 8) \<le> int (length ds)")
    case True
    obtain m' ds' where w: "setBufferUIntLE b loc (word_of_int v) (width ty div 8) m = Inr m'"
        "getBufferUIntLE b loc (width ty div 8) m' = Inr (take_bit (8 * (width ty div 8)) (word_of_int v))"
        "buffer_at b ds' m'" "length ds' = length ds"
        "\<forall>i < length ds. i < nat loc \<or> nat loc + width ty div 8 \<le> i \<longrightarrow> ds' ! i = ds ! i"
        "objs m' = objs m" "\<forall>q. q \<noteq> b \<longrightarrow> blks m' q = blks m q"
      using buffer_write_read [OF assms(2) _ _ le(4), of loc "word_of_int v"] True by blast
    obtain uty where "width ty \<le> width uty"
        "get_v b loc m' = Inr (c_conv uty (uint (take_bit (width ty) (word_of_int v :: 64 word))))"
      using le(2) [of b loc m'] w(2) le(3) by auto
    moreover have "width ty \<le> 64" by (cases ty) simp_all
    ultimately have "\<exists>r. get_v b loc m' = Inr r \<and> c_conv ty r = v"
      using c_conv_low_bits [OF assms(4)] by blast
    then show ?thesis using True w by (auto simp: le(1))
  next
    case False
    from False show ?thesis
      using le(2) [of b loc m] setBufferUIntLE_cases [OF assms(2,3) le(4)]
        getBufferUIntLE_cases [OF assms(2,3), of "replicate (width ty div 8) 0"] le(4)
      by (auto simp: le(1))
  qed
qed

theorem typed_accessors_roundtrip_witness:
  "if 0 \<le> (3::int) \<and> 3 + int (width Int32 div 8) \<le> int (length (map Some (replicate 8 (0::byte))))
    then \<exists>m' r ds'. setBufferInt32LE (addr_of 320) 3 (- 5) example_buffer = Inr m' \<and>
      getBufferInt32LE (addr_of 320) 3 m' = Inr r \<and> c_conv Int32 r = - 5 \<and>
      buffer_at (addr_of 320) ds' m' \<and> length ds' = length (map Some (replicate 8 (0::byte))) \<and>
      (\<forall>i < length (map Some (replicate 8 (0::byte))). i < nat 3 \<or> nat 3 + width Int32 div 8 \<le> i \<longrightarrow>
        ds' ! i = map Some (replicate 8 0) ! i) \<and>
      objs m' = objs example_buffer \<and> (\<forall>q. q \<noteq> addr_of 320 \<longrightarrow> blks m' q = blks example_buffer q)
    else setBufferInt32LE (addr_of 320) 3 (- 5) example_buffer = Inl Verify_failed \<and>
      getBufferInt32LE (addr_of 320) 3 example_buffer = Inl Verify_failed"
  by (rule typed_accessors_roundtrip [OF _ example_buffer_at]) (simp_all add: typed_accessors_def in_range_code)

text \<open>A \<open>double\<close> travels as its 64 bits.\<close>

lemma double_roundtrip:
  assumes "buffer_at b ds m" "0 \<le> loc" "loc + 8 \<le> int (length ds)"
  shows "\<exists>m'. setBufferDouble b loc d m = Inr m' \<and> getBufferDouble b loc m' = Inr d"
  using buffer_write_read [OF assms(1,2), of 8 d] assms(3)
  by (auto simp: setBufferDouble_def getBufferDouble_def take_bit_word_eq_self)

section \<open>Strings\<close>

lemma mem_wf_put_buffer: "mem_wf m \<Longrightarrow> buffer_at b ds m \<Longrightarrow> mem_wf (put_buffer b es m)"
  by (auto simp: mem_wf_def buffer_at_def put_buffer_def get_bytes_eq_Inr insert_absorb)

text \<open>Storing a C string that lies in another block.\<close>

lemma setBufferString_cases:
  assumes "buffer_at b ds m" "c_string str 0 m = Inr s" "str \<noteq> b" "in_range Int32 loc" "length s < 2 ^ 62"
  shows "setBufferString b loc str m =
    (if 0 \<le> loc \<and> loc + int (length s) \<le> int (length ds)
     then Inr (put_buffer b (take (nat loc) ds @ map Some s @ drop (nat loc + length s) ds) m)
     else Inl Verify_failed)"
proof -
  have len: "in_range Int64 (int (length s))" "c_conv Int64 (int (length s)) = int (length s)"
    using assms(5) by (simp_all add: in_range_code)
  obtain rest where bytes: "get_bytes str m = Inr (map Some s @ Some 0 # rest)"
    using assms(2) until_nul_split by (auto simp: c_string_def bindr_eq_Inr split: if_splits)
  have "\<not> 9223372036854775807 < loc + int (length s)"
    using assms(4,5) by (simp add: in_range_code)
  then show ?thesis
    using assms(1-3) bytes assert_valid_range_cases [OF assms(1,4) len(1)]
    by (auto simp: setBufferString_def c_strlen_def len(2) c_memcpy_def buffer_at_def put_buffer_def nat_add_distrib add.assoc)
qed

text \<open>\<open>strncpy\<close> stops at the first zero and pads with zeros.\<close>

lemma strncpy_bytes_initialised:
  "strncpy_bytes (length cs) (map Some cs @ rest) =
     Inr (takeWhile (\<lambda>c. c \<noteq> 0) cs @ replicate (length cs - length (takeWhile (\<lambda>c. c \<noteq> 0) cs)) 0)"
  by (induction cs) simp_all

text \<open>Reading initialised bytes as a string: a new block with the bytes up to the first zero, padded to the length asked for.\<close>

lemma getBufferString_result:
  assumes "mem_wf m" "buffer_at b (pre @ map Some cs @ post) m" "length cs < 2147483647"
  shows "getBufferString b (int (length pre)) (int (length cs)) m =
    (if brk m < lim m
     then Inr (addr_of (brk m), alloc_blk (Bytes (map Some (takeWhile (\<lambda>c. c \<noteq> 0) cs) @
       replicate (Suc (length cs - length (takeWhile (\<lambda>c. c \<noteq> 0) cs))) (Some 0))) m)
     else Inl (Undefined Null_deref))"
proof -
  let ?w = "takeWhile (\<lambda>c. c \<noteq> 0) cs" and ?z = "addr_of (brk m)"
  let ?pad = "length cs - length ?w"
  let ?n = "int (length cs)" and ?l = "int (length pre)"
  have bytes: "get_bytes b m = Inr (map Some (le_bytes 4 (int (length (pre @ map Some cs @ post)))) @ pre @ map Some cs @ post)"
    and len: "length pre + length cs + length post < 2147483648"
    using assms(2) by (simp_all add: buffer_at_def)
  have range: "assert_valid_range b ?l ?n m = Inr ()" "c_add Int32 ?n 1 = Inr (?n + 1)" "c_size (?n + 1) = Suc (length cs)"
      "c_size ?n = length cs" "Suc (length cs) < 2 ^ 63" "nat (4 + ?l) = 4 + length pre"
    using len assms(3) assert_valid_range_cases [OF assms(2), of ?l ?n]
    by (simp_all add: in_range_code c_add_def c_fit_def c_promote_def c_size_def nat_add_distrib)
  have w: "length ?w \<le> length cs" by (rule length_takeWhile_le)
  have copy: "c_strncpy dst b (4 + ?l) (length cs) m' = c_store_bytes dst 0 (?w @ replicate ?pad 0) m'"
    if "get_bytes b m' = get_bytes b m" for dst m'
    using that bytes range(6) by (simp add: c_strncpy_def strncpy_bytes_initialised)
  show ?thesis
  proof (cases "brk m < lim m")
    case True
    let ?m1 = "alloc_blk (Bytes (replicate (Suc (length cs)) None)) m"
    let ?m2 = "alloc_blk (Bytes (map Some (?w @ replicate ?pad 0) @ [None])) m"
    have z: "?z \<noteq> 0" "b \<noteq> ?z" using mem_wf_fresh [OF assms(1)] bytes by (auto simp: get_bytes_eq_Inr)
    then have "get_bytes b ?m1 = get_bytes b m" by (simp add: get_bytes_def)
    moreover have "drop (length cs) (None # replicate (length cs) None) = [None :: byte option]"
      by (metis Suc_diff_le diff_self_eq_0 drop_replicate le_refl replicate_0 replicate_Suc)
    then have "c_store_bytes ?z 0 (?w @ replicate ?pad 0) ?m1 = Inr ?m2"
      using z(1) w by (simp add: c_store_bytes_def get_bytes_def alloc_blk_def)
    moreover have "store_byte ?z ?n 0 ?m2 = Inr (alloc_blk (Bytes (map Some ?w @ replicate (Suc ?pad) (Some 0))) m)"
      using z(1) w by (simp add: store_byte_def get_bytes_def upd_res_def alloc_blk_def list_update_append replicate_append_same)
    ultimately show ?thesis
      using True range(1-4) c_malloc_cases [OF range(5), of m] copy by (simp add: getBufferString_def)
  next
    case False
    then show ?thesis
      using range(1-4) c_malloc_cases [OF range(5), of m] copy [of m 0]
      by (simp add: getBufferString_def c_store_bytes_def get_bytes_def)
  qed
qed



end
