(* ===== verification/Casts.thy ===== *)
theory Casts
  imports C_Strings
begin

text \<open>
  \<open>refc/casts.h\<close> and \<open>refc/casts.c\<close>: conversions between the primitive types.

  A macro reads its argument at the source type, converts in C, and makes a value of the target type.
  Conversions between the types kept inside a pointer are partly the identity on the pointer
  (\<open>#define idris2_cast_Int8_to_Bits16(x) (x)\<close>). \<open>idris2_cast_Double_to_Char\<close> is left out: its body
  names a function-like macro without an argument and does not compile when it is used.
\<close>

section \<open>Helpers\<close>

text \<open>\<open>mpz_set_si\<close> / \<open>mpz_set_ui\<close> into a new integer; the second type is that of the parameter.\<close>

definition integer_from :: "ity \<Rightarrow> ity \<Rightarrow> addr \<Rightarrow> mem \<Rightarrow> (addr \<times> mem) res" where
  "integer_from ty long input m =
     bindr (idris2_mkInteger m) (\<lambda>(retVal, m1).
     bindr (vp_to ty input m1) (\<lambda>a.
     bindr (set_integer retVal (c_conv long a) m1) (\<lambda>m2. Inr (retVal, m2))))"

text \<open>\<open>snprintf(NULL, 0, ..)\<close>, \<open>idris2_mkEmptyString(l + 1)\<close>, \<open>sprintf(retVal->str, ..)\<close>.\<close>

definition idris2_string_from :: "byte list \<Rightarrow> mem \<Rightarrow> (addr \<times> mem) res" where
  "idris2_string_from txt m =
     bindr (idris2_mkEmptyString (length txt + 1) m) (\<lambda>(retVal, m1).
     bindr (get_str retVal m1) (\<lambda>str.
     bindr (c_sprintf str txt m1) (\<lambda>m2. Inr (retVal, m2))))"

definition mpz_get_lsb :: "gmp \<Rightarrow> int \<Rightarrow> nat \<Rightarrow> 64 word" where
  "mpz_get_lsb g i b = mpz_get_ui g (mpz_fdiv_r_2exp g i b)"

section \<open>Conversions\<close>

definition idris2_cast_Int8_to_Bits8 :: "addr \<Rightarrow> mem \<Rightarrow> (addr \<times> mem) res" where
  "idris2_cast_Int8_to_Bits8 x m = Inr (x, m)"

definition idris2_cast_Int8_to_Bits16 :: "addr \<Rightarrow> mem \<Rightarrow> (addr \<times> mem) res" where
  "idris2_cast_Int8_to_Bits16 x m = Inr (x, m)"

definition idris2_cast_Int8_to_Bits32 :: "addr \<Rightarrow> mem \<Rightarrow> (addr \<times> mem) res" where
  "idris2_cast_Int8_to_Bits32 x m = Inr (x, m)"

definition idris2_cast_Int8_to_Bits64 :: "addr \<Rightarrow> mem \<Rightarrow> (addr \<times> mem) res" where
  "idris2_cast_Int8_to_Bits64 x m = bindr (vp_to Int8 x m) (\<lambda>a. mk Bits64 (c_conv Bits64 a) m)"

definition idris2_cast_Int8_to_Int16 :: "addr \<Rightarrow> mem \<Rightarrow> (addr \<times> mem) res" where
  "idris2_cast_Int8_to_Int16 x m = bindr (vp_to Int8 x m) (\<lambda>a. mk Int16 (c_conv Int16 a) m)"

definition idris2_cast_Int8_to_Int32 :: "addr \<Rightarrow> mem \<Rightarrow> (addr \<times> mem) res" where
  "idris2_cast_Int8_to_Int32 x m = bindr (vp_to Int8 x m) (\<lambda>a. mk Int32 (c_conv Int32 a) m)"

definition idris2_cast_Int8_to_Int64 :: "addr \<Rightarrow> mem \<Rightarrow> (addr \<times> mem) res" where
  "idris2_cast_Int8_to_Int64 x m = bindr (vp_to Int8 x m) (\<lambda>a. mk Int64 (c_conv Int64 a) m)"

definition idris2_cast_Int8_to_Double :: "fpu \<Rightarrow> addr \<Rightarrow> mem \<Rightarrow> (addr \<times> mem) res" where
  "idris2_cast_Int8_to_Double F x m = bindr (vp_to Int8 x m) (\<lambda>a. idris2_mkDouble (f_of_int F a) m)"

definition idris2_cast_Int8_to_Char :: "addr \<Rightarrow> mem \<Rightarrow> (addr \<times> mem) res" where
  "idris2_cast_Int8_to_Char x m = bindr (vp_to Int8 x m) (\<lambda>a. mk Char (c_conv Char a) m)"

definition idris2_cast_Int16_to_Bits8 :: "addr \<Rightarrow> mem \<Rightarrow> (addr \<times> mem) res" where
  "idris2_cast_Int16_to_Bits8 x m = bindr (vp_to Int16 x m) (\<lambda>a. mk Bits8 (c_conv Bits8 a) m)"

definition idris2_cast_Int16_to_Bits16 :: "addr \<Rightarrow> mem \<Rightarrow> (addr \<times> mem) res" where
  "idris2_cast_Int16_to_Bits16 x m = Inr (x, m)"

definition idris2_cast_Int16_to_Bits32 :: "addr \<Rightarrow> mem \<Rightarrow> (addr \<times> mem) res" where
  "idris2_cast_Int16_to_Bits32 x m = Inr (x, m)"

definition idris2_cast_Int16_to_Bits64 :: "addr \<Rightarrow> mem \<Rightarrow> (addr \<times> mem) res" where
  "idris2_cast_Int16_to_Bits64 x m = bindr (vp_to Int16 x m) (\<lambda>a. mk Bits64 (c_conv Bits64 a) m)"

definition idris2_cast_Int16_to_Int8 :: "addr \<Rightarrow> mem \<Rightarrow> (addr \<times> mem) res" where
  "idris2_cast_Int16_to_Int8 x m = bindr (vp_to Int16 x m) (\<lambda>a. mk Int8 (c_conv Int8 a) m)"

definition idris2_cast_Int16_to_Int32 :: "addr \<Rightarrow> mem \<Rightarrow> (addr \<times> mem) res" where
  "idris2_cast_Int16_to_Int32 x m = Inr (x, m)"

definition idris2_cast_Int16_to_Int64 :: "addr \<Rightarrow> mem \<Rightarrow> (addr \<times> mem) res" where
  "idris2_cast_Int16_to_Int64 x m = bindr (vp_to Int16 x m) (\<lambda>a. mk Int64 (c_conv Int64 a) m)"

definition idris2_cast_Int16_to_Double :: "fpu \<Rightarrow> addr \<Rightarrow> mem \<Rightarrow> (addr \<times> mem) res" where
  "idris2_cast_Int16_to_Double F x m = bindr (vp_to Int16 x m) (\<lambda>a. idris2_mkDouble (f_of_int F a) m)"

definition idris2_cast_Int16_to_Char :: "addr \<Rightarrow> mem \<Rightarrow> (addr \<times> mem) res" where
  "idris2_cast_Int16_to_Char x m = bindr (vp_to Int16 x m) (\<lambda>a. mk Char (c_conv Char a) m)"

definition idris2_cast_Int32_to_Bits8 :: "addr \<Rightarrow> mem \<Rightarrow> (addr \<times> mem) res" where
  "idris2_cast_Int32_to_Bits8 x m = bindr (vp_to Int32 x m) (\<lambda>a. mk Bits8 (c_conv Bits8 a) m)"

definition idris2_cast_Int32_to_Bits16 :: "addr \<Rightarrow> mem \<Rightarrow> (addr \<times> mem) res" where
  "idris2_cast_Int32_to_Bits16 x m = bindr (vp_to Int32 x m) (\<lambda>a. mk Bits16 (c_conv Bits16 a) m)"

definition idris2_cast_Int32_to_Bits32 :: "addr \<Rightarrow> mem \<Rightarrow> (addr \<times> mem) res" where
  "idris2_cast_Int32_to_Bits32 x m = Inr (x, m)"

definition idris2_cast_Int32_to_Bits64 :: "addr \<Rightarrow> mem \<Rightarrow> (addr \<times> mem) res" where
  "idris2_cast_Int32_to_Bits64 x m = bindr (vp_to Int32 x m) (\<lambda>a. mk Bits64 (c_conv Bits64 a) m)"

definition idris2_cast_Int32_to_Int8 :: "addr \<Rightarrow> mem \<Rightarrow> (addr \<times> mem) res" where
  "idris2_cast_Int32_to_Int8 x m = bindr (vp_to Int32 x m) (\<lambda>a. mk Int8 (c_conv Int8 a) m)"

definition idris2_cast_Int32_to_Int16 :: "addr \<Rightarrow> mem \<Rightarrow> (addr \<times> mem) res" where
  "idris2_cast_Int32_to_Int16 x m = bindr (vp_to Int32 x m) (\<lambda>a. mk Int16 (c_conv Int16 a) m)"

definition idris2_cast_Int32_to_Int64 :: "addr \<Rightarrow> mem \<Rightarrow> (addr \<times> mem) res" where
  "idris2_cast_Int32_to_Int64 x m = bindr (vp_to Int32 x m) (\<lambda>a. mk Int64 (c_conv Int64 a) m)"

definition idris2_cast_Int32_to_Double :: "fpu \<Rightarrow> addr \<Rightarrow> mem \<Rightarrow> (addr \<times> mem) res" where
  "idris2_cast_Int32_to_Double F x m = bindr (vp_to Int32 x m) (\<lambda>a. idris2_mkDouble (f_of_int F a) m)"

definition idris2_cast_Int32_to_Char :: "addr \<Rightarrow> mem \<Rightarrow> (addr \<times> mem) res" where
  "idris2_cast_Int32_to_Char x m = bindr (vp_to Int32 x m) (\<lambda>a. mk Char (c_conv Char a) m)"

definition idris2_cast_Int64_to_Bits8 :: "addr \<Rightarrow> mem \<Rightarrow> (addr \<times> mem) res" where
  "idris2_cast_Int64_to_Bits8 x m = bindr (vp_to Int64 x m) (\<lambda>a. mk Bits8 (c_conv Bits8 a) m)"

definition idris2_cast_Int64_to_Bits16 :: "addr \<Rightarrow> mem \<Rightarrow> (addr \<times> mem) res" where
  "idris2_cast_Int64_to_Bits16 x m = bindr (vp_to Int64 x m) (\<lambda>a. mk Bits16 (c_conv Bits16 a) m)"

definition idris2_cast_Int64_to_Bits32 :: "addr \<Rightarrow> mem \<Rightarrow> (addr \<times> mem) res" where
  "idris2_cast_Int64_to_Bits32 x m = bindr (vp_to Int64 x m) (\<lambda>a. mk Bits32 (c_conv Bits32 a) m)"

definition idris2_cast_Int64_to_Bits64 :: "addr \<Rightarrow> mem \<Rightarrow> (addr \<times> mem) res" where
  "idris2_cast_Int64_to_Bits64 x m = bindr (vp_to Int64 x m) (\<lambda>a. mk Bits64 (c_conv Bits64 a) m)"

definition idris2_cast_Int64_to_Int8 :: "addr \<Rightarrow> mem \<Rightarrow> (addr \<times> mem) res" where
  "idris2_cast_Int64_to_Int8 x m = bindr (vp_to Int64 x m) (\<lambda>a. mk Int8 (c_conv Int8 a) m)"

definition idris2_cast_Int64_to_Int16 :: "addr \<Rightarrow> mem \<Rightarrow> (addr \<times> mem) res" where
  "idris2_cast_Int64_to_Int16 x m = bindr (vp_to Int64 x m) (\<lambda>a. mk Int16 (c_conv Int16 a) m)"

definition idris2_cast_Int64_to_Int32 :: "addr \<Rightarrow> mem \<Rightarrow> (addr \<times> mem) res" where
  "idris2_cast_Int64_to_Int32 x m = bindr (vp_to Int64 x m) (\<lambda>a. mk Int32 (c_conv Int32 a) m)"

definition idris2_cast_Int64_to_Int64 :: "addr \<Rightarrow> mem \<Rightarrow> (addr \<times> mem) res" where
  "idris2_cast_Int64_to_Int64 x m = idris2_newReference x m"

definition idris2_cast_Int64_to_Double :: "fpu \<Rightarrow> addr \<Rightarrow> mem \<Rightarrow> (addr \<times> mem) res" where
  "idris2_cast_Int64_to_Double F x m = bindr (vp_to Int64 x m) (\<lambda>a. idris2_mkDouble (f_of_int F a) m)"

definition idris2_cast_Int64_to_Char :: "addr \<Rightarrow> mem \<Rightarrow> (addr \<times> mem) res" where
  "idris2_cast_Int64_to_Char x m = bindr (vp_to Int64 x m) (\<lambda>a. mk Char (c_conv Char a) m)"

definition idris2_cast_Double_to_Bits8 :: "fpu \<Rightarrow> addr \<Rightarrow> mem \<Rightarrow> (addr \<times> mem) res" where
  "idris2_cast_Double_to_Bits8 F x m =
     bindr (idris2_vp_to_Double x m) (\<lambda>d. bindr (f_to_int F Bits8 d) (\<lambda>a. mk Bits8 a m))"

definition idris2_cast_Double_to_Bits16 :: "fpu \<Rightarrow> addr \<Rightarrow> mem \<Rightarrow> (addr \<times> mem) res" where
  "idris2_cast_Double_to_Bits16 F x m =
     bindr (idris2_vp_to_Double x m) (\<lambda>d. bindr (f_to_int F Bits16 d) (\<lambda>a. mk Bits16 a m))"

definition idris2_cast_Double_to_Bits32 :: "fpu \<Rightarrow> addr \<Rightarrow> mem \<Rightarrow> (addr \<times> mem) res" where
  "idris2_cast_Double_to_Bits32 F x m =
     bindr (idris2_vp_to_Double x m) (\<lambda>d. bindr (f_to_int F Bits32 d) (\<lambda>a. mk Bits32 a m))"

definition idris2_cast_Double_to_Bits64 :: "fpu \<Rightarrow> addr \<Rightarrow> mem \<Rightarrow> (addr \<times> mem) res" where
  "idris2_cast_Double_to_Bits64 F x m =
     bindr (idris2_vp_to_Double x m) (\<lambda>d. bindr (f_to_int F Bits64 d) (\<lambda>a. mk Bits64 a m))"

definition idris2_cast_Double_to_Int :: "fpu \<Rightarrow> addr \<Rightarrow> mem \<Rightarrow> (addr \<times> mem) res" where
  "idris2_cast_Double_to_Int F x m =
     bindr (idris2_vp_to_Double x m) (\<lambda>d. bindr (f_to_int F Int8 d) (\<lambda>a. mk Int8 a m))"

definition idris2_cast_Double_to_Int16 :: "fpu \<Rightarrow> addr \<Rightarrow> mem \<Rightarrow> (addr \<times> mem) res" where
  "idris2_cast_Double_to_Int16 F x m =
     bindr (idris2_vp_to_Double x m) (\<lambda>d. bindr (f_to_int F Int16 d) (\<lambda>a. mk Int16 a m))"

definition idris2_cast_Double_to_Int32 :: "fpu \<Rightarrow> addr \<Rightarrow> mem \<Rightarrow> (addr \<times> mem) res" where
  "idris2_cast_Double_to_Int32 F x m =
     bindr (idris2_vp_to_Double x m) (\<lambda>d. bindr (f_to_int F Int32 d) (\<lambda>a. mk Int32 a m))"

definition idris2_cast_Double_to_Int64 :: "fpu \<Rightarrow> addr \<Rightarrow> mem \<Rightarrow> (addr \<times> mem) res" where
  "idris2_cast_Double_to_Int64 F x m =
     bindr (idris2_vp_to_Double x m) (\<lambda>d. bindr (f_to_int F Int64 d) (\<lambda>a. mk Int64 a m))"

definition idris2_cast_Char_to_Bits8 :: "addr \<Rightarrow> mem \<Rightarrow> (addr \<times> mem) res" where
  "idris2_cast_Char_to_Bits8 x m = bindr (vp_to Char x m) (\<lambda>a. mk Bits8 (c_conv Bits8 a) m)"

definition idris2_cast_Char_to_Bits16 :: "addr \<Rightarrow> mem \<Rightarrow> (addr \<times> mem) res" where
  "idris2_cast_Char_to_Bits16 x m = bindr (vp_to Char x m) (\<lambda>a. mk Bits16 (c_conv Bits16 a) m)"

definition idris2_cast_Char_to_Bits32 :: "addr \<Rightarrow> mem \<Rightarrow> (addr \<times> mem) res" where
  "idris2_cast_Char_to_Bits32 x m = bindr (vp_to Char x m) (\<lambda>a. mk Bits32 (c_conv Bits32 a) m)"

definition idris2_cast_Char_to_Bits64 :: "addr \<Rightarrow> mem \<Rightarrow> (addr \<times> mem) res" where
  "idris2_cast_Char_to_Bits64 x m = bindr (vp_to Char x m) (\<lambda>a. mk Bits64 (c_conv Bits64 a) m)"

definition idris2_cast_Char_to_Int8 :: "addr \<Rightarrow> mem \<Rightarrow> (addr \<times> mem) res" where
  "idris2_cast_Char_to_Int8 x m = bindr (vp_to Char x m) (\<lambda>a. mk Int8 (c_conv Int8 a) m)"

definition idris2_cast_Char_to_Int16 :: "addr \<Rightarrow> mem \<Rightarrow> (addr \<times> mem) res" where
  "idris2_cast_Char_to_Int16 x m = bindr (vp_to Char x m) (\<lambda>a. mk Int16 (c_conv Int16 a) m)"

definition idris2_cast_Char_to_Int32 :: "addr \<Rightarrow> mem \<Rightarrow> (addr \<times> mem) res" where
  "idris2_cast_Char_to_Int32 x m = bindr (vp_to Char x m) (\<lambda>a. mk Int32 (c_conv Int32 a) m)"

definition idris2_cast_Char_to_Int64 :: "addr \<Rightarrow> mem \<Rightarrow> (addr \<times> mem) res" where
  "idris2_cast_Char_to_Int64 x m = bindr (vp_to Char x m) (\<lambda>a. mk Int64 (c_conv Int64 a) m)"

definition idris2_cast_Char_to_Double :: "fpu \<Rightarrow> addr \<Rightarrow> mem \<Rightarrow> (addr \<times> mem) res" where
  "idris2_cast_Char_to_Double F x m = bindr (vp_to Char x m) (\<lambda>a. idris2_mkDouble (f_of_int F a) m)"

definition idris2_cast_String_to_Char :: "addr \<Rightarrow> mem \<Rightarrow> (addr \<times> mem) res" where
  "idris2_cast_String_to_Char x m = bindr (get_str x m) (\<lambda>s. bindr (load_byte s 0 m) (\<lambda>c. Inr (idris2_mkChar (sint c), m)))"

definition idris2_cast_Bits8_to_Bits16 :: "addr \<Rightarrow> mem \<Rightarrow> (addr \<times> mem) res" where
  "idris2_cast_Bits8_to_Bits16 x m = Inr (x, m)"

definition idris2_cast_Bits8_to_Bits32 :: "addr \<Rightarrow> mem \<Rightarrow> (addr \<times> mem) res" where
  "idris2_cast_Bits8_to_Bits32 x m = Inr (x, m)"

definition idris2_cast_Bits8_to_Bits64 :: "addr \<Rightarrow> mem \<Rightarrow> (addr \<times> mem) res" where
  "idris2_cast_Bits8_to_Bits64 x m = bindr (vp_to Bits8 x m) (\<lambda>a. mk Bits64 (c_conv Bits64 a) m)"

definition idris2_cast_Bits8_to_Int8 :: "addr \<Rightarrow> mem \<Rightarrow> (addr \<times> mem) res" where
  "idris2_cast_Bits8_to_Int8 x m = Inr (x, m)"

definition idris2_cast_Bits8_to_Int16 :: "addr \<Rightarrow> mem \<Rightarrow> (addr \<times> mem) res" where
  "idris2_cast_Bits8_to_Int16 x m = Inr (x, m)"

definition idris2_cast_Bits8_to_Int32 :: "addr \<Rightarrow> mem \<Rightarrow> (addr \<times> mem) res" where
  "idris2_cast_Bits8_to_Int32 x m = Inr (x, m)"

definition idris2_cast_Bits8_to_Int64 :: "addr \<Rightarrow> mem \<Rightarrow> (addr \<times> mem) res" where
  "idris2_cast_Bits8_to_Int64 x m = bindr (vp_to Bits8 x m) (\<lambda>a. mk Int64 (c_conv Int64 a) m)"

definition idris2_cast_Bits8_to_Double :: "fpu \<Rightarrow> addr \<Rightarrow> mem \<Rightarrow> (addr \<times> mem) res" where
  "idris2_cast_Bits8_to_Double F x m = bindr (vp_to Bits8 x m) (\<lambda>a. idris2_mkDouble (f_of_int F a) m)"

definition idris2_cast_Bits8_to_Char :: "addr \<Rightarrow> mem \<Rightarrow> (addr \<times> mem) res" where
  "idris2_cast_Bits8_to_Char x m = bindr (vp_to Bits8 x m) (\<lambda>a. mk Char (c_conv Char a) m)"

definition idris2_cast_Bits16_to_Bits8 :: "addr \<Rightarrow> mem \<Rightarrow> (addr \<times> mem) res" where
  "idris2_cast_Bits16_to_Bits8 x m = bindr (vp_to Bits16 x m) (\<lambda>a. mk Bits8 (c_conv Bits8 a) m)"

definition idris2_cast_Bits16_to_Bits32 :: "addr \<Rightarrow> mem \<Rightarrow> (addr \<times> mem) res" where
  "idris2_cast_Bits16_to_Bits32 x m = bindr (vp_to Bits16 x m) (\<lambda>a. mk Bits32 (c_conv Bits32 a) m)"

definition idris2_cast_Bits16_to_Bits64 :: "addr \<Rightarrow> mem \<Rightarrow> (addr \<times> mem) res" where
  "idris2_cast_Bits16_to_Bits64 x m = bindr (vp_to Bits16 x m) (\<lambda>a. mk Bits64 (c_conv Bits64 a) m)"

definition idris2_cast_Bits16_to_Int8 :: "addr \<Rightarrow> mem \<Rightarrow> (addr \<times> mem) res" where
  "idris2_cast_Bits16_to_Int8 x m = bindr (vp_to Bits16 x m) (\<lambda>a. mk Int8 (c_conv Int8 a) m)"

definition idris2_cast_Bits16_to_Int16 :: "addr \<Rightarrow> mem \<Rightarrow> (addr \<times> mem) res" where
  "idris2_cast_Bits16_to_Int16 x m = bindr (vp_to Bits16 x m) (\<lambda>a. mk Int16 (c_conv Int16 a) m)"

definition idris2_cast_Bits16_to_Int32 :: "addr \<Rightarrow> mem \<Rightarrow> (addr \<times> mem) res" where
  "idris2_cast_Bits16_to_Int32 x m = bindr (vp_to Bits16 x m) (\<lambda>a. mk Int32 (c_conv Int32 a) m)"

definition idris2_cast_Bits16_to_Int64 :: "addr \<Rightarrow> mem \<Rightarrow> (addr \<times> mem) res" where
  "idris2_cast_Bits16_to_Int64 x m = bindr (vp_to Bits16 x m) (\<lambda>a. mk Int64 (c_conv Int64 a) m)"

definition idris2_cast_Bits16_to_Double :: "fpu \<Rightarrow> addr \<Rightarrow> mem \<Rightarrow> (addr \<times> mem) res" where
  "idris2_cast_Bits16_to_Double F x m = bindr (vp_to Bits16 x m) (\<lambda>a. idris2_mkDouble (f_of_int F a) m)"

definition idris2_cast_Bits16_to_Char :: "addr \<Rightarrow> mem \<Rightarrow> (addr \<times> mem) res" where
  "idris2_cast_Bits16_to_Char x m = bindr (vp_to Bits16 x m) (\<lambda>a. mk Char (c_conv Char a) m)"

definition idris2_cast_Bits32_to_Bits8 :: "addr \<Rightarrow> mem \<Rightarrow> (addr \<times> mem) res" where
  "idris2_cast_Bits32_to_Bits8 x m = bindr (vp_to Bits32 x m) (\<lambda>a. mk Bits8 (c_conv Bits8 a) m)"

definition idris2_cast_Bits32_to_Bits16 :: "addr \<Rightarrow> mem \<Rightarrow> (addr \<times> mem) res" where
  "idris2_cast_Bits32_to_Bits16 x m = bindr (vp_to Bits32 x m) (\<lambda>a. mk Bits16 (c_conv Bits16 a) m)"

definition idris2_cast_Bits32_to_Bits64 :: "addr \<Rightarrow> mem \<Rightarrow> (addr \<times> mem) res" where
  "idris2_cast_Bits32_to_Bits64 x m = bindr (vp_to Bits32 x m) (\<lambda>a. mk Bits64 (c_conv Bits64 a) m)"

definition idris2_cast_Bits32_to_Int8 :: "addr \<Rightarrow> mem \<Rightarrow> (addr \<times> mem) res" where
  "idris2_cast_Bits32_to_Int8 x m = bindr (vp_to Bits32 x m) (\<lambda>a. mk Bits8 (c_conv Int8 a) m)"

definition idris2_cast_Bits32_to_Int16 :: "addr \<Rightarrow> mem \<Rightarrow> (addr \<times> mem) res" where
  "idris2_cast_Bits32_to_Int16 x m = bindr (vp_to Bits32 x m) (\<lambda>a. mk Bits16 (c_conv Int16 a) m)"

definition idris2_cast_Bits32_to_Int32 :: "addr \<Rightarrow> mem \<Rightarrow> (addr \<times> mem) res" where
  "idris2_cast_Bits32_to_Int32 x m = bindr (vp_to Bits32 x m) (\<lambda>a. mk Bits32 (c_conv Int32 a) m)"

definition idris2_cast_Bits32_to_Int64 :: "addr \<Rightarrow> mem \<Rightarrow> (addr \<times> mem) res" where
  "idris2_cast_Bits32_to_Int64 x m = bindr (vp_to Bits32 x m) (\<lambda>a. mk Bits64 (c_conv Int64 a) m)"

definition idris2_cast_Bits32_to_Double :: "fpu \<Rightarrow> addr \<Rightarrow> mem \<Rightarrow> (addr \<times> mem) res" where
  "idris2_cast_Bits32_to_Double F x m = bindr (vp_to Bits32 x m) (\<lambda>a. idris2_mkDouble (f_of_int F a) m)"

definition idris2_cast_Bits32_to_Char :: "addr \<Rightarrow> mem \<Rightarrow> (addr \<times> mem) res" where
  "idris2_cast_Bits32_to_Char x m = bindr (vp_to Bits32 x m) (\<lambda>a. mk Char (c_conv Char a) m)"

definition idris2_cast_Bits64_to_Bits8 :: "addr \<Rightarrow> mem \<Rightarrow> (addr \<times> mem) res" where
  "idris2_cast_Bits64_to_Bits8 x m = bindr (vp_to Bits64 x m) (\<lambda>a. mk Bits8 (c_conv Bits8 a) m)"

definition idris2_cast_Bits64_to_Bits16 :: "addr \<Rightarrow> mem \<Rightarrow> (addr \<times> mem) res" where
  "idris2_cast_Bits64_to_Bits16 x m = bindr (vp_to Bits64 x m) (\<lambda>a. mk Bits16 (c_conv Bits16 a) m)"

definition idris2_cast_Bits64_to_Bits32 :: "addr \<Rightarrow> mem \<Rightarrow> (addr \<times> mem) res" where
  "idris2_cast_Bits64_to_Bits32 x m = bindr (vp_to Bits64 x m) (\<lambda>a. mk Bits32 (c_conv Bits32 a) m)"

definition idris2_cast_Bits64_to_Int8 :: "addr \<Rightarrow> mem \<Rightarrow> (addr \<times> mem) res" where
  "idris2_cast_Bits64_to_Int8 x m = bindr (vp_to Bits64 x m) (\<lambda>a. mk Int8 (c_conv Int8 a) m)"

definition idris2_cast_Bits64_to_Int16 :: "addr \<Rightarrow> mem \<Rightarrow> (addr \<times> mem) res" where
  "idris2_cast_Bits64_to_Int16 x m = bindr (vp_to Bits64 x m) (\<lambda>a. mk Int16 (c_conv Int16 a) m)"

definition idris2_cast_Bits64_to_Int32 :: "addr \<Rightarrow> mem \<Rightarrow> (addr \<times> mem) res" where
  "idris2_cast_Bits64_to_Int32 x m = bindr (vp_to Bits64 x m) (\<lambda>a. mk Int32 (c_conv Int32 a) m)"

definition idris2_cast_Bits64_to_Int64 :: "addr \<Rightarrow> mem \<Rightarrow> (addr \<times> mem) res" where
  "idris2_cast_Bits64_to_Int64 x m = bindr (vp_to Bits64 x m) (\<lambda>a. mk Int64 (c_conv Int64 a) m)"

definition idris2_cast_Bits64_to_Double :: "fpu \<Rightarrow> addr \<Rightarrow> mem \<Rightarrow> (addr \<times> mem) res" where
  "idris2_cast_Bits64_to_Double F x m = bindr (vp_to Bits64 x m) (\<lambda>a. idris2_mkDouble (f_of_int F a) m)"

definition idris2_cast_Bits64_to_Char :: "addr \<Rightarrow> mem \<Rightarrow> (addr \<times> mem) res" where
  "idris2_cast_Bits64_to_Char x m = bindr (vp_to Bits64 x m) (\<lambda>a. mk Char (c_conv Char a) m)"

definition idris2_cast_Int8_to_Integer :: "addr \<Rightarrow> mem \<Rightarrow> (addr \<times> mem) res" where
  "idris2_cast_Int8_to_Integer = integer_from Int8 Int64"

definition idris2_cast_Int8_to_string :: "addr \<Rightarrow> mem \<Rightarrow> (addr \<times> mem) res" where
  "idris2_cast_Int8_to_string input m = bindr (vp_to Int8 input m) (\<lambda>x. idris2_string_from (c_decimal x) m)"

definition idris2_cast_Int16_to_Integer :: "addr \<Rightarrow> mem \<Rightarrow> (addr \<times> mem) res" where
  "idris2_cast_Int16_to_Integer = integer_from Int16 Int64"

definition idris2_cast_Int16_to_string :: "addr \<Rightarrow> mem \<Rightarrow> (addr \<times> mem) res" where
  "idris2_cast_Int16_to_string input m = bindr (vp_to Int16 input m) (\<lambda>x. idris2_string_from (c_decimal x) m)"

definition idris2_cast_Int32_to_Integer :: "addr \<Rightarrow> mem \<Rightarrow> (addr \<times> mem) res" where
  "idris2_cast_Int32_to_Integer = integer_from Int32 Int64"

definition idris2_cast_Int32_to_string :: "addr \<Rightarrow> mem \<Rightarrow> (addr \<times> mem) res" where
  "idris2_cast_Int32_to_string input m = bindr (vp_to Int32 input m) (\<lambda>x. idris2_string_from (c_decimal x) m)"

definition idris2_cast_Int64_to_Integer :: "addr \<Rightarrow> mem \<Rightarrow> (addr \<times> mem) res" where
  "idris2_cast_Int64_to_Integer = integer_from Int64 Int64"

definition idris2_cast_Int64_to_string :: "addr \<Rightarrow> mem \<Rightarrow> (addr \<times> mem) res" where
  "idris2_cast_Int64_to_string input m = bindr (vp_to Int64 input m) (\<lambda>x. idris2_string_from (c_decimal x) m)"

definition idris2_cast_Char_to_Integer :: "addr \<Rightarrow> mem \<Rightarrow> (addr \<times> mem) res" where
  "idris2_cast_Char_to_Integer = integer_from Char Int64"

definition idris2_cast_String_to_Bits8 :: "addr \<Rightarrow> mem \<Rightarrow> (addr \<times> mem) res" where
  "idris2_cast_String_to_Bits8 input m =
     bindr (string_of input m) (\<lambda>s. bindr (c_atoi s) (\<lambda>v. mk Bits8 (c_conv Bits8 v) m))"

definition idris2_cast_String_to_Bits16 :: "addr \<Rightarrow> mem \<Rightarrow> (addr \<times> mem) res" where
  "idris2_cast_String_to_Bits16 input m =
     bindr (string_of input m) (\<lambda>s. bindr (c_atoi s) (\<lambda>v. mk Bits16 (c_conv Bits16 v) m))"

definition idris2_cast_String_to_Bits32 :: "addr \<Rightarrow> mem \<Rightarrow> (addr \<times> mem) res" where
  "idris2_cast_String_to_Bits32 input m =
     bindr (string_of input m) (\<lambda>s. bindr (c_atoi s) (\<lambda>v. mk Bits32 (c_conv Bits32 v) m))"

definition idris2_cast_String_to_Bits64 :: "addr \<Rightarrow> mem \<Rightarrow> (addr \<times> mem) res" where
  "idris2_cast_String_to_Bits64 input m =
     bindr (string_of input m) (\<lambda>s. bindr (c_atoi s) (\<lambda>v. mk Bits64 (c_conv Bits64 v) m))"

definition idris2_cast_String_to_Int8 :: "addr \<Rightarrow> mem \<Rightarrow> (addr \<times> mem) res" where
  "idris2_cast_String_to_Int8 input m =
     bindr (string_of input m) (\<lambda>s. bindr (c_atoi s) (\<lambda>v. mk Int8 (c_conv Int8 v) m))"

definition idris2_cast_String_to_Int16 :: "addr \<Rightarrow> mem \<Rightarrow> (addr \<times> mem) res" where
  "idris2_cast_String_to_Int16 input m =
     bindr (string_of input m) (\<lambda>s. bindr (c_atoi s) (\<lambda>v. mk Int16 (c_conv Int16 v) m))"

definition idris2_cast_String_to_Int32 :: "addr \<Rightarrow> mem \<Rightarrow> (addr \<times> mem) res" where
  "idris2_cast_String_to_Int32 input m =
     bindr (string_of input m) (\<lambda>s. bindr (c_atoi s) (\<lambda>v. mk Int32 (c_conv Int32 v) m))"

definition idris2_cast_String_to_Int64 :: "addr \<Rightarrow> mem \<Rightarrow> (addr \<times> mem) res" where
  "idris2_cast_String_to_Int64 input m =
     bindr (string_of input m) (\<lambda>s. bindr (c_atoi s) (\<lambda>v. mk Int64 (c_conv Int64 v) m))"

definition idris2_cast_Bits8_to_Integer :: "addr \<Rightarrow> mem \<Rightarrow> (addr \<times> mem) res" where
  "idris2_cast_Bits8_to_Integer = integer_from Bits8 Bits64"

definition idris2_cast_Bits8_to_string :: "addr \<Rightarrow> mem \<Rightarrow> (addr \<times> mem) res" where
  "idris2_cast_Bits8_to_string input m = bindr (vp_to Bits8 input m) (\<lambda>x. idris2_string_from (c_decimal x) m)"

definition idris2_cast_Bits16_to_Integer :: "addr \<Rightarrow> mem \<Rightarrow> (addr \<times> mem) res" where
  "idris2_cast_Bits16_to_Integer = integer_from Bits16 Bits64"

definition idris2_cast_Bits16_to_string :: "addr \<Rightarrow> mem \<Rightarrow> (addr \<times> mem) res" where
  "idris2_cast_Bits16_to_string input m = bindr (vp_to Bits16 input m) (\<lambda>x. idris2_string_from (c_decimal x) m)"

definition idris2_cast_Bits32_to_Integer :: "addr \<Rightarrow> mem \<Rightarrow> (addr \<times> mem) res" where
  "idris2_cast_Bits32_to_Integer = integer_from Bits32 Bits64"

definition idris2_cast_Bits32_to_string :: "addr \<Rightarrow> mem \<Rightarrow> (addr \<times> mem) res" where
  "idris2_cast_Bits32_to_string input m = bindr (vp_to Bits32 input m) (\<lambda>x. idris2_string_from (c_decimal x) m)"

definition idris2_cast_Bits64_to_Integer :: "addr \<Rightarrow> mem \<Rightarrow> (addr \<times> mem) res" where
  "idris2_cast_Bits64_to_Integer = integer_from Bits64 Bits64"

definition idris2_cast_Bits64_to_string :: "addr \<Rightarrow> mem \<Rightarrow> (addr \<times> mem) res" where
  "idris2_cast_Bits64_to_string input m = bindr (vp_to Bits64 input m) (\<lambda>x. idris2_string_from (c_decimal x) m)"

definition idris2_cast_Integer_to_Bits8 :: "gmp \<Rightarrow> addr \<Rightarrow> mem \<Rightarrow> (addr \<times> mem) res" where
  "idris2_cast_Integer_to_Bits8 g input m =
     bindr (get_integer input m) (\<lambda>i. mk Bits8 (c_conv Bits8 (uint (mpz_get_lsb g i 8))) m)"

definition idris2_cast_Integer_to_Bits16 :: "gmp \<Rightarrow> addr \<Rightarrow> mem \<Rightarrow> (addr \<times> mem) res" where
  "idris2_cast_Integer_to_Bits16 g input m =
     bindr (get_integer input m) (\<lambda>i. mk Bits16 (c_conv Bits16 (uint (mpz_get_lsb g i 16))) m)"

definition idris2_cast_Integer_to_Bits32 :: "gmp \<Rightarrow> addr \<Rightarrow> mem \<Rightarrow> (addr \<times> mem) res" where
  "idris2_cast_Integer_to_Bits32 g input m =
     bindr (get_integer input m) (\<lambda>i. mk Bits32 (c_conv Bits32 (uint (mpz_get_lsb g i 32))) m)"

definition idris2_cast_Integer_to_Bits64 :: "gmp \<Rightarrow> addr \<Rightarrow> mem \<Rightarrow> (addr \<times> mem) res" where
  "idris2_cast_Integer_to_Bits64 g input m =
     bindr (get_integer input m) (\<lambda>i. mk Bits64 (c_conv Bits64 (uint (mpz_get_lsb g i 64))) m)"

definition idris2_cast_Integer_to_Int8 :: "gmp \<Rightarrow> addr \<Rightarrow> mem \<Rightarrow> (addr \<times> mem) res" where
  "idris2_cast_Integer_to_Int8 g input m =
     bindr (get_integer input m) (\<lambda>i. mk Int8 (c_conv Int8 (uint (mpz_get_lsb g i 8))) m)"

definition idris2_cast_Integer_to_Int16 :: "gmp \<Rightarrow> addr \<Rightarrow> mem \<Rightarrow> (addr \<times> mem) res" where
  "idris2_cast_Integer_to_Int16 g input m =
     bindr (get_integer input m) (\<lambda>i. mk Int16 (c_conv Int16 (uint (mpz_get_lsb g i 16))) m)"

definition idris2_cast_Integer_to_Int32 :: "gmp \<Rightarrow> addr \<Rightarrow> mem \<Rightarrow> (addr \<times> mem) res" where
  "idris2_cast_Integer_to_Int32 g input m =
     bindr (get_integer input m) (\<lambda>i. mk Int32 (c_conv Int32 (uint (mpz_get_lsb g i 32))) m)"

definition idris2_cast_Integer_to_Int64 :: "gmp \<Rightarrow> addr \<Rightarrow> mem \<Rightarrow> (addr \<times> mem) res" where
  "idris2_cast_Integer_to_Int64 g input m =
     bindr (get_integer input m) (\<lambda>i. mk Int64 (c_conv Int64 (uint (mpz_get_lsb g i 64))) m)"

definition idris2_cast_Integer_to_Char :: "gmp \<Rightarrow> addr \<Rightarrow> mem \<Rightarrow> (addr \<times> mem) res" where
  "idris2_cast_Integer_to_Char g input m =
     bindr (get_integer input m) (\<lambda>i. mk Char (c_conv Char (uint (mpz_get_lsb g i 8))) m)"

definition idris2_cast_Double_to_Integer :: "gmp \<Rightarrow> addr \<Rightarrow> mem \<Rightarrow> (addr \<times> mem) res" where
  "idris2_cast_Double_to_Integer g input m =
     bindr (idris2_mkInteger m) (\<lambda>(retVal, m1).
     bindr (idris2_vp_to_Double input m1) (\<lambda>d.
     bindr (set_integer retVal (mpz_set_d g d) m1) (\<lambda>m2. Inr (retVal, m2))))"

definition idris2_cast_Double_to_string :: "fpu \<Rightarrow> addr \<Rightarrow> mem \<Rightarrow> (addr \<times> mem) res" where
  "idris2_cast_Double_to_string F input m =
     bindr (idris2_vp_to_Double input m) (\<lambda>x. idris2_string_from (f_print F x) m)"

definition idris2_cast_Char_to_string :: "addr \<Rightarrow> mem \<Rightarrow> (addr \<times> mem) res" where
  "idris2_cast_Char_to_string input m =
     bindr (idris2_mkEmptyString 2 m) (\<lambda>(retVal, m1).
     bindr (get_str retVal m1) (\<lambda>str.
     bindr (store_byte str 0 (word_of_int (idris2_vp_to_Char input)) m1) (\<lambda>m2. Inr (retVal, m2))))"

definition idris2_cast_String_to_Integer :: "gmp \<Rightarrow> addr \<Rightarrow> mem \<Rightarrow> (addr \<times> mem) res" where
  "idris2_cast_String_to_Integer g input m =
     bindr (idris2_mkInteger m) (\<lambda>(retVal, m1).
     bindr (string_of input m1) (\<lambda>s.
     bindr (get_integer retVal m1) (\<lambda>old.
     bindr (set_integer retVal (mpz_set_str g s old) m1) (\<lambda>m2. Inr (retVal, m2)))))"

definition idris2_cast_String_to_Double :: "fpu \<Rightarrow> addr \<Rightarrow> mem \<Rightarrow> (addr \<times> mem) res" where
  "idris2_cast_String_to_Double F input m =
     bindr (string_of input m) (\<lambda>s. idris2_mkDouble (f_parse F s) m)"

definition idris2_cast_Integer_to_Double :: "gmp \<Rightarrow> addr \<Rightarrow> mem \<Rightarrow> (addr \<times> mem) res" where
  "idris2_cast_Integer_to_Double g input m =
     bindr (get_integer input m) (\<lambda>i. idris2_mkDouble (mpz_get_d g i) m)"

text \<open>\<open>mpz_get_str\<close> with a null buffer allocates the text itself, and aborts when it cannot.\<close>

definition idris2_cast_Integer_to_string :: "gmp \<Rightarrow> addr \<Rightarrow> mem \<Rightarrow> (addr \<times> mem) res" where
  "idris2_cast_Integer_to_string g input m =
     bindr (idris2_newValue 16 m) (\<lambda>(retVal, m1).
     bindr (get_integer input m1) (\<lambda>i.
     let s = mpz_get_str g i; (str, m2) = c_malloc (length s + 1) m1 in
     bindr (checkr (str \<noteq> 0)) (\<lambda>_.
     bindr (c_store_bytes str 0 (s @ [0]) m2) (\<lambda>m3.
     bindr (set_payload retVal STRING_TAG (Idris2_String str) m3) (\<lambda>m4. Inr (retVal, m4))))))"

section \<open>Integer literals\<close>

text \<open>\<open>idris2_mkIntegerLiteral\<close> (\<open>refc/memoryManagement.c\<close>); the compiler passes it the digits of the literal.\<close>

definition idris2_mkIntegerLiteral :: "gmp \<Rightarrow> addr \<Rightarrow> mem \<Rightarrow> (addr \<times> mem) res" where
  "idris2_mkIntegerLiteral g i m =
     bindr (idris2_mkInteger m) (\<lambda>(retVal, m1).
     bindr (c_string i 0 m1) (\<lambda>s.
     bindr (get_integer retVal m1) (\<lambda>old.
     bindr (set_integer retVal (mpz_set_str g s old) m1) (\<lambda>m2. Inr (retVal, m2)))))"

end
