(* ===== verification/Casts_Correct.thy ===== *)
theory Casts_Correct
  imports Casts
begin

text \<open>
  Correctness of \<open>Casts\<close>: conversions between integer types are conversions of the number, the round
  trips through \<open>Integer\<close> and through decimal text, and where the identity casts go wrong.
\<close>

section \<open>Between fixed-width types\<close>

definition converting_casts :: "(ity \<times> ity \<times> (addr \<Rightarrow> mem \<Rightarrow> (addr \<times> mem) res)) list" where
  "converting_casts =
     [(Int8, Bits64, idris2_cast_Int8_to_Bits64), (Int8, Int16, idris2_cast_Int8_to_Int16),
      (Int8, Int32, idris2_cast_Int8_to_Int32), (Int8, Int64, idris2_cast_Int8_to_Int64),
      (Int8, Char, idris2_cast_Int8_to_Char), (Int16, Bits8, idris2_cast_Int16_to_Bits8),
      (Int16, Bits64, idris2_cast_Int16_to_Bits64), (Int16, Int8, idris2_cast_Int16_to_Int8),
      (Int16, Int64, idris2_cast_Int16_to_Int64), (Int16, Char, idris2_cast_Int16_to_Char),
      (Int32, Bits8, idris2_cast_Int32_to_Bits8), (Int32, Bits16, idris2_cast_Int32_to_Bits16),
      (Int32, Bits64, idris2_cast_Int32_to_Bits64), (Int32, Int8, idris2_cast_Int32_to_Int8),
      (Int32, Int16, idris2_cast_Int32_to_Int16), (Int32, Int64, idris2_cast_Int32_to_Int64),
      (Int32, Char, idris2_cast_Int32_to_Char), (Int64, Bits8, idris2_cast_Int64_to_Bits8),
      (Int64, Bits16, idris2_cast_Int64_to_Bits16), (Int64, Bits32, idris2_cast_Int64_to_Bits32),
      (Int64, Bits64, idris2_cast_Int64_to_Bits64), (Int64, Int8, idris2_cast_Int64_to_Int8),
      (Int64, Int16, idris2_cast_Int64_to_Int16), (Int64, Int32, idris2_cast_Int64_to_Int32),
      (Int64, Char, idris2_cast_Int64_to_Char), (Char, Bits8, idris2_cast_Char_to_Bits8),
      (Char, Bits16, idris2_cast_Char_to_Bits16), (Char, Bits32, idris2_cast_Char_to_Bits32),
      (Char, Bits64, idris2_cast_Char_to_Bits64), (Char, Int8, idris2_cast_Char_to_Int8),
      (Char, Int16, idris2_cast_Char_to_Int16), (Char, Int32, idris2_cast_Char_to_Int32),
      (Char, Int64, idris2_cast_Char_to_Int64), (Bits8, Bits64, idris2_cast_Bits8_to_Bits64),
      (Bits8, Int64, idris2_cast_Bits8_to_Int64), (Bits8, Char, idris2_cast_Bits8_to_Char),
      (Bits16, Bits8, idris2_cast_Bits16_to_Bits8), (Bits16, Bits32, idris2_cast_Bits16_to_Bits32),
      (Bits16, Bits64, idris2_cast_Bits16_to_Bits64), (Bits16, Int8, idris2_cast_Bits16_to_Int8),
      (Bits16, Int16, idris2_cast_Bits16_to_Int16), (Bits16, Int32, idris2_cast_Bits16_to_Int32),
      (Bits16, Int64, idris2_cast_Bits16_to_Int64), (Bits16, Char, idris2_cast_Bits16_to_Char),
      (Bits32, Bits8, idris2_cast_Bits32_to_Bits8), (Bits32, Bits16, idris2_cast_Bits32_to_Bits16),
      (Bits32, Bits64, idris2_cast_Bits32_to_Bits64), (Bits32, Int8, idris2_cast_Bits32_to_Int8),
      (Bits32, Int16, idris2_cast_Bits32_to_Int16), (Bits32, Int32, idris2_cast_Bits32_to_Int32),
      (Bits32, Int64, idris2_cast_Bits32_to_Int64), (Bits32, Char, idris2_cast_Bits32_to_Char),
      (Bits64, Bits8, idris2_cast_Bits64_to_Bits8), (Bits64, Bits16, idris2_cast_Bits64_to_Bits16),
      (Bits64, Bits32, idris2_cast_Bits64_to_Bits32), (Bits64, Int8, idris2_cast_Bits64_to_Int8),
      (Bits64, Int16, idris2_cast_Bits64_to_Int16), (Bits64, Int32, idris2_cast_Bits64_to_Int32),
      (Bits64, Int64, idris2_cast_Bits64_to_Int64), (Bits64, Char, idris2_cast_Bits64_to_Char)]"

definition identity_casts :: "(ity \<times> ity \<times> (addr \<Rightarrow> mem \<Rightarrow> (addr \<times> mem) res)) list" where
  "identity_casts =
     [(Int8, Bits8, idris2_cast_Int8_to_Bits8), (Int8, Bits16, idris2_cast_Int8_to_Bits16),
      (Int8, Bits32, idris2_cast_Int8_to_Bits32), (Int16, Bits16, idris2_cast_Int16_to_Bits16),
      (Int16, Bits32, idris2_cast_Int16_to_Bits32), (Int16, Int32, idris2_cast_Int16_to_Int32),
      (Int32, Bits32, idris2_cast_Int32_to_Bits32), (Bits8, Bits16, idris2_cast_Bits8_to_Bits16),
      (Bits8, Bits32, idris2_cast_Bits8_to_Bits32), (Bits8, Int8, idris2_cast_Bits8_to_Int8),
      (Bits8, Int16, idris2_cast_Bits8_to_Int16), (Bits8, Int32, idris2_cast_Bits8_to_Int32)]"

lemmas converting_cast_defs = idris2_cast_Int8_to_Bits64_def idris2_cast_Int8_to_Int16_def idris2_cast_Int8_to_Int32_def
  idris2_cast_Int8_to_Int64_def idris2_cast_Int8_to_Char_def idris2_cast_Int16_to_Bits8_def
  idris2_cast_Int16_to_Bits64_def idris2_cast_Int16_to_Int8_def idris2_cast_Int16_to_Int64_def
  idris2_cast_Int16_to_Char_def idris2_cast_Int32_to_Bits8_def idris2_cast_Int32_to_Bits16_def
  idris2_cast_Int32_to_Bits64_def idris2_cast_Int32_to_Int8_def idris2_cast_Int32_to_Int16_def
  idris2_cast_Int32_to_Int64_def idris2_cast_Int32_to_Char_def idris2_cast_Int64_to_Bits8_def
  idris2_cast_Int64_to_Bits16_def idris2_cast_Int64_to_Bits32_def idris2_cast_Int64_to_Bits64_def
  idris2_cast_Int64_to_Int8_def idris2_cast_Int64_to_Int16_def idris2_cast_Int64_to_Int32_def
  idris2_cast_Int64_to_Char_def idris2_cast_Char_to_Bits8_def idris2_cast_Char_to_Bits16_def
  idris2_cast_Char_to_Bits32_def idris2_cast_Char_to_Bits64_def idris2_cast_Char_to_Int8_def
  idris2_cast_Char_to_Int16_def idris2_cast_Char_to_Int32_def idris2_cast_Char_to_Int64_def
  idris2_cast_Bits8_to_Bits64_def idris2_cast_Bits8_to_Int64_def idris2_cast_Bits8_to_Char_def
  idris2_cast_Bits16_to_Bits8_def idris2_cast_Bits16_to_Bits32_def idris2_cast_Bits16_to_Bits64_def
  idris2_cast_Bits16_to_Int8_def idris2_cast_Bits16_to_Int16_def idris2_cast_Bits16_to_Int32_def
  idris2_cast_Bits16_to_Int64_def idris2_cast_Bits16_to_Char_def idris2_cast_Bits32_to_Bits8_def
  idris2_cast_Bits32_to_Bits16_def idris2_cast_Bits32_to_Bits64_def idris2_cast_Bits32_to_Int8_def
  idris2_cast_Bits32_to_Int16_def idris2_cast_Bits32_to_Int32_def idris2_cast_Bits32_to_Int64_def
  idris2_cast_Bits32_to_Char_def idris2_cast_Bits64_to_Bits8_def idris2_cast_Bits64_to_Bits16_def
  idris2_cast_Bits64_to_Bits32_def idris2_cast_Bits64_to_Int8_def idris2_cast_Bits64_to_Int16_def
  idris2_cast_Bits64_to_Int32_def idris2_cast_Bits64_to_Int64_def idris2_cast_Bits64_to_Char_def

lemmas identity_cast_defs = idris2_cast_Int8_to_Bits8_def idris2_cast_Int8_to_Bits16_def idris2_cast_Int8_to_Bits32_def
  idris2_cast_Int16_to_Bits16_def idris2_cast_Int16_to_Bits32_def idris2_cast_Int16_to_Int32_def
  idris2_cast_Int32_to_Bits32_def idris2_cast_Bits8_to_Bits16_def idris2_cast_Bits8_to_Bits32_def
  idris2_cast_Bits8_to_Int8_def idris2_cast_Bits8_to_Int16_def idris2_cast_Bits8_to_Int32_def

text \<open>The upper half of a pointer that holds a small integer is the extension of its value at the
  given type.\<close>

definition canonical :: "ity \<Rightarrow> addr \<Rightarrow> bool" where
  "canonical ty p \<longleftrightarrow>
     (let raw = uint (drop_bit idris2_vp_int_shift p) in raw = take_bit 32 (c_conv ty raw))"

text \<open>A value made at one type reads correctly at another type of the same width.\<close>

lemma mk_read_same_width:
  assumes "rt_wf m" "mk t v m = Inr (p, m')" "width t = width u"
  shows "vp_to u p m' = Inr (c_conv u v)"
  using assms mkInt64_boxed [OF assms(1), of "word_of_int v" p m']
  by (cases t; cases u) (auto simp: unboxed_mk_defs unboxed_to_defs unboxed_roundtrip
      idris2_vp_to_Int64_def idris2_vp_to_Bits64_def uint_word_conv sint_word_conv)

text \<open>The conversions from \<open>Bits32\<close> to a signed type use the constructor of the unsigned type.\<close>

definition made_as :: "ity \<Rightarrow> ity \<Rightarrow> ity" where
  "made_as a b =
     (if a = Bits32
      then case b of Int8 \<Rightarrow> Bits8 | Int16 \<Rightarrow> Bits16 | Int32 \<Rightarrow> Bits32 | Int64 \<Rightarrow> Bits64 | _ \<Rightarrow> b
      else b)"

lemma made_as_width: "width (made_as a b) = width b"
  by (cases b) (simp_all add: made_as_def)

lemma converting_cast_cases:
  "(a, b, f) \<in> set converting_casts \<Longrightarrow>
   f x m = bindr (vp_to a x m) (\<lambda>v. mk (made_as a b) (c_conv b v) m)"
  unfolding converting_casts_def by (auto simp: converting_cast_defs made_as_def)

lemma unboxed_vp_to:
  "width ty \<le> 32 \<Longrightarrow> vp_to ty x m = Inr (c_conv ty (uint (drop_bit idris2_vp_int_shift x)))"
  by (cases ty) (simp_all add: unboxed_to_defs)

lemma identity_cast_cases:
  "(a, b, f) \<in> set identity_casts \<Longrightarrow> f = (\<lambda>x m. Inr (x, m)) \<and> width a \<le> 32 \<and> width b \<le> 32"
  unfolding identity_casts_def by (auto simp: identity_cast_defs fun_eq_iff)

lemma identity_cast_read:
  assumes "(a, b, f) \<in> set identity_casts" "width b \<le> width a \<or> canonical a x" "vp_to a x m = Inr v"
  shows "vp_to b x m = Inr (c_conv b v)"
proof -
  define raw where "raw = uint (drop_bit idris2_vp_int_shift x)"
  have w: "width a \<le> 32" "width b \<le> 32" using identity_cast_cases [OF assms(1)] by auto
  have v: "v = c_conv a raw" using assms(3) unboxed_vp_to [OF w(1)] by (simp add: raw_def)
  have "c_conv b raw = c_conv b (c_conv a raw)" if "canonical a x"
    using that w(2) c_conv_take_bit [of b 32 "c_conv a raw"] by (simp add: canonical_def raw_def Let_def)
  moreover have "c_conv b raw = c_conv b (c_conv a raw)" if "width b \<le> width a"
    using that by simp
  ultimately show ?thesis
    using assms(2) unboxed_vp_to [OF w(2)] v by (auto simp: raw_def)
qed

text \<open>C23. Every conversion between fixed-width integers and characters (72 macros) returns a value
  that reads as the C conversion of the number, in a memory that only grew; the only fault is a failed
  allocation. For the macros that return their argument unchanged and widen, this needs the argument
  to be canonical.\<close>

theorem cast_correct:
  assumes "(a, b, f) \<in> set converting_casts \<or>
      (a, b, f) \<in> set identity_casts \<and> (width b \<le> width a \<or> canonical a x)"
    and "rt_wf m" "vp_to a x m = Inr v"
  shows "case f x m of
      Inr (p, m') \<Rightarrow> vp_to b p m' = Inr (c_conv b v) \<and> rt_wf m' \<and> extends m m'
    | Inl e \<Rightarrow> e = Verify_failed \<and> \<not> brk m < lim m"
  using assms(1)
proof (elim disjE conjE)
  assume "(a, b, f) \<in> set converting_casts"
  then have "f x m = mk (made_as a b) (c_conv b v) m"
    using assms(3) by (simp add: converting_cast_cases)
  then show ?thesis
    using mk_read_same_width [OF assms(2) _ made_as_width] mk_extends [OF assms(2)] box.make_wf [OF assms(2)]
      box.make_fault [OF assms(2)]
    by (cases "mk (made_as a b) (c_conv b v) m") fastforce+
qed (use identity_cast_read [of a b f x m v] identity_cast_cases [of a b f] assms in auto)

theorem cast_correct_witness:
  "case idris2_cast_Int16_to_Bits64 (idris2_mkInt16 (- 2)) (init_mem 1000) of
      Inr (p, m') \<Rightarrow> vp_to Bits64 p m' = Inr (c_conv Bits64 (- 2)) \<and> rt_wf m' \<and> extends (init_mem 1000) m'
    | Inl e \<Rightarrow> e = Verify_failed \<and> \<not> brk (init_mem 1000) < lim (init_mem 1000)"
  by (rule cast_correct [of Int16]) (simp_all add: converting_casts_def rt_wf_example in_range_code)

lemma mk_Bits8_as_Bits16: "idris2_vp_to_Bits16 (idris2_mkBits8 v) = c_conv Bits16 v"
  by (simp add: unboxed_mk_defs unboxed_to_defs unboxed_roundtrip)

text \<open>Arithmetic does not keep values canonical, and an identity cast then exposes the carry: the
  \<open>Bits8\<close> sum of 255 and 1 reads 0, and the same sum cast to \<open>Bits16\<close> reads 256.\<close>

theorem identity_cast_exposes_carry:
  "\<exists>p. idris2_add_Bits8 (idris2_mkBits8 255) (idris2_mkBits8 1) m = Inr (p, m) \<and>
     vp_to Bits8 p m = Inr 0 \<and>
     idris2_cast_Bits8_to_Bits16 p m = Inr (p, m) \<and> vp_to Bits16 p m = Inr 256"
proof -
  have "vp_to Bits16 (idris2_mkBits8 256) m = Inr 256"
    using mk_Bits8_as_Bits16 [of 256] by (simp add: in_range_code)
  moreover have "c_conv Bits8 256 = 0" by (simp add: c_conv_def)
  ultimately show ?thesis
    by (simp add: idris2_add_Bits8_def idris2_binop_def c_int idris2_cast_Bits8_to_Bits16_def)
qed

section \<open>Through Integer\<close>

definition integer_casts ::
  "(ity \<times> (addr \<Rightarrow> mem \<Rightarrow> (addr \<times> mem) res) \<times> (gmp \<Rightarrow> addr \<Rightarrow> mem \<Rightarrow> (addr \<times> mem) res)) list" where
  "integer_casts =
     [(Int8, idris2_cast_Int8_to_Integer, idris2_cast_Integer_to_Int8),
      (Int16, idris2_cast_Int16_to_Integer, idris2_cast_Integer_to_Int16),
      (Int32, idris2_cast_Int32_to_Integer, idris2_cast_Integer_to_Int32),
      (Int64, idris2_cast_Int64_to_Integer, idris2_cast_Integer_to_Int64),
      (Char, idris2_cast_Char_to_Integer, idris2_cast_Integer_to_Char),
      (Bits8, idris2_cast_Bits8_to_Integer, idris2_cast_Integer_to_Bits8),
      (Bits16, idris2_cast_Bits16_to_Integer, idris2_cast_Integer_to_Bits16),
      (Bits32, idris2_cast_Bits32_to_Integer, idris2_cast_Integer_to_Bits32),
      (Bits64, idris2_cast_Bits64_to_Integer, idris2_cast_Integer_to_Bits64)]"

lemmas integer_cast_defs = idris2_cast_Int8_to_Integer_def idris2_cast_Int16_to_Integer_def idris2_cast_Int32_to_Integer_def
  idris2_cast_Int64_to_Integer_def idris2_cast_Char_to_Integer_def idris2_cast_Bits8_to_Integer_def
  idris2_cast_Bits16_to_Integer_def idris2_cast_Bits32_to_Integer_def idris2_cast_Bits64_to_Integer_def
  idris2_cast_Integer_to_Int8_def idris2_cast_Integer_to_Int16_def idris2_cast_Integer_to_Int32_def
  idris2_cast_Integer_to_Int64_def idris2_cast_Integer_to_Char_def idris2_cast_Integer_to_Bits8_def
  idris2_cast_Integer_to_Bits16_def idris2_cast_Integer_to_Bits32_def idris2_cast_Integer_to_Bits64_def

definition long_of :: "ity \<Rightarrow> ity" where
  "long_of ty = (if is_signed ty \<or> ty = Char then Int64 else Bits64)"

lemma integer_casts_cases:
  assumes "(ty, f, g) \<in> set integer_casts"
  shows "f = integer_from ty (long_of ty)"
    "g G x m = bindr (get_integer x m) (\<lambda>i. mk ty (c_conv ty (uint (mpz_get_lsb G i (width ty)))) m)"
  using assms unfolding integer_casts_def by (auto simp: integer_cast_defs long_of_def)

lemma in_range_long: "in_range ty v \<Longrightarrow> in_range (long_of ty) v"
  by (cases ty) (auto simp: long_of_def in_range_code)

lemma mpz_get_lsb_value:
  assumes "gmp_documented G" "w \<le> 64"
  shows "uint (mpz_get_lsb G i w) = take_bit w i"
proof -
  have "mpz_get_lsb G i w = word_of_int (take_bit w i)"
    by (simp add: mpz_get_lsb_def gmp_documentedD [OF assms(1)] take_bit_eq_mod)
  then show ?thesis using assms(2) by (simp add: uint_word_of_int_eq min_def)
qed

lemma width_le_64: "width ty \<le> 64" by (cases ty) simp_all

text \<open>A conversion from \<open>Integer\<close> to a fixed-width type takes the low bits of the number, in two's
  complement for negative numbers.\<close>

theorem cast_of_Integer:
  assumes "(ty, f, g) \<in> set integer_casts" "gmp_documented G" "rt_wf m" "get_integer x m = Inr i"
  shows "case g G x m of
      Inr (p, m') \<Rightarrow> vp_to ty p m' = Inr (c_conv ty i) \<and> rt_wf m' \<and> extends m m'
    | Inl e \<Rightarrow> e = Verify_failed \<and> \<not> brk m < lim m"
proof -
  have "g G x m = mk ty (c_conv ty i) m"
    using assms(4) by (simp add: integer_casts_cases(2) [OF assms(1)]
        mpz_get_lsb_value [OF assms(2)] width_le_64)
  then show ?thesis
    using box.make_rd [OF assms(3), of ty "c_conv ty i"] mk_extends [OF assms(3)]
      box.make_wf [OF assms(3)] box.make_fault [OF assms(3)]
    by (cases "mk ty (c_conv ty i) m") fastforce+
qed

theorem cast_of_Integer_witness:
  "case idris2_cast_Integer_to_Bits8 gmp_ints (addr_of 320) example_ints of
      Inr (p, m') \<Rightarrow> vp_to Bits8 p m' = Inr (c_conv Bits8 (- 7)) \<and> rt_wf m' \<and> extends example_ints m'
    | Inl e \<Rightarrow> e = Verify_failed \<and> \<not> brk example_ints < lim example_ints"
  by (rule cast_of_Integer [of Bits8 idris2_cast_Bits8_to_Integer idris2_cast_Integer_to_Bits8])
    (simp_all add: integer_casts_def gmp_ints_documented example_ints_facts)

lemma integer_from_result:
  assumes "rt_wf m" "brk m < lim m" "vp_to ty x m = Inr a"
  shows "integer_from ty (long_of ty) x m = Inr (addr_of (brk m), new_integer a m)"
proof -
  have "c_conv (long_of ty) a = a" using box.rd_range [OF assms(3)] in_range_long by simp
  moreover have "vp_to ty x (alloc_obj v m) = Inr a" for v
    using extends_vp_to [OF extends_alloc_obj [OF rt_wf_mem_wf [OF assms(1)]] assms(3)] .
  ultimately show ?thesis
    using assms by (simp add: integer_from_def integer_steps)
qed

text \<open>C24. A fixed-width value converted to \<open>Integer\<close> and back reads the same; the \<open>Integer\<close> in between
  is its value.\<close>

theorem Integer_roundtrip:
  assumes "(ty, f, g) \<in> set integer_casts" "gmp_documented G" "rt_wf m" "Suc (brk m) < lim m"
    and "vp_to ty x m = Inr a"
  shows "\<exists>p m1 q m2. f x m = Inr (p, m1) \<and> get_integer p m1 = Inr a \<and>
    g G p m1 = Inr (q, m2) \<and> vp_to ty q m2 = Inr a \<and> rt_wf m2 \<and> extends m m2"
proof -
  define m1 where "m1 = new_integer a m"
  have f: "f x m = Inr (addr_of (brk m), m1)"
    using assms integer_from_result [OF assms(3) _ assms(5)]
    by (simp add: integer_casts_cases(1) [OF assms(1)] m1_def)
  have m1: "rt_wf m1" "get_integer (addr_of (brk m)) m1 = Inr a" "extends m m1" "brk m1 < lim m1"
    using assms new_integer_read [OF assms(3)] extends_alloc_obj [OF rt_wf_mem_wf [OF assms(3)]]
    by (simp_all add: m1_def rt_wf_new_integer) (simp_all add: new_integer_def)
  have g: "g G (addr_of (brk m)) m1 = mk ty a m1"
    using m1(2) box.rd_range [OF assms(5)]
    by (simp add: integer_casts_cases(2) [OF assms(1)] mpz_get_lsb_value [OF assms(2)] width_le_64)
  obtain q m2 where "mk ty a m1 = Inr (q, m2)"
    using box.make_fault [OF m1(1), of ty a] m1(4) by (cases "mk ty a m1") auto
  then show ?thesis
    using f g m1 box.make_rd_exact [OF m1(1) box.rd_range [OF assms(5)]] box.make_wf [OF m1(1)]
      mk_extends [OF m1(1)] extends_trans [OF m1(3)] by auto
qed

theorem Integer_roundtrip_witness:
  "\<exists>p m1 q m2. idris2_cast_Int8_to_Integer (idris2_mkInt8 (- 100)) (init_mem 1000) = Inr (p, m1) \<and>
    get_integer p m1 = Inr (- 100) \<and> idris2_cast_Integer_to_Int8 gmp_ints p m1 = Inr (q, m2) \<and>
    vp_to Int8 q m2 = Inr (- 100) \<and> rt_wf m2 \<and> extends (init_mem 1000) m2"
  by (rule Integer_roundtrip [of Int8])
    (simp_all add: integer_casts_def gmp_ints_documented rt_wf_example in_range_code)

section \<open>Through decimal text\<close>

definition decimal_casts :: "(ity \<times> (addr \<Rightarrow> mem \<Rightarrow> (addr \<times> mem) res) \<times> (addr \<Rightarrow> mem \<Rightarrow> (addr \<times> mem) res)) list" where
  "decimal_casts =
     [(Int8, idris2_cast_Int8_to_string, idris2_cast_String_to_Int8),
      (Int16, idris2_cast_Int16_to_string, idris2_cast_String_to_Int16),
      (Int32, idris2_cast_Int32_to_string, idris2_cast_String_to_Int32),
      (Int64, idris2_cast_Int64_to_string, idris2_cast_String_to_Int64),
      (Bits8, idris2_cast_Bits8_to_string, idris2_cast_String_to_Bits8),
      (Bits16, idris2_cast_Bits16_to_string, idris2_cast_String_to_Bits16),
      (Bits32, idris2_cast_Bits32_to_string, idris2_cast_String_to_Bits32),
      (Bits64, idris2_cast_Bits64_to_string, idris2_cast_String_to_Bits64)]"

lemmas decimal_cast_defs = idris2_cast_Int8_to_string_def idris2_cast_Int16_to_string_def idris2_cast_Int32_to_string_def
  idris2_cast_Int64_to_string_def idris2_cast_Bits8_to_string_def idris2_cast_Bits16_to_string_def
  idris2_cast_Bits32_to_string_def idris2_cast_Bits64_to_string_def idris2_cast_String_to_Int8_def
  idris2_cast_String_to_Int16_def idris2_cast_String_to_Int32_def idris2_cast_String_to_Int64_def
  idris2_cast_String_to_Bits8_def idris2_cast_String_to_Bits16_def idris2_cast_String_to_Bits32_def
  idris2_cast_String_to_Bits64_def

lemma decimal_casts_cases:
  assumes "(ty, f, g) \<in> set decimal_casts"
  shows "f x m = bindr (vp_to ty x m) (\<lambda>a. idris2_string_from (c_decimal a) m)"
    "g x m = bindr (string_of x m) (\<lambda>s. bindr (c_atoi s) (\<lambda>v. mk ty (c_conv ty v) m))"
  using assms unfolding decimal_casts_def by (auto simp: decimal_cast_defs)

lemma string_from_result:
  assumes "rt_wf m" "Suc (brk m) < lim m" "txt \<noteq> []" "length txt < 2 ^ 61"
  shows "idris2_string_from txt m = Inr (addr_of (brk m), alloc_str (map Some (txt @ [0])) m)"
  using assms
  by (simp add: idris2_string_from_def mkEmptyString_cases alloc_str_read c_sprintf_def c_store_bytes_def
      alloc_str_write)

lemma c_decimal_nonempty: "c_decimal v \<noteq> []"
  by (simp add: c_decimal_def dec_nat_nonempty)

text \<open>C25. A fixed-width value is printed as its decimal text, and reading that text back gives the
  value, as long as it is representable as an \<open>int\<close>; beyond that (possible for \<open>Bits32\<close>, \<open>Bits64\<close> and
  \<open>Int64\<close>) the behaviour of \<open>atoi\<close> is undefined.\<close>

theorem decimal_roundtrip:
  assumes "(ty, f, g) \<in> set decimal_casts" "rt_wf m" "Suc (Suc (brk m)) < lim m" "vp_to ty x m = Inr a"
  shows "\<exists>p m1. f x m = Inr (p, m1) \<and> string_of p m1 = Inr (c_decimal a) \<and> rt_wf m1 \<and> extends m m1 \<and>
    (if in_range Int32 a then \<exists>q m2. g p m1 = Inr (q, m2) \<and> vp_to ty q m2 = Inr a \<and> rt_wf m2
     else g p m1 = Inl (Undefined Int_overflow))"
proof -
  define m1 where "m1 = alloc_str (map Some (c_decimal a) @ [Some 0]) m"
  have r: "in_range ty a" using assms(4) by (rule box.rd_range)
  have s: "Suc (brk m) < lim m" using assms(3) by simp
  have f: "f x m = Inr (addr_of (brk m), m1)"
    using string_from_result [OF assms(2) s c_decimal_nonempty] c_decimal_length [OF r] assms(4)
    by (simp add: decimal_casts_cases(1) [OF assms(1)] m1_def)
  have m1: "rt_wf m1" "extends m m1" "brk m1 < lim m1"
    "string_of (addr_of (brk m)) m1 = Inr (c_decimal a)"
    using rt_wf_alloc_str [OF assms(2) s] assms(3) alloc_str_string [OF assms(2) s c_decimal_no_zero]
    by (simp_all add: m1_def)
  then have g: "g (addr_of (brk m)) m1 =
      (if in_range Int32 a then mk ty a m1 else Inl (Undefined Int_overflow))"
    using r by (simp add: decimal_casts_cases(2) [OF assms(1)] c_atoi_decimal)
  obtain q m2 where "mk ty a m1 = Inr (q, m2)"
    using box.make_fault [OF m1(1), of ty a] m1(3) by (cases "mk ty a m1") auto
  then show ?thesis
    using f g m1 box.make_rd_exact [OF m1(1) r] box.make_wf [OF m1(1)] by auto
qed

theorem decimal_roundtrip_witness:
  "\<exists>p m1. idris2_cast_Bits16_to_string (idris2_mkBits16 42) (init_mem 1000) = Inr (p, m1) \<and>
    string_of p m1 = Inr (c_decimal 42) \<and> rt_wf m1 \<and> extends (init_mem 1000) m1 \<and>
    (if in_range Int32 42 then \<exists>q m2. idris2_cast_String_to_Bits16 p m1 = Inr (q, m2) \<and>
       vp_to Bits16 q m2 = Inr 42 \<and> rt_wf m2
     else idris2_cast_String_to_Bits16 p m1 = Inl (Undefined Int_overflow))"
  by (rule decimal_roundtrip) (simp_all add: decimal_casts_def rt_wf_example in_range_code)

section \<open>Integers through decimal text\<close>

text \<open>The documented behaviour of \<open>mpz_get_str\<close> and \<open>mpz_set_str\<close> in base 10.\<close>

definition gmp_decimal :: "gmp \<Rightarrow> bool" where
  "gmp_decimal g \<longleftrightarrow> (\<forall>a. mpz_get_str g a = c_decimal a) \<and> (\<forall>a old. mpz_set_str g (c_decimal a) old = a)"

lemma Integer_to_string_result:
  assumes "rt_wf m" "Suc (brk m) < lim m" "get_integer x m = Inr a" "length (mpz_get_str g a) < 2 ^ 62"
  shows "idris2_cast_Integer_to_string g x m = Inr (addr_of (brk m), alloc_str (map Some (mpz_get_str g a @ [0])) m)"
proof -
  let ?o = "alloc_obj \<lparr>refCounter = 1, tag = NO_TAG, payload = No_payload\<rparr> m" and ?s = "mpz_get_str g a"
  have wf: "mem_wf ?o" using assms(1,2) by (simp add: mem_wf_alloc_obj rt_wf_mem_wf)
  have "c_malloc (length ?s + 1) ?o = (addr_of (Suc (brk m)), alloc_blk (Bytes (replicate (length ?s + 1) None)) ?o)"
    using assms(2,4) c_malloc_cases [of "length ?s + 1" ?o] by simp
  moreover have "c_store_bytes (addr_of (Suc (brk m))) 0 (?s @ [0]) (alloc_blk (Bytes (replicate (length ?s + 1) None)) ?o) =
      Inr (alloc_blk (Bytes (map Some (?s @ [0]))) ?o)"
    using alloc_str_addrs [OF assms(1,2)] by (simp add: c_store_bytes_def get_bytes_def alloc_blk_def)
  moreover have "idris2_newValue 16 m = Inr (addr_of (brk m), ?o)"
    using assms(2) by (simp add: idris2_newValue_cases [OF rt_wf_mem_wf [OF assms(1)]])
  moreover have "set_payload (addr_of (brk m)) STRING_TAG (Idris2_String (addr_of (Suc (brk m))))
      (alloc_blk (Bytes (map Some (?s @ [0]))) ?o) = Inr (alloc_str (map Some (?s @ [0])) m)"
    using set_payload_new(1) [OF assms(1)] assms(2) by (simp add: alloc_str_def)
  ultimately show ?thesis
    using get_integer_alloc [OF assms(1,3)] alloc_str_addrs [OF assms(1,2)]
    by (simp add: idris2_cast_Integer_to_string_def Let_def)
qed

text \<open>An \<open>Integer\<close> of any size printed and read back is itself, and a literal is the number it spells.\<close>

theorem Integer_decimal_roundtrip:
  assumes "gmp_decimal g" "rt_wf m" "Suc (Suc (brk m)) < lim m" "get_integer x m = Inr a" "length (c_decimal a) < 2 ^ 62"
  shows "\<exists>p m1 q m2. idris2_cast_Integer_to_string g x m = Inr (p, m1) \<and> string_of p m1 = Inr (c_decimal a) \<and>
    idris2_cast_String_to_Integer g p m1 = Inr (q, m2) \<and> get_integer q m2 = Inr a \<and>
    (\<forall>lit. c_string lit 0 m = Inr (c_decimal b) \<longrightarrow> (\<exists>m3. idris2_mkIntegerLiteral g lit m = Inr (addr_of (brk m), m3) \<and>
      get_integer (addr_of (brk m)) m3 = Inr b))"
proof -
  let ?m1 = "alloc_str (map Some (c_decimal a @ [0])) m"
  have gmp: "mpz_get_str g a = c_decimal a" "mpz_set_str g (c_decimal b) old = b" for a b old using assms(1) by (simp_all add: gmp_decimal_def)
  have run: "idris2_cast_Integer_to_string g x m = Inr (addr_of (brk m), ?m1)"
    using Integer_to_string_result [OF assms(2) _ assms(4), of g] assms(3,5) gmp by simp
  have str: "string_of (addr_of (brk m)) ?m1 = Inr (c_decimal a)"
    using alloc_str_string [OF assms(2) _ c_decimal_no_zero] assms(3) by simp
  have wf1: "rt_wf ?m1" using rt_wf_alloc_str(1) [OF assms(2)] assms(3) by simp
  have "idris2_cast_String_to_Integer g (addr_of (brk m)) ?m1 = Inr (addr_of (Suc (Suc (brk m))), new_integer a ?m1)"
    using extends_string_of [OF extends_alloc_obj [OF rt_wf_mem_wf [OF wf1]] str] assms(3) wf1 new_integer_read [OF wf1, of 0]
      set_integer_new [OF wf1, of a 0]
    by (simp add: idris2_cast_String_to_Integer_def mkInteger_cases gmp new_integer_def)
  moreover have "idris2_mkIntegerLiteral g lit m = Inr (addr_of (brk m), new_integer b m)" if "c_string lit 0 m = Inr (c_decimal b)" for lit
    using extends_c_string [OF extends_alloc_obj [OF rt_wf_mem_wf [OF assms(2)]] that] assms(3) assms(2) new_integer_read [OF assms(2), of 0]
      set_integer_new [OF assms(2), of b 0]
    by (simp add: idris2_mkIntegerLiteral_def mkInteger_cases gmp new_integer_def)
  ultimately show ?thesis using run str new_integer_read [OF wf1, of a] new_integer_read [OF assms(2), of b] by auto
qed

end
