(* ===== verification/Expressions.thy ===== *)
theory Expressions
  imports Casts_Correct
begin

text \<open>
  Programs put together from the fixed-width primitives of \<open>refc/mathFunctions\<close> and \<open>refc/casts\<close>: typed
  expressions, their value as numbers, and the calls the code generator makes for them.
\<close>

section \<open>Expressions\<close>

text \<open>Nested calls of the constructors, the 24 arithmetic macros, the four signed divisions and the conversions.\<close>

datatype expr =
    Lit ity int
  | Arith ity "addr \<Rightarrow> addr \<Rightarrow> mem \<Rightarrow> (addr \<times> mem) res" "int \<Rightarrow> int \<Rightarrow> int" expr expr
  | Divide ity "addr \<Rightarrow> addr \<Rightarrow> mem \<Rightarrow> (addr \<times> mem) res" expr expr
  | Cast ity ity "addr \<Rightarrow> mem \<Rightarrow> (addr \<times> mem) res" expr

text \<open>The calls, innermost and leftmost first. Nothing is released in between.\<close>

primrec eval :: "expr \<Rightarrow> mem \<Rightarrow> (addr \<times> mem) res" where
  "eval (Lit t n) m = mk t n m"
| "eval (Arith t f g l r) m =
     bindr (eval l m) (\<lambda>(x, m1). bindr (eval r m1) (\<lambda>(y, m2). f x y m2))"
| "eval (Divide t f l r) m =
     bindr (eval l m) (\<lambda>(x, m1). bindr (eval r m1) (\<lambda>(y, m2). f x y m2))"
| "eval (Cast t u f e) m = bindr (eval e m) (\<lambda>(x, m1). f x m1)"

text \<open>The number an expression stands for: every result is reduced to its type, and overflow of the promoted
  signed type and division by zero are faults.\<close>

primrec sem :: "expr \<Rightarrow> int res" where
  "sem (Lit t n) = Inr (c_conv t n)"
| "sem (Arith t f g l r) = bindr (sem l) (\<lambda>a. bindr (sem r) (\<lambda>b.
     if is_signed (c_promote t) \<and> \<not> in_range (c_promote t) (g a b) then Inl (Undefined Int_overflow)
     else Inr (c_conv t (g a b))))"
| "sem (Divide t f l r) = bindr (sem l) (\<lambda>a. bindr (sem r) (\<lambda>b.
     if b = 0 then Inl (Undefined Div_zero)
     else if div_overflows t a b then Inl (Undefined Int_overflow)
     else Inr (c_conv t (euclid_div a b))))"
| "sem (Cast t u f e) = bindr (sem e) (\<lambda>a. Inr (c_conv u a))"

text \<open>An expression allocates at most one object per node.\<close>

primrec nodes :: "expr \<Rightarrow> nat" where
  "nodes (Lit t n) = 1"
| "nodes (Arith t f g l r) = nodes l + nodes r + 1"
| "nodes (Divide t f l r) = nodes l + nodes r + 1"
| "nodes (Cast t u f e) = nodes e + 1"

text \<open>Typing: each primitive is applied to operands of the type it is named after. The casts that return their
  argument are admitted where they do not widen.\<close>

inductive wt :: "expr \<Rightarrow> ity \<Rightarrow> bool" where
  wt_Lit: "wt (Lit t n) t"
| wt_Arith: "(t, f, g) \<in> set arith_ops \<Longrightarrow> wt l t \<Longrightarrow> wt r t \<Longrightarrow> wt (Arith t f g l r) t"
| wt_Divide: "(t, f) \<in> set div_ops \<Longrightarrow> wt l t \<Longrightarrow> wt r t \<Longrightarrow> wt (Divide t f l r) t"
| wt_Cast: "(t, u, f) \<in> set converting_casts \<Longrightarrow> wt e t \<Longrightarrow> wt (Cast t u f e) u"
| wt_Same: "(t, u, f) \<in> set identity_casts \<Longrightarrow> width u \<le> width t \<Longrightarrow> wt e t \<Longrightarrow> wt (Cast t u f e) u"

inductive_simps wt_simps: "wt (Lit t n) u" "wt (Arith t f g l r) u" "wt (Divide t f l r) u" "wt (Cast t v f e) u"

lemma wt_unique: "wt e t \<Longrightarrow> wt e u \<Longrightarrow> t = u"
  by (cases e) (auto simp: wt_simps)

section \<open>One call\<close>

text \<open>What a call promises that may allocate \<open>n\<close> objects: a value of the type that reads as the number, in a memory
  that only grew, or the fault of the number, or exhausted memory.\<close>

definition yields :: "ity \<Rightarrow> int res \<Rightarrow> nat \<Rightarrow> (addr \<times> mem) res \<Rightarrow> mem \<Rightarrow> bool" where
  "yields t v n run m \<longleftrightarrow> (case run of
      Inr (p, m') \<Rightarrow> \<exists>a. v = Inr a \<and> vp_to t p m' = Inr a \<and> rt_wf m' \<and> extends m m' \<and> lim m' = lim m \<and> brk m' \<le> brk m + n
    | Inl e \<Rightarrow> v = Inl e \<or> e = Verify_failed \<and> lim m < brk m + n)"

lemma yields_mk:
  assumes "rt_wf m" "width t = width u"
  shows "yields u (Inr (c_conv u n)) 1 (mk t n m) m"
proof (cases "mk t n m")
  case (Inl e)
  then show ?thesis using box.make_fault [OF assms(1)] by (fastforce simp: yields_def)
next
  case (Inr pm)
  obtain p m' where pm: "mk t n m = Inr (p, m')" using Inr by (cases pm) auto
  have "lim m' = lim m \<and> brk m' \<le> brk m + 1" using mk_cases(2) [OF assms(1) pm] by auto
  then show ?thesis
    using pm mk_read_same_width [OF assms(1) pm assms(2)] box.make_wf [OF assms(1) pm] mk_extends [OF assms(1) pm]
    by (simp add: yields_def)
qed

lemma yields_fault: "yields t (Inl e) n (Inl e) m"
  by (simp add: yields_def)

text \<open>Calls in sequence.\<close>

lemma yields_bind:
  assumes "yields t v n run m"
    and "\<And>a x m1. v = Inr a \<Longrightarrow> vp_to t x m1 = Inr a \<Longrightarrow> rt_wf m1 \<Longrightarrow> extends m m1 \<Longrightarrow> yields u (k a) n' (h x m1) m1"
  shows "yields u (bindr v k) (n + n') (bindr run (\<lambda>(x, m1). h x m1)) m"
proof (cases run)
  case (Inl e)
  then show ?thesis using assms(1) by (auto simp: yields_def)
next
  case (Inr xm)
  then obtain x m1 a where run: "run = Inr (x, m1)" and v: "v = Inr a" "vp_to t x m1 = Inr a" "rt_wf m1"
    and ext: "extends m m1" "lim m1 = lim m" "brk m1 \<le> brk m + n"
    using assms(1) by (cases xm) (auto simp: yields_def)
  have "yields u (k a) n' (h x m1) m1" by (rule assms(2) [OF v ext(1)])
  then show ?thesis using run v ext extends_trans [OF ext(1)] by (auto simp: yields_def split: sum.splits)
qed

lemma arith_yields:
  assumes "(t, f, g) \<in> set arith_ops" "rt_wf m" "vp_to t x m = Inr a" "vp_to t y m = Inr b"
  shows "yields t (if is_signed (c_promote t) \<and> \<not> in_range (c_promote t) (g a b) then Inl (Undefined Int_overflow)
      else Inr (c_conv t (g a b))) 1 (f x y m) m"
proof (cases "c_fit (c_promote t) (g a b)")
  case (Inl e)
  moreover have "f x y m = Inl e" using Inl assms by (simp add: arith_ops_binop binop_unfold)
  ultimately show ?thesis by (auto simp: c_fit_eq_Inl yields_fault)
next
  case (Inr c)
  then have "f x y m = mk t c m" using assms by (simp add: arith_ops_binop binop_unfold)
  moreover have "\<not> (is_signed (c_promote t) \<and> \<not> in_range (c_promote t) (g a b))" using Inr by (auto simp: c_fit_def split: if_splits)
  ultimately show ?thesis using yields_mk [OF assms(2) refl, of t c] c_fit_store [OF Inr] by auto
qed

lemma div_yields:
  assumes "(t, f) \<in> set div_ops" "rt_wf m" "vp_to t x m = Inr a" "vp_to t y m = Inr b"
  shows "yields t (if b = 0 then Inl (Undefined Div_zero) else if div_overflows t a b then Inl (Undefined Int_overflow)
      else Inr (c_conv t (euclid_div a b))) 1 (f x y m) m"
  using yields_mk [OF assms(2) refl, of t "euclid_div a b"] by (simp add: div_ops_result [OF assms(1,3,4)] yields_fault)

lemma cast_yields:
  assumes "(t, u, f) \<in> set converting_casts \<or> (t, u, f) \<in> set identity_casts \<and> width u \<le> width t"
    and "rt_wf m" "vp_to t x m = Inr a"
  shows "yields u (Inr (c_conv u a)) 1 (f x m) m"
  using assms(1)
proof (elim disjE conjE)
  assume "(t, u, f) \<in> set converting_casts"
  then have "f x m = mk (made_as t u) (c_conv u a) m" using assms(3) by (simp add: converting_cast_cases)
  then show ?thesis using yields_mk [OF assms(2) made_as_width [of t u], of "c_conv u a"] by simp
next
  assume c: "(t, u, f) \<in> set identity_casts" "width u \<le> width t"
  then show ?thesis
    using identity_cast_cases [OF c(1)] identity_cast_read [OF c(1) _ assms(3)] assms(2) by (simp add: yields_def extends_refl)
qed

section \<open>Soundness\<close>

lemma eval_yields: "wt e t \<Longrightarrow> rt_wf m \<Longrightarrow> yields t (sem e) (nodes e) (eval e m) m"
proof (induction arbitrary: m rule: wt.induct)
  case (wt_Lit t n)
  then show ?case using yields_mk [OF wt_Lit refl] by simp
next
  case (wt_Arith t f g l r)
  have "yields t (sem (Arith t f g l r)) (nodes l + (nodes r + 1)) (eval (Arith t f g l r) m) m"
    unfolding sem.simps eval.simps
    by (rule yields_bind [OF wt_Arith.IH(1) [OF wt_Arith.prems]], rule yields_bind [OF wt_Arith.IH(2)], assumption)
      (rule arith_yields [OF wt_Arith.hyps(1)], assumption, erule (1) extends_vp_to)
  then show ?case by (simp add: add.assoc)
next
  case (wt_Divide t f l r)
  have "yields t (sem (Divide t f l r)) (nodes l + (nodes r + 1)) (eval (Divide t f l r) m) m"
    unfolding sem.simps eval.simps
    by (rule yields_bind [OF wt_Divide.IH(1) [OF wt_Divide.prems]], rule yields_bind [OF wt_Divide.IH(2)], assumption)
      (rule div_yields [OF wt_Divide.hyps(1)], assumption, erule (1) extends_vp_to)
  then show ?case by (simp add: add.assoc)
next
  case (wt_Cast t u f e)
  show ?case unfolding sem.simps eval.simps nodes.simps
    by (rule yields_bind [OF wt_Cast.IH [OF wt_Cast.prems]], rule cast_yields) (use wt_Cast.hyps in auto)
next
  case (wt_Same t u f e)
  show ?case unfolding sem.simps eval.simps nodes.simps
    by (rule yields_bind [OF wt_Same.IH [OF wt_Same.prems]], rule cast_yields) (use wt_Same.hyps in auto)
qed



end
