(* ===== verification/Ref_Invariant.thy ===== *)
theory Ref_Invariant
  imports Memory_Management
begin

text \<open>
  What the reference counters mean. The references of a program state are those held by the caller (a
  multiset \<open>R\<close>: local variables, arguments, the evaluation stack) and those stored in the fields of
  live objects. The invariant \<open>rc_ok Z R m\<close> says that

  \<^item> the counter of every live object is the number of references to it, unless the counter has
    reached its maximum (\<open>immortal\<close> objects, which are never released);
  \<^item> every reference points to a live object;
  \<^item> the raw block of a string, array or buffer belongs to exactly one object;
  \<^item> every object carries the tag of its struct and has its fields initialised.

  \<open>Z\<close> is the set of objects that \<open>idris2_removeReference\<close> is in the middle of releasing: they are
  still allocated, but their fields no longer count as references. Outside of that function it is
  empty. Objects with a finaliser (\<open>Idris2_GCPointer\<close>) are outside the invariant, because their
  release runs foreign code.
\<close>

definition boxed :: "addr \<Rightarrow> bool" where
  "boxed p \<longleftrightarrow> p \<noteq> 0 \<and> \<not> idris2_vp_is_unboxed p"

fun refs_of :: "mem \<Rightarrow> payload \<Rightarrow> addr list" where
  "refs_of m (Idris2_Closure f arity filled args) = map the args"
| "refs_of m (Idris2_Constructor tot tg name args) = map the args"
| "refs_of m (Idris2_IORef x) = [x]"
| "refs_of m (Idris2_Array capacity arr) =
     (case blks m arr of Some (Ptrs ps) \<Rightarrow> map the ps | _ \<Rightarrow> [])"
| "refs_of m _ = []"

fun own_of :: "payload \<Rightarrow> addr set" where
  "own_of (Idris2_String s) = {s}"
| "own_of (Idris2_Array capacity arr) = {arr}"
| "own_of (Idris2_Buffer b) = {b}"
| "own_of _ = {}"

fun payload_wf :: "mem \<Rightarrow> payload \<Rightarrow> bool" where
  "payload_wf m (Idris2_Closure f arity filled args) \<longleftrightarrow> length args = unat filled \<and> None \<notin> set args"
| "payload_wf m (Idris2_Constructor tot tg name args) \<longleftrightarrow>
     int (length args) = sint tot \<and> None \<notin> set args"
| "payload_wf m (Idris2_Array capacity arr) \<longleftrightarrow>
     (\<exists>ps. blks m arr = Some (Ptrs ps) \<and> int (length ps) = sint capacity \<and> None \<notin> set ps)"
| "payload_wf m (Idris2_String s) \<longleftrightarrow> blks m s \<noteq> None"
| "payload_wf m (Idris2_Buffer b) \<longleftrightarrow> blks m b \<noteq> None"
| "payload_wf m (Idris2_GCPointer p f) \<longleftrightarrow> False"
| "payload_wf m _ \<longleftrightarrow> True"

definition obj_wf :: "mem \<Rightarrow> Idris2_Value \<Rightarrow> bool" where
  "obj_wf m v \<longleftrightarrow> tag v = payload_tag (payload v) \<and> payload_wf m (payload v)"

definition own_at :: "mem \<Rightarrow> addr \<Rightarrow> addr set" where
  "own_at m a = (case objs m a of None \<Rightarrow> {} | Some v \<Rightarrow> own_of (payload v))"

definition objs_wf :: "mem \<Rightarrow> bool" where
  "objs_wf m \<longleftrightarrow>
     (\<forall>a v. objs m a = Some v \<longrightarrow> obj_wf m v) \<and>
     (\<forall>a b. a \<noteq> b \<longrightarrow> own_at m a \<inter> own_at m b = {})"

definition refs_at :: "mem \<Rightarrow> addr \<Rightarrow> addr list" where
  "refs_at m a = (case objs m a of None \<Rightarrow> [] | Some v \<Rightarrow> refs_of m (payload v))"

definition held :: "addr set \<Rightarrow> addr multiset \<Rightarrow> mem \<Rightarrow> addr multiset" where
  "held Z R m = R + (\<Sum>a\<in>dom (objs m) - Z. mset (refs_at m a))"

definition immortal :: "Idris2_Value \<Rightarrow> bool" where
  "immortal v \<longleftrightarrow> refCounter v = IDRIS2_VP_REFCOUNTER_MAX"

definition counts_ok :: "addr set \<Rightarrow> addr multiset \<Rightarrow> mem \<Rightarrow> bool" where
  "counts_ok Z H m \<longleftrightarrow>
     (\<forall>p. p \<in># H \<and> boxed p \<longrightarrow> p \<in> dom (objs m) - Z) \<and>
     (\<forall>a v. objs m a = Some v \<and> a \<notin> Z \<longrightarrow> immortal v \<or> unat (refCounter v) = count H a)"

definition rc_ok :: "addr set \<Rightarrow> addr multiset \<Rightarrow> mem \<Rightarrow> bool" where
  "rc_ok Z R m \<longleftrightarrow> mem_wf m \<and> Z \<subseteq> dom (objs m) \<and> objs_wf m \<and> counts_ok Z (held Z R m) m"

subsection \<open>Elementary consequences\<close>

lemma rc_okD:
  assumes "rc_ok Z R m"
  shows "mem_wf m" "Z \<subseteq> dom (objs m)" "objs_wf m" "counts_ok Z (held Z R m) m"
    "finite (dom (objs m))"
  using assms by (auto simp: rc_ok_def mem_wf_def)

lemma live_boxed: "mem_wf m \<Longrightarrow> objs m a = Some v \<Longrightarrow> boxed a"
  using mem_wf_live [of m a] by (simp add: boxed_def)

lemma held_add [simp]: "held Z (add_mset p R) m = add_mset p (held Z R m)"
  by (simp add: held_def)

lemma held_plus: "held Z (Q + R) m = Q + held Z R m"
  by (simp add: held_def ac_simps)

text \<open>Null pointers and unboxed integers are not counted.\<close>

lemma counts_ok_unboxed:
  assumes "mem_wf m" "\<not> boxed p"
  shows "counts_ok Z (add_mset p H) m \<longleftrightarrow> counts_ok Z H m"
proof -
  have "a \<noteq> p" if "objs m a = Some v" for a v
    using live_boxed [OF assms(1) that] assms(2) by auto
  then show ?thesis
    using assms(2) unfolding counts_ok_def by fastforce
qed

lemma rc_ok_unboxed: "\<not> boxed p \<Longrightarrow> rc_ok Z (add_mset p R) m \<longleftrightarrow> rc_ok Z R m"
  by (auto simp: rc_ok_def counts_ok_unboxed)

lemma rc_ok_live:
  assumes "rc_ok Z R m" "p \<in># held Z R m" "boxed p"
  obtains v where "objs m p = Some v" "p \<notin> Z" "obj_wf m v" "p \<noteq> 0"
    "immortal v \<or> unat (refCounter v) = count (held Z R m) p"
proof -
  have "p \<in> dom (objs m) - Z"
    using assms by (auto simp: rc_ok_def counts_ok_def)
  then obtain v where v: "objs m p = Some v" "p \<notin> Z"
    by auto
  moreover have "obj_wf m v"
    using assms(1) v(1) by (auto simp: rc_ok_def objs_wf_def)
  moreover have "immortal v \<or> unat (refCounter v) = count (held Z R m) p"
    using assms(1) v by (auto simp: rc_ok_def counts_ok_def)
  ultimately show thesis
    using that assms(3) by (auto simp: boxed_def)
qed

lemma rc_ok_held_root: "p \<in># R \<Longrightarrow> p \<in># held Z R m"
  by (simp add: held_def)

text \<open>A change of a counter leaves the fields alone.\<close>

lemma refs_of_cong: "blks m' = blks m \<Longrightarrow> refs_of m' pl = refs_of m pl"
  by (cases pl) simp_all

lemma payload_wf_cong: "blks m' = blks m \<Longrightarrow> payload_wf m' pl = payload_wf m pl"
  by (cases pl) simp_all

lemma refs_at_counter:
  assumes "objs m p = Some v"
  shows "refs_at (put_obj p (v\<lparr>refCounter := c\<rparr>) m) a = refs_at m a"
  using assms
  by (simp add: refs_at_def refs_of_cong [of "put_obj p (v\<lparr>refCounter := c\<rparr>) m" m]
      split: option.split)

lemma own_at_counter:
  assumes "objs m p = Some v"
  shows "own_at (put_obj p (v\<lparr>refCounter := c\<rparr>) m) a = own_at m a"
  using assms by (simp add: own_at_def)

lemma held_counter:
  assumes "objs m p = Some v"
  shows "held Z R (put_obj p (v\<lparr>refCounter := c\<rparr>) m) = held Z R m"
proof -
  have "dom (objs (put_obj p (v\<lparr>refCounter := c\<rparr>) m)) = dom (objs m)"
    using assms by auto
  then show ?thesis
    unfolding held_def using assms by (simp only: refs_at_counter)
qed

lemma objs_wf_counter:
  assumes "objs_wf m" "objs m p = Some v"
  shows "objs_wf (put_obj p (v\<lparr>refCounter := c\<rparr>) m)"
proof -
  have "obj_wf m v" using assms by (auto simp: objs_wf_def)
  then show ?thesis
    using assms unfolding objs_wf_def own_at_counter [OF assms(2)] obj_wf_def
    by (auto simp: payload_wf_cong [of "put_obj p (v\<lparr>refCounter := c\<rparr>) m" m])
qed

text \<open>The common shape of every operation that only moves a counter and the caller's references.\<close>

lemma rc_ok_counter:
  assumes ok: "rc_ok Z R m" and v: "objs m p = Some v"
    and "counts_ok Z (held Z R' m) (put_obj p (v\<lparr>refCounter := c\<rparr>) m)"
  shows "rc_ok Z R' (put_obj p (v\<lparr>refCounter := c\<rparr>) m)"
proof -
  have "mem_wf (put_obj p (v\<lparr>refCounter := c\<rparr>) m)"
    using rc_okD(1) [OF ok] v by (intro mem_wf_put_obj) auto
  moreover have "Z \<subseteq> dom (objs (put_obj p (v\<lparr>refCounter := c\<rparr>) m))"
    using rc_okD(2) [OF ok] by auto
  ultimately show ?thesis
    using objs_wf_counter [OF rc_okD(3) [OF ok] v, of c] assms(3)
    by (simp add: rc_ok_def held_counter [OF v])
qed

subsection \<open>Taking and dropping a reference that is not the last one\<close>

lemma unat_counter_inc:
  assumes "c \<noteq> IDRIS2_VP_REFCOUNTER_MAX"
  shows "unat (c + 1) = Suc (unat c)"
proof -
  have "unat c \<noteq> 65535"
    using assms by (auto simp: IDRIS2_VP_REFCOUNTER_MAX_def word_unat_eq_iff)
  moreover have "unat c < 2 ^ LENGTH(16)"
    by (rule unsigned_less)
  ultimately show ?thesis by (simp add: unat_word_ariths)
qed

lemma counts_ok_live: "counts_ok Z H m \<Longrightarrow> p \<in># H \<Longrightarrow> boxed p \<Longrightarrow> p \<in> dom (objs m) - Z"
  by (auto simp: counts_ok_def)

lemma counts_ok_count:
  "counts_ok Z H m \<Longrightarrow> objs m a = Some v \<Longrightarrow> a \<notin> Z \<Longrightarrow> immortal v \<or> unat (refCounter v) = count H a"
  by (auto simp: counts_ok_def)

lemma counts_okI:
  assumes "\<And>p. p \<in># H \<Longrightarrow> boxed p \<Longrightarrow> p \<in> dom (objs m) - Z"
    and "\<And>a v. objs m a = Some v \<Longrightarrow> a \<notin> Z \<Longrightarrow> \<not> immortal v \<Longrightarrow> unat (refCounter v) = count H a"
  shows "counts_ok Z H m"
  using assms unfolding counts_ok_def by blast

theorem newReference_ok:
  assumes ok: "rc_ok Z R m" and p: "\<not> boxed p \<or> p \<in># held Z R m"
  obtains m' where "idris2_newReference p m = Inr (p, m')" "rc_ok Z (add_mset p R) m'"
    "blks m' = blks m" "dom (objs m') = dom (objs m)" "brk m' = brk m" "lim m' = lim m"
    "\<And>a. map_option payload (objs m' a) = map_option payload (objs m a)"
    "\<And>a. a \<noteq> p \<Longrightarrow> objs m' a = objs m a"
proof (cases "boxed p")
  case False
  then have "idris2_newReference p m = Inr (p, m)"
    by (auto simp: idris2_newReference_def boxed_def)
  with False ok show thesis by (intro that) (auto simp: rc_ok_unboxed)
next
  case True
  with p obtain v where v: "objs m p = Some v" "p \<notin> Z" "p \<noteq> 0"
    and cnt: "immortal v \<or> unat (refCounter v) = count (held Z R m) p"
    using rc_ok_live [OF ok] by metis
  have run: "idris2_newReference p m =
     Inr (p, if immortal v then m else put_obj p (v\<lparr>refCounter := refCounter v + 1\<rparr>) m)"
    using True v by (auto simp: idris2_newReference_def boxed_def immortal_def)
  show thesis
  proof (cases "immortal v")
    case True
    have "rc_ok Z (add_mset p R) m"
      using ok v True unfolding rc_ok_def counts_ok_def by auto
    with run True show ?thesis by (intro that) auto
  next
    case False
    have "rc_ok Z (add_mset p R) (put_obj p (v\<lparr>refCounter := refCounter v + 1\<rparr>) m)"
    proof (rule rc_ok_counter [OF ok v(1)])
      show "counts_ok Z (held Z (add_mset p R) m) (put_obj p (v\<lparr>refCounter := refCounter v + 1\<rparr>) m)"
        using rc_okD(4) [OF ok] v cnt False unat_counter_inc [of "refCounter v"]
        unfolding counts_ok_def by (auto simp: immortal_def)
    qed
    with run False v(1) show ?thesis
      by (intro that [of "put_obj p (v\<lparr>refCounter := refCounter v + 1\<rparr>) m"]) auto
  qed
qed

text \<open>Dropping a reference to an object that stays alive.\<close>

lemma drop_immortal:
  assumes ok: "rc_ok Z (add_mset p R) m" and v: "objs m p = Some v" "immortal v"
  shows "rc_ok Z R m"
proof -
  have "counts_ok Z (held Z R m) m"
  proof (rule counts_okI)
    fix a w assume a: "objs m a = Some w" "a \<notin> Z" "\<not> immortal w"
    with v have "a \<noteq> p" by auto
    with a counts_ok_count [OF rc_okD(4) [OF ok] a(1,2)]
    show "unat (refCounter w) = count (held Z R m) a" by simp
  qed (use counts_ok_live [OF rc_okD(4) [OF ok]] in simp)
  then show ?thesis using ok by (simp add: rc_ok_def)
qed

lemma drop_shared:
  assumes ok: "rc_ok Z (add_mset p R) m" and v: "objs m p = Some v" "p \<notin> Z"
    and nimm: "\<not> immortal v" and shared: "refCounter v \<noteq> 1"
  shows "rc_ok Z R (put_obj p (v\<lparr>refCounter := refCounter v - 1\<rparr>) m)"
proof (rule rc_ok_counter [OF ok v(1)])
  note live = counts_ok_live [OF rc_okD(4) [OF ok]] and cnt = counts_ok_count [OF rc_okD(4) [OF ok]]
  have c: "unat (refCounter v) = Suc (count (held Z R m) p)"
    using cnt [OF v] nimm by simp
  then have "refCounter v \<noteq> 0" by auto
  with c have d: "unat (refCounter v - 1) = count (held Z R m) p"
    by (simp add: unat_minus_one)
  show "counts_ok Z (held Z R m) (put_obj p (v\<lparr>refCounter := refCounter v - 1\<rparr>) m)"
  proof (rule counts_okI)
    show "q \<in> dom (objs (put_obj p (v\<lparr>refCounter := refCounter v - 1\<rparr>) m)) - Z"
      if "q \<in># held Z R m" "boxed q" for q
      using live [of q] that v by auto
    show "unat (refCounter w) = count (held Z R m) a"
      if "objs (put_obj p (v\<lparr>refCounter := refCounter v - 1\<rparr>) m) a = Some w" "a \<notin> Z" "\<not> immortal w"
      for a w
      using that d cnt [of a w] by (auto split: if_splits)
  qed
qed

subsection \<open>Releasing an object\<close>

text \<open>When the last reference to \<open>p\<close> goes, its fields become references of the caller, and no
  reference to \<open>p\<close> is left anywhere.\<close>

lemma held_zombie:
  assumes "finite (dom (objs m))" "objs m p = Some v" "p \<notin> Z"
  shows "held (insert p Z) (mset (refs_of m (payload v)) + R) m = held Z R m"
proof -
  have "dom (objs m) - insert p Z = (dom (objs m) - Z) - {p}" by auto
  moreover have "refs_at m p = refs_of m (payload v)"
    using assms(2) by (simp add: refs_at_def)
  ultimately show ?thesis
    using assms sum.remove [of "dom (objs m) - Z" p "\<lambda>a. mset (refs_at m a)"]
    by (simp add: held_def ac_simps domIff)
qed

lemma make_zombie:
  assumes ok: "rc_ok Z (add_mset p R) m" and v: "objs m p = Some v" "p \<notin> Z"
    and last: "\<not> immortal v" "refCounter v = 1"
  shows "rc_ok (insert p Z) (mset (refs_of m (payload v)) + R) m"
proof -
  note cnt = rc_okD(4) [OF ok]
  have none: "p \<notin># held Z R m"
    using counts_ok_count [OF cnt v] last by (simp add: count_eq_zero_iff)
  have "counts_ok (insert p Z) (held Z R m) m"
  proof (rule counts_okI)
    show "q \<in> dom (objs m) - insert p Z" if "q \<in># held Z R m" "boxed q" for q
      using counts_ok_live [OF cnt, of q] that none by auto
    show "unat (refCounter w) = count (held Z R m) a"
      if "objs m a = Some w" "a \<notin> insert p Z" "\<not> immortal w" for a w
      using counts_ok_count [OF cnt that(1)] that by auto
  qed
  then show ?thesis
    using ok v by (auto simp: rc_ok_def held_zombie rc_okD(5) [OF ok])
qed

definition reaped :: "addr \<Rightarrow> addr set \<Rightarrow> mem \<Rightarrow> mem" where
  "reaped p B m = m\<lparr>objs := (objs m)(p := None), blks := (\<lambda>b. if b \<in> B then None else blks m b)\<rparr>"

lemma reaped_sel [simp]:
  "objs (reaped p B m) = (objs m)(p := None)"
  "blks (reaped p B m) = (\<lambda>b. if b \<in> B then None else blks m b)"
  "brk (reaped p B m) = brk m" "lim (reaped p B m) = lim m"
  by (simp_all add: reaped_def)

lemma mem_wf_reaped:
  assumes "mem_wf m"
  shows "mem_wf (reaped p B m)"
proof -
  have sub: "dom (objs (reaped p B m)) \<subseteq> dom (objs m)" "dom (blks (reaped p B m)) \<subseteq> dom (blks m)"
    by (auto split: if_splits)
  then have "finite (dom (objs (reaped p B m)))" "finite (dom (blks (reaped p B m)))"
    using assms by (auto simp: mem_wf_def intro: finite_subset)
  moreover have "dom (objs (reaped p B m)) \<inter> dom (blks (reaped p B m)) = {}"
    using sub assms unfolding mem_wf_def by blast
  moreover have "dom (objs (reaped p B m)) \<union> dom (blks (reaped p B m)) \<subseteq> addr_of ` {0<..<brk m}"
    using sub assms unfolding mem_wf_def by blast
  ultimately show ?thesis using assms by (simp add: mem_wf_def)
qed

lemma payload_reaped:
  assumes "own_of pl \<inter> B = {}"
  shows "refs_of (reaped p B m) pl = refs_of m pl" "payload_wf (reaped p B m) pl = payload_wf m pl"
  using assms by (cases pl; auto)+

lemma reap_ok:
  assumes ok: "rc_ok (insert p Z) R m" and v: "objs m p = Some v" "p \<notin> Z"
  shows "rc_ok Z R (reaped p (own_of (payload v)) m)"
proof -
  let ?m = "reaped p (own_of (payload v)) m"
  have wf: "objs_wf m" using ok by (rule rc_okD)
  have disj: "own_of (payload w) \<inter> own_of (payload v) = {}" if "objs m a = Some w" "a \<noteq> p" for a w
  proof -
    have "own_at m a \<inter> own_at m p = {}"
      using wf that(2) unfolding objs_wf_def by blast
    then show ?thesis using that(1) v(1) by (simp add: own_at_def)
  qed
  have dom: "dom (objs ?m) - Z = dom (objs m) - insert p Z" by auto
  have refs: "refs_at ?m a = refs_at m a" if "a \<noteq> p" for a
    using that disj by (auto simp: refs_at_def payload_reaped split: option.split)
  have held: "held Z R ?m = held (insert p Z) R m"
    unfolding held_def dom using refs by (auto intro!: arg_cong2 [where f = "(+)"] sum.cong)
  have "objs_wf ?m"
    using wf disj unfolding objs_wf_def obj_wf_def
    by (auto simp: payload_reaped own_at_def split: option.splits)
  moreover have "counts_ok Z (held (insert p Z) R m) ?m"
    using rc_okD(4) [OF ok] by (auto simp: counts_ok_def)
  moreover have "Z \<subseteq> dom (objs ?m)"
    using rc_okD(2) [OF ok] v by auto
  ultimately show ?thesis
    using mem_wf_reaped [OF rc_okD(1) [OF ok]] by (simp add: rc_ok_def held)
qed

text \<open>What a release may do to the rest of memory: objects and blocks disappear, counters change,
  fields and block contents stay; objects under release stay as they are.\<close>

definition shrinks :: "addr set \<Rightarrow> mem \<Rightarrow> mem \<Rightarrow> bool" where
  "shrinks Z m m' \<longleftrightarrow>
     brk m' = brk m \<and> lim m' = lim m \<and> (\<forall>a\<in>Z. objs m' a = objs m a) \<and>
     (\<forall>a v'. objs m' a = Some v' \<longrightarrow>
        (\<exists>v. objs m a = Some v \<and> payload v' = payload v \<and> tag v' = tag v)) \<and>
     (\<forall>b x. blks m' b = Some x \<longrightarrow> blks m b = Some x)"

lemma shrinks_refl [simp]: "shrinks Z m m"
  by (auto simp: shrinks_def)

lemma shrinks_obj:
  assumes "shrinks Z m m'" "objs m' a = Some v'"
  obtains v where "objs m a = Some v" "payload v' = payload v" "tag v' = tag v"
  using assms unfolding shrinks_def by blast

lemma shrinks_trans:
  assumes "shrinks Z m m'" "shrinks Z m' m''"
  shows "shrinks Z m m''"
proof -
  have "\<exists>v. objs m a = Some v \<and> payload v'' = payload v \<and> tag v'' = tag v"
    if "objs m'' a = Some v''" for a v''
  proof -
    obtain v' where "objs m' a = Some v'" "payload v'' = payload v'" "tag v'' = tag v'"
      using assms(2) \<open>objs m'' a = Some v''\<close> by (rule shrinks_obj)
    then show ?thesis using shrinks_obj [OF assms(1), of a v'] by metis
  qed
  then show ?thesis using assms by (simp add: shrinks_def)
qed

lemma shrinks_insert: "shrinks (insert p Z) m m' \<Longrightarrow> shrinks Z m m'"
  by (auto simp: shrinks_def)

lemma shrinks_counter:
  "objs m p = Some v \<Longrightarrow> p \<notin> Z \<Longrightarrow> shrinks Z m (put_obj p (v\<lparr>refCounter := c\<rparr>) m)"
  by (auto simp: shrinks_def)

lemma shrinks_reaped: "p \<notin> Z \<Longrightarrow> shrinks Z m (reaped p B m)"
  by (auto simp: shrinks_def split: if_splits)

lemma shrinks_dom: "shrinks Z m m' \<Longrightarrow> dom (objs m') \<subseteq> dom (objs m)"
  by (auto elim!: shrinks_obj)

subsection \<open>Writing the fields of an object\<close>

text \<open>
  Storing new fields in an object moves the references they contain from the caller into the heap,
  and hands the references of the old fields to the caller. Every constructor and every mutation of
  the runtime is an instance.
\<close>

lemma exchange_ok:
  assumes ok: "rc_ok Z (mset (refs_of m pl) + R) m" and v: "objs m p = Some v" "p \<notin> Z"
    and wf: "payload_wf m pl" and own: "\<And>a. a \<noteq> p \<Longrightarrow> own_at m a \<inter> own_of pl = {}"
  shows "rc_ok Z (mset (refs_of m (payload v)) + R)
    (put_obj p (v\<lparr>tag := payload_tag pl, payload := pl\<rparr>) m)"
proof -
  let ?v = "v\<lparr>tag := payload_tag pl, payload := pl\<rparr>"
  let ?m = "put_obj p ?v m"
  have dom: "dom (objs ?m) = dom (objs m)" using v by auto
  have refs: "mset (refs_at ?m a) = ((\<lambda>a. mset (refs_at m a))(p := mset (refs_of m pl))) a" for a
    by (simp add: refs_at_def refs_of_cong [of ?m m] split: option.split)
  have held: "held Z (mset (refs_of m (payload v)) + R) ?m = held Z (mset (refs_of m pl) + R) m"
    unfolding held_def dom refs
    using sum_fun_upd_mset [of "dom (objs m) - Z" p "\<lambda>a. mset (refs_at m a)" "mset (refs_of m pl)"]
      rc_okD(5) [OF ok] v by (simp add: refs_at_def domIff ac_simps)
  have "own_at ?m a = (if a = p then own_of pl else own_at m a)" for a
    by (simp add: own_at_def)
  then have "own_at ?m a \<inter> own_at ?m b = {}" if "a \<noteq> b" for a b
    using rc_okD(3) [OF ok] own [of a] own [of b] that unfolding objs_wf_def by (auto split: if_splits)
  then have "objs_wf ?m"
    using rc_okD(3) [OF ok] wf unfolding objs_wf_def obj_wf_def
    by (auto simp: payload_wf_cong [of ?m m] split: if_splits)
  moreover have "counts_ok Z (held Z (mset (refs_of m pl) + R) m) ?m"
    using rc_okD(4) [OF ok] v unfolding counts_ok_def dom by (auto simp: immortal_def)
  moreover have "mem_wf ?m"
    using rc_okD(1) [OF ok] v by (intro mem_wf_put_obj) auto
  ultimately show ?thesis
    using rc_okD(2) [OF ok] by (simp add: rc_ok_def held dom del: put_obj_sel)
qed

subsection \<open>Allocation\<close>

lemma fresh_not_held:
  assumes "rc_ok Z R m"
  shows "addr_of (brk m) \<notin># held Z R m"
proof
  assume "addr_of (brk m) \<in># held Z R m"
  moreover have "boxed (addr_of (brk m))"
    using mem_wf_fresh(3) [OF rc_okD(1) [OF assms]] by (simp add: boxed_def)
  ultimately show False
    using counts_ok_live [OF rc_okD(4) [OF assms]] mem_wf_fresh(1) [OF rc_okD(1) [OF assms]] by auto
qed

lemma alloc_blank_ok:
  assumes ok: "rc_ok Z R m" and room: "brk m < lim m"
  shows "rc_ok Z (add_mset (addr_of (brk m)) R)
    (alloc_obj \<lparr>refCounter = 1, tag = NO_TAG, payload = No_payload\<rparr> m)"
proof -
  let ?a = "addr_of (brk m)"
  let ?m = "alloc_obj \<lparr>refCounter = 1, tag = NO_TAG, payload = No_payload\<rparr> m"
  note fresh = mem_wf_fresh [OF rc_okD(1) [OF ok]]
  have refs: "refs_at ?m a = (if a = ?a then [] else refs_at m a)" for a
    by (simp add: refs_at_def refs_of_cong [of ?m m] split: option.split)
  have z: "?a \<notin> Z" using rc_okD(2) [OF ok] fresh(1) by auto
  have "(\<Sum>a\<in>dom (objs ?m) - Z. mset (refs_at ?m a)) = (\<Sum>a\<in>dom (objs m) - Z. mset (refs_at m a))"
    using z rc_okD(5) [OF ok] fresh(1)
    by (intro sum.mono_neutral_cong_right) (auto simp: refs split: if_splits)
  then have held: "held Z R ?m = held Z R m" by (simp add: held_def)
  have "own_at ?m a = (if a = ?a then {} else own_at m a)" for a
    by (simp add: own_at_def)
  then have "objs_wf ?m"
    using rc_okD(3) [OF ok] unfolding objs_wf_def obj_wf_def
    by (auto simp: payload_wf_cong [of ?m m])
  moreover have "counts_ok Z (add_mset ?a (held Z R m)) ?m"
    using rc_okD(4) [OF ok] fresh(1) z fresh_not_held [OF ok] unfolding counts_ok_def
    by (auto simp: count_eq_zero_iff)
  ultimately show ?thesis
    using mem_wf_alloc_obj [OF rc_okD(1) [OF ok] room] rc_okD(2) [OF ok]
    by (auto simp: rc_ok_def held)
qed

lemma alloc_ok:
  assumes ok: "rc_ok Z (mset (refs_of m pl) + R) m" and room: "brk m < lim m"
    and wf: "payload_wf m pl" and own: "\<And>a. own_at m a \<inter> own_of pl = {}"
  shows "rc_ok Z (add_mset (addr_of (brk m)) R)
    (alloc_obj \<lparr>refCounter = 1, tag = payload_tag pl, payload = pl\<rparr> m)"
proof -
  let ?a = "addr_of (brk m)" and ?v = "\<lparr>refCounter = 1, tag = NO_TAG, payload = No_payload\<rparr>"
  let ?m = "alloc_obj ?v m"
  have same: "refs_of ?m pl = refs_of m pl" "payload_wf ?m pl = payload_wf m pl"
    by (simp_all add: refs_of_cong [of ?m m] payload_wf_cong [of ?m m])
  have ok': "rc_ok Z (mset (refs_of ?m pl) + add_mset ?a R) ?m"
    using alloc_blank_ok [OF ok room] by (simp add: same)
  have "own_at ?m a \<inter> own_of pl = {}" if "a \<noteq> ?a" for a
    using own [of a] that by (simp add: own_at_def)
  moreover have "?a \<notin> Z"
    using rc_okD(2) [OF ok] mem_wf_fresh(1) [OF rc_okD(1) [OF ok]] by auto
  ultimately have "rc_ok Z (add_mset ?a R) (put_obj ?a (?v\<lparr>tag := payload_tag pl, payload := pl\<rparr>) ?m)"
    using exchange_ok [OF ok', of ?a ?v] wf by (simp add: same)
  moreover have "put_obj ?a (?v\<lparr>tag := payload_tag pl, payload := pl\<rparr>) ?m =
      alloc_obj \<lparr>refCounter = 1, tag = payload_tag pl, payload = pl\<rparr> m"
    by (simp add: put_obj_def alloc_obj_def)
  ultimately show ?thesis by simp
qed

text \<open>At program start the caller holds nothing and every object is static.\<close>

lemma static_obj_fields:
  assumes "static_obj k = Some v"
  shows "refs_of m (payload v) = []" "immortal v" "tag v = payload_tag (payload v)"
  using assms by (auto simp: static_obj_def IDRIS2_STOCKVAL_def immortal_def split: if_splits)

lemma static_obj_own:
  assumes "static_obj k = Some v" "b \<in> own_of (payload v)"
  shows "b = addr_of (Suc k)" "static_blk (Suc k) \<noteq> None" "Suc k < static_end"
  using assms
  by (auto simp: static_obj_def static_blk_def IDRIS2_STOCKVAL_def nullstring_chars_def static_end_def
      split: if_splits)

lemma static_payload_wf:
  assumes "static_obj k = Some v"
  shows "payload_wf (init_mem l) (payload v)"
proof (cases "payload v")
  case (Idris2_String s)
  with static_obj_own [OF assms, of s] have "blks (init_mem l) s \<noteq> None"
    using init_mem_blks by (metis (no_types, lifting) insertI1 not_Some_eq own_of.simps(1))
  with Idris2_String show ?thesis by simp
qed (use assms in \<open>auto simp: static_obj_def IDRIS2_STOCKVAL_def split: if_splits\<close>)

lemma rc_ok_init:
  assumes "static_end \<le> l" "l < 2 ^ 60"
  shows "rc_ok {} {#} (init_mem l)"
proof -
  have own: "own_at (init_mem l) a \<inter> own_at (init_mem l) b = {}" if "a \<noteq> b" for a b
  proof -
    have "False" if x: "x \<in> own_at (init_mem l) a" "x \<in> own_at (init_mem l) b" for x
    proof -
      obtain j v where j: "a = addr_of j" "static_obj j = Some v" "x \<in> own_of (payload v)"
        using x(1) by (auto simp: own_at_def init_mem_objs split: option.splits)
      obtain k w where k: "b = addr_of k" "static_obj k = Some w" "x \<in> own_of (payload w)"
        using x(2) by (auto simp: own_at_def init_mem_objs split: option.splits)
      have "addr_of (Suc j) = addr_of (Suc k)"
        using static_obj_own(1) [OF j(2,3)] static_obj_own(1) [OF k(2,3)] by simp
      then have "j = k"
        using static_obj_own(3) [OF j(2,3)] static_obj_own(3) [OF k(2,3)]
        by (simp add: addr_of_inj static_end_def)
      with j(1) k(1) \<open>a \<noteq> b\<close> show False by simp
    qed
    then show ?thesis by blast
  qed
  have "refs_at (init_mem l) a = []" for a
    using static_obj_fields(1) by (auto simp: refs_at_def init_mem_objs split: option.split)
  then have "held {} {#} (init_mem l) = {#}" by (simp add: held_def)
  moreover have "counts_ok {} {#} (init_mem l)"
    using static_obj_fields(2) by (auto simp: counts_ok_def init_mem_objs)
  moreover have "obj_wf (init_mem l) v" if "objs (init_mem l) a = Some v" for a v
    using that static_obj_fields(3) static_payload_wf by (auto simp: init_mem_objs obj_wf_def)
  ultimately show ?thesis
    using mem_wf_init [OF assms] own by (simp add: rc_ok_def objs_wf_def)
qed

end
