(* ===== verification/Remove_Reference.thy ===== *)
theory Remove_Reference
  imports Runtime Ref_Invariant
begin

text \<open>
  \<open>idris2_removeReference\<close> of \<open>refc/memoryManagement.c\<close>: dropping a reference, and the recursive
  release of everything the last reference kept alive.

  \<open>release_fields\<close> is the \<open>switch\<close> on the tag; it gets the recursive call and the closure application
  of the finaliser as arguments. The recursion follows pointers, so it takes fuel; the theorem
  \<open>removeReference_correct\<close> shows that the number of live objects is enough, that the release meets no
  undefined behaviour, and that all counters are right afterwards.
\<close>

definition get_array :: "addr \<Rightarrow> mem \<Rightarrow> (32 word \<times> addr) res" where
  "get_array p m =
     bindr (get_obj p m) (\<lambda>v. case payload v of
         Idris2_Array capacity arr \<Rightarrow> Inr (capacity, arr)
       | _ \<Rightarrow> Inl (Undefined Bad_type))"

definition array_slot :: "addr \<Rightarrow> nat \<Rightarrow> mem \<Rightarrow> addr res" where
  "array_slot p i m = bindr (get_array p m) (\<lambda>(capacity, arr). load_ptr arr (int i) m)"

definition release_fields ::
  "(addr \<Rightarrow> mem \<Rightarrow> mem res) \<Rightarrow> (addr \<Rightarrow> addr \<Rightarrow> mem \<Rightarrow> (addr \<times> mem) res) \<Rightarrow>
   addr \<Rightarrow> Idris2_Value \<Rightarrow> mem \<Rightarrow> mem res" where
  "release_fields remove apply elem v m =
    (if tag v = BITS32_TAG \<or> tag v = BITS64_TAG \<or> tag v = INT32_TAG \<or> tag v = INT64_TAG then Inr m
     else if tag v = INTEGER_TAG then Inr m
     else if tag v = DOUBLE_TAG then Inr m
     else if tag v = STRING_TAG then bindr (get_str elem m) (\<lambda>s. c_free s m)
     else if tag v = CLOSURE_TAG then
       bindr (get_closure elem m) (\<lambda>(f, arity, filled, args).
         eachr (\<lambda>i m. bindr (get_arg elem (int i) m) (\<lambda>a. remove a m)) [0..<unat filled] m)
     else if tag v = CONSTRUCTOR_TAG then
       (case payload v of
          Idris2_Constructor tot tg name args \<Rightarrow>
            eachr (\<lambda>i m. bindr (get_arg elem (int i) m) (\<lambda>a. remove a m)) [0..<nat (sint tot)] m
        | _ \<Rightarrow> Inl (Undefined Bad_type))
     else if tag v = IOREF_TAG then
       (case payload v of
          Idris2_IORef x \<Rightarrow> remove x m
        | _ \<Rightarrow> Inl (Undefined Bad_type))
     else if tag v = BUFFER_TAG then
       (case payload v of
          Idris2_Buffer b \<Rightarrow> c_free b m
        | _ \<Rightarrow> Inl (Undefined Bad_type))
     else if tag v = ARRAY_TAG then
       bindr (get_array elem m) (\<lambda>(capacity, arr).
       bindr (eachr (\<lambda>i m. bindr (array_slot elem i m) (\<lambda>a. remove a m)) [0..<nat (sint capacity)] m)
         (\<lambda>m1. bindr (get_array elem m1) (\<lambda>(capacity, arr). c_free arr m1)))
     else if tag v = POINTER_TAG then Inr m
     else if tag v = GC_POINTER_TAG then
       (case payload v of
          Idris2_GCPointer p onCollectFct \<Rightarrow>
            bindr (apply onCollectFct p m) (\<lambda>(closure1, m1).
            bindr (apply closure1 0 m1) (\<lambda>(r, m2).
            bindr (get_obj elem m2) (\<lambda>v2. case payload v2 of
                Idris2_GCPointer p2 _ \<Rightarrow> remove p2 m2
              | _ \<Rightarrow> Inl (Undefined Bad_type))))
        | _ \<Rightarrow> Inl (Undefined Bad_type))
     else Inr m)"

primrec idris2_removeReference :: "nat \<Rightarrow> code \<Rightarrow> addr \<Rightarrow> mem \<Rightarrow> mem res" where
  "idris2_removeReference 0 code = (\<lambda>elem m. Inl Out_of_fuel)"
| "idris2_removeReference (Suc fuel) code = (\<lambda>elem m.
     if elem = 0 \<or> idris2_vp_is_unboxed elem then Inr m
     else bindr (get_obj elem m) (\<lambda>v.
       if refCounter v = IDRIS2_VP_REFCOUNTER_MAX then Inr m
       else if refCounter v \<noteq> 1 then Inr (put_obj elem (v\<lparr>refCounter := refCounter v - 1\<rparr>) m)
       else bindr (release_fields (idris2_removeReference fuel code)
                     (idris2_apply_closure fuel code) elem v m)
              (\<lambda>m'. c_free elem m')))"

subsection \<open>Releasing the fields of an object\<close>

text \<open>Overwriting a raw block.\<close>

definition put_blk :: "addr \<Rightarrow> blk \<Rightarrow> mem \<Rightarrow> mem" where
  "put_blk b x m = m\<lparr>blks := (blks m)(b \<mapsto> x)\<rparr>"

lemma put_blk_sel [simp]:
  "objs (put_blk b x m) = objs m" "blks (put_blk b x m) = (blks m)(b \<mapsto> x)"
  "brk (put_blk b x m) = brk m" "lim (put_blk b x m) = lim m"
  by (simp_all add: put_blk_def)

text \<open>
  The contract of a release \<open>run\<close>: it returns, the counters are right for the references \<open>R\<close>, and memory
  only shrinks. Moreover it never looks at a block that survives it (other than those in \<open>B\<close>): changing
  such a block before the release or after it comes to the same.
\<close>

definition dropped :: "addr set \<Rightarrow> addr set \<Rightarrow> addr multiset \<Rightarrow> mem \<Rightarrow> (mem \<Rightarrow> mem res) \<Rightarrow> bool" where
  "dropped B Z R m run \<longleftrightarrow> (\<exists>m'. run m = Inr m' \<and> rc_ok Z R m' \<and> shrinks Z m m' \<and>
     (\<forall>b x. b \<notin> B \<and> blks m' b \<noteq> None \<longrightarrow> run (put_blk b x m) = Inr (put_blk b x m')))"

lemma droppedI:
  assumes "run m = Inr m'" "rc_ok Z R m'" "shrinks Z m m'"
    and "\<And>b x. b \<notin> B \<Longrightarrow> blks m' b \<noteq> None \<Longrightarrow> run (put_blk b x m) = Inr (put_blk b x m')"
  shows "dropped B Z R m run"
  using assms unfolding dropped_def by blast

lemma droppedE:
  assumes "dropped B Z R m run"
  obtains m' where "run m = Inr m'" "rc_ok Z R m'" "shrinks Z m m'"
    "\<And>b x. b \<notin> B \<Longrightarrow> blks m' b \<noteq> None \<Longrightarrow> run (put_blk b x m) = Inr (put_blk b x m')"
  using assms unfolding dropped_def by blast

text \<open>The contract of a function that drops one reference, for heaps of fewer than \<open>n\<close> objects.\<close>

definition drops :: "nat \<Rightarrow> (addr \<Rightarrow> mem \<Rightarrow> mem res) \<Rightarrow> bool" where
  "drops n remove \<longleftrightarrow>
     (\<forall>Z R p m. rc_ok Z (add_mset p R) m \<and> card (dom (objs m) - Z) < n \<longrightarrow> dropped {} Z R m (remove p))"

lemma dropsD:
  "drops n remove \<Longrightarrow> rc_ok Z (add_mset p R) m \<Longrightarrow> card (dom (objs m) - Z) < n \<Longrightarrow> dropped {} Z R m (remove p)"
  unfolding drops_def by blast

lemma shrinks_card:
  assumes "shrinks Z m m'" "rc_ok Z R m"
  shows "card (dom (objs m') - Z) \<le> card (dom (objs m) - Z)"
  using shrinks_dom [OF assms(1)] rc_okD(5) [OF assms(2)] by (intro card_mono) auto

lemma shrinks_blks: "shrinks Z m m' \<Longrightarrow> blks m' b \<noteq> None \<Longrightarrow> blks m b \<noteq> None"
  unfolding shrinks_def by fastforce

text \<open>The loop that drops the references read from the slots of an object one after the other.\<close>

lemma drop_loop:
  assumes "drops n remove" "rc_ok Z (mset xs + R) m" "card (dom (objs m) - Z) < n"
    and rd: "\<And>s k. shrinks Z m s \<Longrightarrow> objs_wf s \<Longrightarrow> k < length xs \<Longrightarrow> rd k s = Inr (xs ! k)"
    and frame: "\<And>s k b x. shrinks Z m s \<Longrightarrow> objs_wf s \<Longrightarrow> b \<notin> B \<Longrightarrow> rd k (put_blk b x s) = rd k s"
  shows "dropped B Z R m (eachr (\<lambda>i s. bindr (rd i s) (\<lambda>a. remove a s)) [0..<length xs])"
proof -
  let ?f = "\<lambda>i s. bindr (rd i s) (\<lambda>a. remove a s)"
  let ?P = "\<lambda>k s. rc_ok Z (mset (drop k xs) + R) s \<and> shrinks Z m s \<and>
    (\<forall>b x. b \<notin> B \<and> blks s b \<noteq> None \<longrightarrow> eachr ?f [0..<k] (put_blk b x m) = Inr (put_blk b x s))"
  have "\<exists>s'. eachr ?f [0..<length xs] m = Inr s' \<and> ?P (length xs) s'"
  proof (rule eachr_invariant [where P = ?P])
    show "?P 0 m" using assms(2) by simp
  next
    fix k s assume k: "k < length xs" and P: "?P k s"
    then have "rc_ok Z (add_mset (xs ! k) (mset (drop (Suc k) xs) + R)) s"
      by (simp flip: Cons_nth_drop_Suc)
    moreover have "card (dom (objs s) - Z) < n"
      using shrinks_card [of Z m s] P assms(2,3) by fastforce
    ultimately have "dropped {} Z (mset (drop (Suc k) xs) + R) s (remove (xs ! k))"
      by (rule dropsD [OF assms(1)])
    then obtain s' where s': "remove (xs ! k) s = Inr s'"
      "rc_ok Z (mset (drop (Suc k) xs) + R) s'" "shrinks Z s s'"
      "\<And>b x. blks s' b \<noteq> None \<Longrightarrow> remove (xs ! k) (put_blk b x s) = Inr (put_blk b x s')"
      by (rule droppedE) blast
    have read: "rd k s = Inr (xs ! k)" using rd [of s k] P k rc_okD(3) by blast
    have "eachr ?f [0..<Suc k] (put_blk b x m) = Inr (put_blk b x s')" if "b \<notin> B" "blks s' b \<noteq> None" for b x
      using P that shrinks_blks [OF s'(3) that(2)] s'(4) read frame [of s b k x] rc_okD(3) [of Z _ s]
      by (auto simp: eachr_snoc)
    then show "\<exists>s'. ?f k s = Inr s' \<and> ?P (Suc k) s'"
      using read s'(1-3) P shrinks_trans [of Z m s s'] by auto
  qed
  then show ?thesis unfolding dropped_def by auto
qed

text \<open>Freeing the object itself, and the block it owns.\<close>

lemma c_free_obj:
  assumes "mem_wf m" "objs m p = Some v"
  shows "c_free p m = Inr (reaped p {} m)"
proof -
  have "blks m p = None" using assms by (auto simp: mem_wf_def)
  then show ?thesis
    using assms mem_wf_live [OF assms(1), of p] by (simp add: c_free_def reaped_def)
qed

lemma c_free_blk_obj:
  assumes "mem_wf m" "objs m p = Some v" "blks m b \<noteq> None"
  shows "bindr (c_free b m) (c_free p) = Inr (reaped p {b} m)"
proof -
  have "blks m p = None" "p \<noteq> 0" "b \<noteq> 0"
    using assms mem_wf_live [of m p] mem_wf_live [of m b] by (auto simp: mem_wf_def)
  then show ?thesis
    using assms(2,3) by (auto simp: c_free_def reaped_def fun_upd_def)
qed

lemma mem_wf_put_blk: "mem_wf m \<Longrightarrow> blks m b \<noteq> None \<Longrightarrow> mem_wf (put_blk b x m)"
  by (simp add: mem_wf_def insert_absorb domIff)

lemma reaped_put_blk: "b \<notin> B \<Longrightarrow> reaped p B (put_blk b x m) = put_blk b x (reaped p B m)"
  by (auto simp: reaped_def put_blk_def fun_eq_iff)

lemma finish_leaf:
  assumes "rc_ok (insert p Z) R m" "objs m p = Some v" "p \<notin> Z" "own_of (payload v) = {}"
  shows "dropped {} Z R m (c_free p)"
proof (rule droppedI)
  note wf = rc_okD(1) [OF assms(1)]
  show "c_free p m = Inr (reaped p {} m)" by (rule c_free_obj [OF wf assms(2)])
  show "rc_ok Z R (reaped p {} m)" using reap_ok [OF assms(1-3)] assms(4) by simp
  show "shrinks Z m (reaped p {} m)" by (rule shrinks_reaped [OF assms(3)])
  show "c_free p (put_blk b x m) = Inr (put_blk b x (reaped p {} m))" if "blks (reaped p {} m) b \<noteq> None" for b x
    using c_free_obj [of "put_blk b x m" p v] mem_wf_put_blk [OF wf] assms(2) that by (simp add: reaped_put_blk)
qed

lemma finish_block:
  assumes "rc_ok (insert p Z) R m" "objs m p = Some v" "p \<notin> Z"
    "own_of (payload v) = {b}" "blks m b \<noteq> None"
  shows "dropped {} Z R m (\<lambda>s. bindr (c_free b s) (c_free p))"
proof (rule droppedI)
  note wf = rc_okD(1) [OF assms(1)]
  show "bindr (c_free b m) (c_free p) = Inr (reaped p {b} m)" by (rule c_free_blk_obj [OF wf assms(2,5)])
  show "rc_ok Z R (reaped p {b} m)" using reap_ok [OF assms(1-3)] assms(4) by simp
  show "shrinks Z m (reaped p {b} m)" by (rule shrinks_reaped [OF assms(3)])
  show "bindr (c_free b (put_blk c x m)) (c_free p) = Inr (put_blk c x (reaped p {b} m))"
    if "blks (reaped p {b} m) c \<noteq> None" for c x
    using c_free_blk_obj [of "put_blk c x m" p v b] mem_wf_put_blk [OF wf] assms(2,5) that
    by (simp add: reaped_put_blk split: if_splits)
qed

lemma shrinks_zombie: "shrinks (insert p Z) m s \<Longrightarrow> objs s p = objs m p"
  by (simp add: shrinks_def)

text \<open>First the fields, then the object.\<close>

lemma release_then:
  assumes run: "dropped B (insert p Z) R m run"
    and fin: "\<And>s. rc_ok (insert p Z) R s \<Longrightarrow> shrinks (insert p Z) m s \<Longrightarrow> dropped {} Z R s fin"
    and gone: "\<And>s s' b. rc_ok (insert p Z) R s \<Longrightarrow> shrinks (insert p Z) m s \<Longrightarrow> fin s = Inr s' \<Longrightarrow> b \<in> B \<Longrightarrow> blks s' b = None"
  shows "dropped {} Z R m (\<lambda>s. bindr (run s) fin)"
proof -
  from run obtain s where s: "run m = Inr s" "rc_ok (insert p Z) R s" "shrinks (insert p Z) m s"
    "\<And>b x. b \<notin> B \<Longrightarrow> blks s b \<noteq> None \<Longrightarrow> run (put_blk b x m) = Inr (put_blk b x s)"
    by (rule droppedE) blast
  from fin [OF s(2,3)] obtain t where t: "fin s = Inr t" "rc_ok Z R t" "shrinks Z s t"
    "\<And>b x. blks t b \<noteq> None \<Longrightarrow> fin (put_blk b x s) = Inr (put_blk b x t)"
    by (rule droppedE) blast
  show ?thesis
  proof (rule droppedI)
    show "bindr (run m) fin = Inr t" "rc_ok Z R t" using s(1) t(1,2) by simp_all
    show "shrinks Z m t" by (rule shrinks_trans [OF shrinks_insert [OF s(3)] t(3)])
    show "bindr (run (put_blk b x m)) fin = Inr (put_blk b x t)" if "blks t b \<noteq> None" for b x
    proof -
      have "b \<notin> B" using gone [OF s(2,3) t(1), of b] that by auto
      then have "run (put_blk b x m) = Inr (put_blk b x s)" using s(4) shrinks_blks [OF t(3) that] by blast
      then show ?thesis using t(4) [OF that] by simp
    qed
  qed
qed

lemma reads_frame [simp]:
  "get_obj p (put_blk b x s) = get_obj p s" "get_arg p i (put_blk b x s) = get_arg p i s"
  "get_array p (put_blk b x s) = get_array p s" "get_closure p (put_blk b x s) = get_closure p s"
  "get_str p (put_blk b x s) = get_str p s"
  by (simp_all add: get_obj_def get_arg_def get_args_def get_array_def get_closure_def get_str_def)

lemma load_ptr_frame: "b \<noteq> c \<Longrightarrow> load_ptr c i (put_blk b x s) = load_ptr c i s"
  by (simp add: load_ptr_def get_ptrs_def)

lemma get_arg_nth:
  assumes "objs s p = Some v" "p \<noteq> 0" "None \<notin> set args" "k < length args"
    and "payload v = Idris2_Closure f arity filled args \<or> payload v = Idris2_Constructor tot tg name args"
  shows "get_arg p (int k) s = Inr (map the args ! k)"
proof -
  obtain a where "args ! k = Some a"
    using assms(3,4) by (metis nth_mem option.exhaust)
  then show ?thesis
    using assms by (auto simp: get_arg_def get_args_def nth_res_def)
qed

lemma array_slot_nth:
  assumes "objs s p = Some v" "p \<noteq> 0" "payload v = Idris2_Array capacity arr" "arr \<noteq> 0"
    and "blks s arr = Some (Ptrs ps)" "None \<notin> set ps" "k < length ps"
  shows "array_slot p k s = Inr (map the ps ! k)"
proof -
  obtain a where "ps ! k = Some a"
    using assms(6,7) by (metis nth_mem option.exhaust)
  then show ?thesis
    using assms by (simp add: array_slot_def get_array_def load_ptr_def get_ptrs_def nth_res_def)
qed

lemma release_args:
  assumes "drops n remove" "rc_ok (insert p Z) (mset (map the args) + R) m"
    "card (dom (objs m) - insert p Z) < n" "objs m p = Some v" "p \<notin> Z" "None \<notin> set args"
    "payload v = Idris2_Closure f arity filled args \<or> payload v = Idris2_Constructor tot tg name args"
  shows "dropped {} Z R m (\<lambda>m. bindr (eachr (\<lambda>i m. bindr (get_arg p (int i) m) (\<lambda>a. remove a m)) [0..<length args] m)
    (c_free p))"
proof (rule release_then)
  have nz: "p \<noteq> 0" using assms(4) mem_wf_live [OF rc_okD(1) [OF assms(2)], of p] by auto
  have rd: "get_arg p (int k) s = Inr (map the args ! k)"
    if "shrinks (insert p Z) m s" "k < length (map the args)" for s k
    using get_arg_nth [OF _ nz assms(6) _ assms(7)] shrinks_zombie [OF that(1)] assms(4) that(2) by simp
  show "dropped {} (insert p Z) R m (eachr (\<lambda>i m. bindr (get_arg p (int i) m) (\<lambda>a. remove a m)) [0..<length args])"
    using drop_loop [OF assms(1-3), of "\<lambda>i m. get_arg p (int i) m" "{}"] rd by simp
  show "dropped {} Z R s (c_free p)" if "rc_ok (insert p Z) R s" "shrinks (insert p Z) m s" for s
    using finish_leaf [OF that(1) _ assms(5), of v] shrinks_zombie [OF that(2)] assms(4,7) by auto
qed simp

lemma release_ioref:
  assumes "drops n remove" "rc_ok (insert p Z) (add_mset x R) m"
    "card (dom (objs m) - insert p Z) < n" "objs m p = Some v" "p \<notin> Z" "payload v = Idris2_IORef x"
  shows "dropped {} Z R m (\<lambda>m. bindr (remove x m) (c_free p))"
proof (rule release_then [OF dropsD [OF assms(1-3)]])
  show "dropped {} Z R s (c_free p)" if "rc_ok (insert p Z) R s" "shrinks (insert p Z) m s" for s
    using finish_leaf [OF that(1) _ assms(5), of v] shrinks_zombie [OF that(2)] assms(4,6) by auto
qed simp

text \<open>While the elements of a dying array are released, the array and its block stay as they are.\<close>

lemma shrinks_dying_array:
  assumes "shrinks (insert p Z) m s" "objs_wf s" "objs m p = Some v" "payload v = Idris2_Array capacity arr"
    "blks m arr = Some x"
  shows "blks s arr = Some x" "objs s p = Some v"
proof -
  show v: "objs s p = Some v" using shrinks_zombie [OF assms(1)] assms(3) by simp
  then have "obj_wf s v" using assms(2) by (simp add: objs_wf_def)
  then obtain y where "blks s arr = Some y" using assms(4) by (auto simp: obj_wf_def)
  moreover have "blks m arr = Some y" using assms(1) calculation by (simp add: shrinks_def)
  ultimately show "blks s arr = Some x" using assms(5) by simp
qed

lemma release_array:
  assumes "drops n remove" "rc_ok (insert p Z) (mset (map the ps) + R) m"
    "card (dom (objs m) - insert p Z) < n" "objs m p = Some v" "p \<notin> Z"
    "payload v = Idris2_Array capacity arr" "blks m arr = Some (Ptrs ps)" "None \<notin> set ps"
  shows "dropped {} Z R m (\<lambda>m. bindr (bindr (get_array p m) (\<lambda>(capacity, arr0).
    eachr (\<lambda>i m. bindr (array_slot p i m) (\<lambda>a. remove a m)) [0..<nat (sint capacity)] m))
    (\<lambda>m1. bindr (bindr (get_array p m1) (\<lambda>(capacity, arr). c_free arr m1)) (c_free p)))"
    (is "dropped {} Z R m (\<lambda>m. bindr (?run m) ?fin)")
proof (rule release_then [where B = "{arr}"])
  have nz: "p \<noteq> 0" "arr \<noteq> 0"
    using assms(4,7) mem_wf_live [OF rc_okD(1) [OF assms(2)]] by blast+
  note same = shrinks_dying_array [OF _ _ assms(4,6,7)]
  have cap: "nat (sint capacity) = length ps"
    using rc_okD(3) [OF assms(2)] assms(4,6,7) by (fastforce simp: objs_wf_def obj_wf_def)
  have arr: "get_array p s = Inr (capacity, arr)" if "shrinks (insert p Z) m s" "objs_wf s" for s
    using same(2) [OF that] nz(1) assms(6) by (simp add: get_array_def get_obj_def)
  have rd: "array_slot p k s = Inr (map the ps ! k)"
    if "shrinks (insert p Z) m s" "objs_wf s" "k < length ps" for s k
    using array_slot_nth [OF _ nz(1) assms(6) nz(2) _ assms(8) that(3)] same [OF that(1,2)] by simp
  have "dropped {arr} (insert p Z) R m (eachr (\<lambda>i m. bindr (array_slot p i m) (\<lambda>a. remove a m)) [0..<length (map the ps)])"
  proof (rule drop_loop [OF assms(1-3)])
    show "array_slot p k (put_blk b x s) = array_slot p k s"
      if "shrinks (insert p Z) m s" "objs_wf s" "b \<notin> {arr}" for s k b x
      using arr [OF that(1,2)] that(3) by (simp add: array_slot_def load_ptr_frame)
  qed (use rd in auto)
  then show "dropped {arr} (insert p Z) R m ?run"
    using arr [OF shrinks_refl rc_okD(3) [OF assms(2)]] by (simp add: dropped_def cap)
  have fin: "?fin s = bindr (c_free arr s) (c_free p)" if "get_array p s = Inr (capacity, arr)" for s
    using that by simp
  have block: "dropped {} Z R s (\<lambda>s. bindr (c_free arr s) (c_free p))" "get_array p s = Inr (capacity, arr)"
      "bindr (c_free arr s) (c_free p) = Inr (reaped p {arr} s)"
    if "rc_ok (insert p Z) R s" "shrinks (insert p Z) m s" for s
    using finish_block [OF that(1) _ assms(5), of v arr] same [OF that(2) rc_okD(3) [OF that(1)]] assms(6)
      arr [OF that(2) rc_okD(3) [OF that(1)]] c_free_blk_obj [OF rc_okD(1) [OF that(1)], of p v arr] by simp_all
  show "dropped {} Z R s ?fin" if "rc_ok (insert p Z) R s" "shrinks (insert p Z) m s" for s
    using block(1,2) [OF that] by (simp add: dropped_def)
  show "blks s' b = None" if "rc_ok (insert p Z) R s" "shrinks (insert p Z) m s" "?fin s = Inr s'" "b \<in> {arr}" for s s' b
    using block(2,3) [OF that(1,2)] that(3,4) by auto
qed

lemma dropped_cong:
  assumes "dropped B Z R m run" "run' m = run m" "\<And>b x. run' (put_blk b x m) = run (put_blk b x m)"
  shows "dropped B Z R m run'"
  using assms unfolding dropped_def by simp

lemma release_fields_ok:
  assumes dr: "drops n remove" and ok: "rc_ok (insert p Z) (mset (refs_of m (payload v)) + R) m"
    and few: "card (dom (objs m) - insert p Z) < n" and v: "objs m p = Some v" and p: "p \<notin> Z"
  shows "dropped {} Z R m (\<lambda>m. bindr (release_fields remove apply p v m) (c_free p))"
proof -
  have wf: "obj_wf m v" using rc_okD(3) [OF ok] v by (simp add: objs_wf_def)
  have nz: "p \<noteq> 0" using v mem_wf_live [OF rc_okD(1) [OF ok], of p] by auto
  note leaf = finish_leaf [OF _ v p, of R] and blk = finish_block [OF _ v p, of R]
  show ?thesis
  proof (cases "payload v")
    case (Idris2_Closure f arity filled args)
    then have args: "rc_ok (insert p Z) (mset (map the args) + R) m" "None \<notin> set args"
      using ok wf by (simp_all add: obj_wf_def)
    from release_args [OF dr args(1) few v p args(2) disjI1 [OF Idris2_Closure]] show ?thesis
      by (rule dropped_cong)
        (use Idris2_Closure wf v nz in \<open>simp_all add: release_fields_def obj_wf_def tag_defs get_closure_def get_obj_def\<close>)
  next
    case (Idris2_Constructor tot tg name args)
    moreover have "nat (sint tot) = length args"
      using Idris2_Constructor wf by (simp add: obj_wf_def) (metis nat_int)
    ultimately show ?thesis
      using release_args [OF dr, of p Z args R m v _ _ _ tot tg name] ok few v p wf nz
      by (simp add: release_fields_def obj_wf_def tag_defs)
  next
    case (Idris2_IORef x)
    with release_ioref [OF dr, of p Z x R m v] ok few v p wf show ?thesis
      by (simp add: release_fields_def obj_wf_def tag_defs)
  next
    case (Idris2_Array capacity arr)
    then obtain ps where ps: "blks m arr = Some (Ptrs ps)" "None \<notin> set ps"
      using wf by (auto simp: obj_wf_def)
    with Idris2_Array release_array [OF dr, of p Z ps R m v capacity arr] ok few v p wf show ?thesis
      by (simp add: release_fields_def obj_wf_def tag_defs bindr_assoc case_prod_unfold)
  next
    case (Idris2_String s)
    then have "dropped {} Z R m (\<lambda>m. bindr (c_free s m) (c_free p))"
      using blk [of s] ok wf by (simp add: obj_wf_def)
    then show ?thesis
      by (rule dropped_cong)
        (use Idris2_String wf v nz in \<open>simp_all add: release_fields_def obj_wf_def tag_defs get_str_def get_obj_def\<close>)
  next
    case (Idris2_Buffer b)
    with blk [of b] ok wf v nz show ?thesis
      by (auto simp: release_fields_def obj_wf_def tag_defs)
  qed (use leaf ok wf in \<open>auto simp: release_fields_def obj_wf_def tag_defs\<close>)
qed

lemma few_outside:
  assumes "rc_ok Z R m" "objs m p \<noteq> None" "p \<notin> Z" "card (dom (objs m) - Z) < Suc n"
  shows "card (dom (objs m) - insert p Z) < n"
proof -
  have "dom (objs m) - insert p Z = (dom (objs m) - Z) - {p}" by auto
  moreover have "p \<in> dom (objs m) - Z" using assms(2,3) by auto
  ultimately show ?thesis
    using assms(4) rc_okD(5) [OF assms(1)] card_Suc_Diff1 [of "dom (objs m) - Z" p] by simp
qed

lemma removeReference_step:
  assumes "boxed p" "objs m p = Some v" "p \<noteq> 0"
  shows "idris2_removeReference (Suc n) code p m =
    (if immortal v then Inr m
     else if refCounter v \<noteq> 1 then Inr (put_obj p (v\<lparr>refCounter := refCounter v - 1\<rparr>) m)
     else bindr (release_fields (idris2_removeReference n code) (idris2_apply_closure n code) p v m) (c_free p))"
  using assms by (simp add: boxed_def immortal_def)

lemma removeReference_boxed:
  assumes dr: "drops n (idris2_removeReference n code)" and ok: "rc_ok Z (add_mset p R) m"
    and few: "card (dom (objs m) - Z) < Suc n" and p: "boxed p"
  shows "dropped {} Z R m (idris2_removeReference (Suc n) code p)"
proof -
  obtain v where v: "objs m p = Some v" "p \<notin> Z" "p \<noteq> 0"
    using p rc_ok_live [OF ok] by (metis held_add union_single_eq_member)
  have step: "idris2_removeReference (Suc n) code p s = (if immortal v then Inr s
     else if refCounter v \<noteq> 1 then Inr (put_obj p (v\<lparr>refCounter := refCounter v - 1\<rparr>) s)
     else bindr (release_fields (idris2_removeReference n code) (idris2_apply_closure n code) p v s) (c_free p))"
    if "objs s = objs m" for s
    using removeReference_step [OF p _ v(3), of s v] v(1) that by simp
  consider "immortal v" | "\<not> immortal v" "refCounter v \<noteq> 1" | "\<not> immortal v" "refCounter v = 1"
    by blast
  then show ?thesis
  proof cases
    case 1
    then show ?thesis
      using drop_immortal [OF ok v(1)] by (intro droppedI [of _ m m]) (simp_all add: step del: idris2_removeReference.simps)
  next
    case 2
    let ?m' = "put_obj p (v\<lparr>refCounter := refCounter v - 1\<rparr>) m"
    have "put_obj p w (put_blk b x m) = put_blk b x (put_obj p w m)" for w b x
      by (simp add: put_obj_def put_blk_def)
    with 2 drop_shared [OF ok v(1,2)] shrinks_counter [OF v(1,2)] show ?thesis
      by (intro droppedI [of _ m ?m']) (simp_all add: step del: idris2_removeReference.simps)
  next
    case 3
    have "card (dom (objs m) - insert p Z) < n" using few_outside [OF ok _ v(2) few] v(1) by simp
    from release_fields_ok [OF dr make_zombie [OF ok v(1,2) 3] this v(1,2)] show ?thesis
      by (rule dropped_cong) (simp_all add: step 3 del: idris2_removeReference.simps)
  qed
qed

lemma removeReference_drops: "drops n (idris2_removeReference n code)"
proof (induction n)
  case 0
  then show ?case by (simp add: drops_def)
next
  case (Suc n)
  have "dropped {} Z R m (idris2_removeReference (Suc n) code p)"
    if "rc_ok Z (add_mset p R) m" "card (dom (objs m) - Z) < Suc n" for Z R p m
  proof (cases "boxed p")
    case False
    then show ?thesis using that by (auto simp: boxed_def rc_ok_unboxed dropped_def)
  qed (rule removeReference_boxed [OF Suc.IH that])
  then show ?case by (simp add: drops_def del: idris2_removeReference.simps)
qed

lemma card_live:
  assumes "mem_wf m"
  shows "card (dom (objs m) - Z) < brk m"
proof -
  have "dom (objs m) - Z \<subseteq> addr_of ` {0<..<brk m}"
    using assms by (auto simp: mem_wf_def)
  then have "card (dom (objs m) - Z) \<le> card (addr_of ` {0<..<brk m})"
    by (intro card_mono) auto
  also have "\<dots> \<le> card {0<..<brk m}" by (rule card_image_le) simp
  also have "\<dots> < brk m" using mem_wf_brk [OF assms] by (simp add: static_end_def)
  finally show ?thesis .
qed

subsection \<open>The interface of reference counting\<close>

text \<open>
  What a client of the two operations relies on: a reference it holds may be duplicated, and each
  reference it holds may be dropped once. The state is abstract here.
\<close>

locale ref_counting =
  fixes ok :: "addr multiset \<Rightarrow> 's \<Rightarrow> bool"
    and dup :: "addr \<Rightarrow> 's \<Rightarrow> (addr \<times> 's) res"
    and drp :: "addr \<Rightarrow> 's \<Rightarrow> 's res"
  assumes dup_ok: "ok R s \<Longrightarrow> p \<in># R \<Longrightarrow> \<exists>s'. dup p s = Inr (p, s') \<and> ok (add_mset p R) s'"
    and drp_ok: "ok (add_mset p R) s \<Longrightarrow> \<exists>s'. drp p s = Inr s' \<and> ok R s'"
begin

lemma drp_all: "ok (mset ps + R) s \<Longrightarrow> \<exists>s'. eachr drp ps s = Inr s' \<and> ok R s'"
proof (induction ps arbitrary: s)
  case (Cons p ps)
  then have "ok (add_mset p (mset ps + R)) s" by simp
  from drp_ok [OF this] obtain t where "drp p s = Inr t" "ok (mset ps + R) t" by blast
  with Cons.IH [of t] show ?case by simp
qed simp

lemma dup_all:
  "ok R s \<Longrightarrow> set ps \<subseteq> set_mset R \<Longrightarrow>
   \<exists>s'. eachr (\<lambda>p s. bindr (dup p s) (\<lambda>(_, s'). Inr s')) ps s = Inr s' \<and> ok (mset ps + R) s'"
proof (induction ps arbitrary: s R)
  case (Cons p ps)
  from dup_ok [OF Cons.prems(1), of p] Cons.prems(2)
  obtain t where t: "dup p s = Inr (p, t)" "ok (add_mset p R) t" by auto
  moreover have "set ps \<subseteq> set_mset (add_mset p R)" using Cons.prems(2) by auto
  ultimately show ?case using Cons.IH [of "add_mset p R" t] by simp
qed simp

lemma dup_all_drp_all:
  assumes "ok R s" "set ps \<subseteq> set_mset R"
  shows "\<exists>s'. bindr (eachr (\<lambda>p s. bindr (dup p s) (\<lambda>(_, s'). Inr s')) ps s) (eachr drp ps) = Inr s' \<and>
    ok R s'"
  using dup_all [OF assms] drp_all by fastforce

end

definition rc_bounded :: "nat \<Rightarrow> addr multiset \<Rightarrow> mem \<Rightarrow> bool" where
  "rc_bounded fuel R m \<longleftrightarrow> rc_ok {} R m \<and> card (dom (objs m)) < fuel"

interpretation rc: ref_counting "rc_bounded fuel" idris2_newReference "idris2_removeReference fuel code"
  for fuel code
proof
  fix R m p
  assume "rc_bounded fuel R m" "p \<in># R"
  then have ok: "rc_ok {} R m" "card (dom (objs m)) < fuel" by (simp_all add: rc_bounded_def)
  have "\<not> boxed p \<or> p \<in># held {} R m" using \<open>p \<in># R\<close> by (simp add: rc_ok_held_root)
  then obtain m' where "idris2_newReference p m = Inr (p, m')" "rc_ok {} (add_mset p R) m'"
    "dom (objs m') = dom (objs m)"
    by (rule newReference_ok [OF ok(1)])
  then show "\<exists>m'. idris2_newReference p m = Inr (p, m') \<and> rc_bounded fuel (add_mset p R) m'"
    using ok(2) by (simp add: rc_bounded_def)
next
  fix R m p
  assume "rc_bounded fuel (add_mset p R) m"
  then have ok: "rc_ok {} (add_mset p R) m" "card (dom (objs m)) < fuel" by (simp_all add: rc_bounded_def)
  then obtain m' where "idris2_removeReference fuel code p m = Inr m'" "rc_ok {} R m'" "shrinks {} m m'"
    using dropsD [OF removeReference_drops, of "{}" p R m fuel code] by (auto elim: droppedE)
  then show "\<exists>m'. idris2_removeReference fuel code p m = Inr m' \<and> rc_bounded fuel R m'"
    using ok shrinks_card [of "{}" m m'] by (fastforce simp: rc_bounded_def)
qed

subsection \<open>Properties\<close>

text \<open>
  C1. Dropping a reference is safe and exact. In a memory whose counters are right for the caller's
  references \<open>p, R\<close>, \<open>idris2_removeReference(p)\<close> returns (with fuel for the allocations made so far):
  no null or dangling access, no double free, no read of an uninitialised field, however deep,
  shared or cyclic the data is; afterwards the counters are right for the references \<open>R\<close>, so every
  object still referenced is alive, and the surviving objects have kept their fields.
\<close>

theorem removeReference_correct:
  assumes "rc_ok {} (add_mset p R) m" and "brk m \<le> fuel"
  shows "\<exists>m'. idris2_removeReference fuel code p m = Inr m' \<and> rc_ok {} R m' \<and>
    (\<forall>a v'. objs m' a = Some v' \<longrightarrow> (\<exists>v. objs m a = Some v \<and> payload v' = payload v))"
proof -
  have "card (dom (objs m) - {}) < fuel"
    using card_live [OF rc_okD(1) [OF assms(1)], of "{}"] assms(2) by simp
  then obtain m' where "idris2_removeReference fuel code p m = Inr m'" "rc_ok {} R m'" "shrinks {} m m'"
    by (rule droppedE [OF dropsD [OF removeReference_drops assms(1)]])
  then show ?thesis by (auto elim!: shrinks_obj)
qed

text \<open>A small heap: an \<open>IORef\<close> that holds the only reference to an \<open>Idris2_Pointer\<close>.\<close>

definition example_pointer_mem :: mem where
  "example_pointer_mem =
     alloc_obj \<lparr>refCounter = 1, tag = POINTER_TAG, payload = Idris2_Pointer 0\<rparr> (init_mem 1000)"

definition example_mem :: mem where
  "example_mem =
     alloc_obj \<lparr>refCounter = 1, tag = IOREF_TAG, payload = Idris2_IORef (addr_of 320)\<rparr> example_pointer_mem"

lemma example_mem_sizes:
  "brk (init_mem 1000) = 320" "lim (init_mem 1000) = 1000" "brk example_pointer_mem = 321"
  "lim example_pointer_mem = 1000" "brk example_mem = 322" "lim example_mem = 1000"
  by (simp_all add: example_mem_def example_pointer_mem_def init_mem_def static_end_def)

lemma example_pointer_mem_ok: "rc_ok {} {#addr_of 320#} example_pointer_mem"
  using alloc_ok [of "{}" "init_mem 1000" "Idris2_Pointer 0" "{#}"] rc_ok_init [of 1000]
  by (simp add: example_mem_sizes example_pointer_mem_def static_end_def)

lemma example_mem_ok: "rc_ok {} {#addr_of 321#} example_mem"
  using alloc_ok [of "{}" example_pointer_mem "Idris2_IORef (addr_of 320)" "{#}"] example_pointer_mem_ok
  by (simp add: example_mem_sizes example_mem_def)

theorem removeReference_correct_witness:
  "\<exists>m'. idris2_removeReference 322 (\<lambda>f xs m. Inl (Exit 1)) (addr_of 321) example_mem = Inr m' \<and>
    rc_ok {} {#} m' \<and>
    (\<forall>a v'. objs m' a = Some v' \<longrightarrow> (\<exists>v. objs example_mem a = Some v \<and> payload v' = payload v))"
  by (rule removeReference_correct) (simp_all add: example_mem_ok example_mem_sizes)

text \<open>
  C2. References may be duplicated and dropped freely. A caller that holds the references \<open>R\<close> can
  take any number of further references to objects it holds with \<open>idris2_newReference\<close>, and drop
  them again with \<open>idris2_removeReference\<close>; no call faults, and the counters are right for \<open>R\<close> at the
  end, also when counters saturate on the way.
\<close>

theorem newReference_removeReference:
  assumes "rc_ok {} R m" and "brk m \<le> fuel" and "set ps \<subseteq> set_mset R"
  shows "\<exists>m'. bindr (eachr (\<lambda>p s. bindr (idris2_newReference p s) (\<lambda>(_, s'). Inr s')) ps m)
      (eachr (idris2_removeReference fuel code) ps) = Inr m' \<and> rc_ok {} R m'"
proof -
  have "rc_bounded fuel R m"
    using card_live [OF rc_okD(1) [OF assms(1)], of "{}"] assms by (simp add: rc_bounded_def)
  from rc.dup_all_drp_all [OF this assms(3)] show ?thesis by (auto simp: rc_bounded_def)
qed

theorem newReference_removeReference_witness:
  "\<exists>m'. bindr (eachr (\<lambda>p s. bindr (idris2_newReference p s) (\<lambda>(_, s'). Inr s'))
        [addr_of 321, addr_of 321] example_mem)
      (eachr (idris2_removeReference 322 (\<lambda>f xs m. Inl (Exit 1))) [addr_of 321, addr_of 321]) = Inr m' \<and>
    rc_ok {} {#addr_of 321#} m'"
  by (rule newReference_removeReference) (simp_all add: example_mem_ok example_mem_sizes)

end
