(* ===== verification/Prim.thy ===== *)
theory Prim
  imports Remove_Reference Buffer
begin

text \<open>
  \<open>refc/prim.c\<close>, \<open>refc/prim.h\<close>, \<open>refc/clock.c\<close>, \<open>refc/threads.c\<close> and \<open>idris2_extractInt\<close> of
  \<open>refc/runtime.c\<close>: the primitives on references, arrays, pointers, mutexes, conditions and clocks.

  The arguments of a primitive are borrowed. The erased argument and the world token are never
  looked at and are left out. POSIX threads are a parameter (record \<open>pthread\<close>): each function returns
  its status code and the new memory. The system clocks are numbers the definitions take.
\<close>

section \<open>IORef\<close>

definition get_ioref :: "addr \<Rightarrow> mem \<Rightarrow> addr res" where
  "get_ioref p m =
     bindr (get_obj p m) (\<lambda>v. case payload v of
         Idris2_IORef x \<Rightarrow> Inr x
       | _ \<Rightarrow> Inl (Undefined Bad_type))"

definition set_ioref :: "addr \<Rightarrow> addr \<Rightarrow> mem \<Rightarrow> mem res" where
  "set_ioref p x m =
     bindr (get_obj p m) (\<lambda>v. case payload v of
         Idris2_IORef _ \<Rightarrow> Inr (put_obj p (v\<lparr>payload := Idris2_IORef x\<rparr>) m)
       | _ \<Rightarrow> Inl (Undefined Bad_type))"

definition idris2_Data_IORef_prim__newIORef :: "addr \<Rightarrow> mem \<Rightarrow> (addr \<times> mem) res" where
  "idris2_Data_IORef_prim__newIORef input_value m =
     bindr (idris2_newValue 16 m) (\<lambda>(ioRef, m1).
     bindr (set_payload ioRef IOREF_TAG No_payload m1) (\<lambda>m2.
     bindr (idris2_newReference input_value m2) (\<lambda>(v, m3).
     bindr (set_payload ioRef IOREF_TAG (Idris2_IORef v) m3) (\<lambda>m4. Inr (ioRef, m4)))))"

definition idris2_Data_IORef_prim__readIORef :: "addr \<Rightarrow> mem \<Rightarrow> (addr \<times> mem) res" where
  "idris2_Data_IORef_prim__readIORef ioref m =
     bindr (get_ioref ioref m) (\<lambda>v. idris2_newReference v m)"

definition idris2_Data_IORef_prim__writeIORef ::
  "nat \<Rightarrow> code \<Rightarrow> addr \<Rightarrow> addr \<Rightarrow> mem \<Rightarrow> (addr \<times> mem) res" where
  "idris2_Data_IORef_prim__writeIORef fuel code ioref new_value m =
     bindr (idris2_newReference new_value m) (\<lambda>(_, m1).
     bindr (get_ioref ioref m1) (\<lambda>old.
     bindr (set_ioref ioref new_value m1) (\<lambda>m2.
     bindr (idris2_removeReference fuel code old m2) (\<lambda>m3. Inr (0, m3)))))"

section \<open>System\<close>

definition idris2_System_Info_prim__os :: addr where
  "idris2_System_Info_prim__os = addr_of 303"

definition idris2_System_Info_prim__codegen :: addr where
  "idris2_System_Info_prim__codegen = addr_of 305"

text \<open>What is printed on the standard output, and the \<open>exit\<close> that follows it.\<close>

definition idris2_crash :: "addr \<Rightarrow> mem \<Rightarrow> (byte list \<times> fault) res" where
  "idris2_crash msg m = bindr (string_of msg m) (\<lambda>s. Inr (chars ''ERROR: '' @ s @ [0x0A], Exit (- 1)))"

definition refc_fork :: "addr \<Rightarrow> mem \<Rightarrow> (byte list \<times> fault) res" where
  "refc_fork fct m = Inr (chars ''Threads not implemented in the RefC backend!'' @ [0x0A], Exit 0)"

section \<open>Arrays\<close>

definition idris2_Data_IOArray_Prims_prim__newArray :: "addr \<Rightarrow> addr \<Rightarrow> mem \<Rightarrow> (addr \<times> mem) res" where
  "idris2_Data_IOArray_Prims_prim__newArray len v m =
     bindr (idris2_vp_to_Int64 len m) (\<lambda>l.
     let length = c_conv Int32 l in
     bindr (idris2_makeArray (word_of_int length) m) (\<lambda>(a, m1).
     bindr (eachr (\<lambda>i m. bindr (idris2_newReference v m) (\<lambda>(v', m').
                          bindr (get_array a m') (\<lambda>(capacity, arr). store_ptr arr (int i) v' m')))
              [0..<nat length] m1) (\<lambda>m2. Inr (a, m2))))"

definition idris2_Data_IOArray_Prims_prim__arrayGet :: "addr \<Rightarrow> addr \<Rightarrow> mem \<Rightarrow> (addr \<times> mem) res" where
  "idris2_Data_IOArray_Prims_prim__arrayGet array i m =
     bindr (get_array array m) (\<lambda>(capacity, arr).
     bindr (idris2_vp_to_Int64 i m) (\<lambda>idx.
     bindr (load_ptr arr idx m) (\<lambda>x. idris2_newReference x m)))"

definition idris2_Data_IOArray_Prims_prim__arraySet ::
  "nat \<Rightarrow> code \<Rightarrow> addr \<Rightarrow> addr \<Rightarrow> addr \<Rightarrow> mem \<Rightarrow> (addr \<times> mem) res" where
  "idris2_Data_IOArray_Prims_prim__arraySet fuel code array index v m =
     bindr (get_array array m) (\<lambda>(capacity, arr).
     bindr (idris2_vp_to_Int64 index m) (\<lambda>idx.
     bindr (load_ptr arr idx m) (\<lambda>old.
     bindr (idris2_removeReference fuel code old m) (\<lambda>m1.
     bindr (idris2_newReference v m1) (\<lambda>(v', m2).
     bindr (get_array array m2) (\<lambda>(capacity2, arr2).
     bindr (idris2_vp_to_Int64 index m2) (\<lambda>idx2.
     bindr (store_ptr arr2 idx2 v' m2) (\<lambda>m3. Inr (0, m3)))))))))"

section \<open>Pointers with finalisers\<close>

definition idris2_Prelude_IO_prim__onCollect :: "addr \<Rightarrow> addr \<Rightarrow> mem \<Rightarrow> (addr \<times> mem) res" where
  "idris2_Prelude_IO_prim__onCollect anyPtr freeingFunction m =
     bindr (idris2_newValue 24 m) (\<lambda>(retVal, m1).
     bindr (set_payload retVal GC_POINTER_TAG No_payload m1) (\<lambda>m2.
     bindr (idris2_newReference anyPtr m2) (\<lambda>(p, m3).
     bindr (set_payload retVal GC_POINTER_TAG (Idris2_GCPointer p freeingFunction) m3)
       (\<lambda>m4. Inr (retVal, m4)))))"

definition idris2_Prelude_IO_prim__onCollectAny :: "addr \<Rightarrow> addr \<Rightarrow> mem \<Rightarrow> (addr \<times> mem) res" where
  "idris2_Prelude_IO_prim__onCollectAny anyPtr freeingFunction m =
     bindr (idris2_newValue 24 m) (\<lambda>(retVal, m1).
     bindr (set_payload retVal GC_POINTER_TAG No_payload m1) (\<lambda>m2.
     bindr (idris2_newReference anyPtr m2) (\<lambda>(p, m3).
     bindr (set_payload retVal GC_POINTER_TAG (Idris2_GCPointer p freeingFunction) m3)
       (\<lambda>m4. Inr (retVal, m4)))))"

section \<open>Mutexes and conditions\<close>

record pthread =
  pthread_mutex_init :: "addr \<Rightarrow> mem \<Rightarrow> int \<times> mem"
  pthread_mutex_lock :: "addr \<Rightarrow> mem \<Rightarrow> int \<times> mem"
  pthread_mutex_unlock :: "addr \<Rightarrow> mem \<Rightarrow> int \<times> mem"
  pthread_cond_init :: "addr \<Rightarrow> mem \<Rightarrow> int \<times> mem"
  pthread_cond_wait :: "addr \<Rightarrow> addr \<Rightarrow> mem \<Rightarrow> int \<times> mem"
  pthread_cond_timedwait :: "addr \<Rightarrow> addr \<Rightarrow> int \<times> int \<Rightarrow> mem \<Rightarrow> int \<times> mem"
  pthread_cond_signal :: "addr \<Rightarrow> mem \<Rightarrow> int \<times> mem"
  pthread_cond_broadcast :: "addr \<Rightarrow> mem \<Rightarrow> int \<times> mem"

text \<open>\<open>int r = ..; IDRIS2_REFC_VERIFY(!r, ..); return NULL;\<close>\<close>

definition verify_status :: "int \<times> mem \<Rightarrow> (addr \<times> mem) res" where
  "verify_status rm = (case rm of (r, m) \<Rightarrow> bindr (checkr (r = 0)) (\<lambda>_. Inr (0, m)))"

definition get_mutex :: "addr \<Rightarrow> mem \<Rightarrow> addr res" where
  "get_mutex p m =
     bindr (get_obj p m) (\<lambda>v. case payload v of
         Idris2_Mutex x \<Rightarrow> Inr x
       | _ \<Rightarrow> Inl (Undefined Bad_type))"

definition get_condition :: "addr \<Rightarrow> mem \<Rightarrow> addr res" where
  "get_condition p m =
     bindr (get_obj p m) (\<lambda>v. case payload v of
         Idris2_Condition x \<Rightarrow> Inr x
       | _ \<Rightarrow> Inl (Undefined Bad_type))"

text \<open>The sizes of \<open>pthread_mutex_t\<close> and \<open>pthread_cond_t\<close> are 40 and 48 bytes.\<close>

definition System_Concurrency_Raw_prim__makeMutex :: "pthread \<Rightarrow> mem \<Rightarrow> (addr \<times> mem) res" where
  "System_Concurrency_Raw_prim__makeMutex P m =
     bindr (idris2_newValue 16 m) (\<lambda>(mut, m1).
     let (mutex, m2) = c_malloc 40 m1 in
     bindr (set_payload mut MUTEX_TAG (Idris2_Mutex mutex) m2) (\<lambda>m3.
     let (r, m4) = pthread_mutex_init P mutex m3 in
     bindr (checkr (r = 0)) (\<lambda>_. Inr (mut, m4))))"

definition System_Concurrency_Raw_prim__mutexAcquire :: "pthread \<Rightarrow> addr \<Rightarrow> mem \<Rightarrow> (addr \<times> mem) res" where
  "System_Concurrency_Raw_prim__mutexAcquire P mutex m =
     bindr (get_mutex mutex m) (\<lambda>x. verify_status (pthread_mutex_lock P x m))"

definition System_Concurrency_Raw_prim__mutexRelease :: "pthread \<Rightarrow> addr \<Rightarrow> mem \<Rightarrow> (addr \<times> mem) res" where
  "System_Concurrency_Raw_prim__mutexRelease P mutex m =
     bindr (get_mutex mutex m) (\<lambda>x. verify_status (pthread_mutex_unlock P x m))"

definition System_Concurrency_Raw_prim__makeCondition :: "pthread \<Rightarrow> mem \<Rightarrow> (addr \<times> mem) res" where
  "System_Concurrency_Raw_prim__makeCondition P m =
     bindr (idris2_newValue 16 m) (\<lambda>(c, m1).
     let (cond, m2) = c_malloc 48 m1 in
     bindr (set_payload c CONDITION_TAG (Idris2_Condition cond) m2) (\<lambda>m3.
     bindr (checkr (cond \<noteq> 0)) (\<lambda>_.
     let (r, m4) = pthread_cond_init P cond m3 in
     bindr (checkr (r = 0)) (\<lambda>_. Inr (c, m4)))))"

definition System_Concurrency_Raw_prim__conditionWait ::
  "pthread \<Rightarrow> addr \<Rightarrow> addr \<Rightarrow> mem \<Rightarrow> (addr \<times> mem) res" where
  "System_Concurrency_Raw_prim__conditionWait P condition mutex m =
     bindr (get_condition condition m) (\<lambda>c. bindr (get_mutex mutex m) (\<lambda>x.
     verify_status (pthread_cond_wait P c x m)))"

definition System_Concurrency_Raw_prim__conditionWaitTimeout ::
  "pthread \<Rightarrow> addr \<Rightarrow> addr \<Rightarrow> addr \<Rightarrow> mem \<Rightarrow> (addr \<times> mem) res" where
  "System_Concurrency_Raw_prim__conditionWaitTimeout P condition mutex timeout m =
     bindr (idris2_vp_to_Int64 timeout m) (\<lambda>t.
     bindr (c_div Int64 t 1000000) (\<lambda>tv_sec.
     bindr (c_mod Int64 t 1000000) (\<lambda>tv_nsec.
     bindr (get_condition condition m) (\<lambda>c. bindr (get_mutex mutex m) (\<lambda>x.
     verify_status (pthread_cond_timedwait P c x (tv_sec, tv_nsec) m))))))"

definition System_Concurrency_Raw_prim__conditionSignal :: "pthread \<Rightarrow> addr \<Rightarrow> mem \<Rightarrow> (addr \<times> mem) res" where
  "System_Concurrency_Raw_prim__conditionSignal P condition m =
     bindr (get_condition condition m) (\<lambda>c. verify_status (pthread_cond_signal P c m))"

definition System_Concurrency_Raw_prim__conditionBroadcast :: "pthread \<Rightarrow> addr \<Rightarrow> mem \<Rightarrow> (addr \<times> mem) res" where
  "System_Concurrency_Raw_prim__conditionBroadcast P condition m =
     bindr (get_condition condition m) (\<lambda>c. verify_status (pthread_cond_broadcast P c m))"

section \<open>Clocks\<close>

definition NSEC_PER_SEC :: int where
  "NSEC_PER_SEC = 1000000000"

text \<open>\<open>now\<close> is the value of \<open>time(NULL)\<close>, a \<open>time_t\<close> of 64 bits.\<close>

definition clockTimeUtc :: "int \<Rightarrow> mem \<Rightarrow> (addr \<times> mem) res" where
  "clockTimeUtc now m =
     bindr (c_mul Int64 now NSEC_PER_SEC) (\<lambda>ns. idris2_mkBits64 (word_of_int ns) m)"

definition clockTimeMonotonic :: "int \<Rightarrow> mem \<Rightarrow> (addr \<times> mem) res" where
  "clockTimeMonotonic now m = clockTimeUtc now m"

text \<open>\<open>scale\<close> is the \<open>float\<close> division of \<open>clock()\<close> by \<open>CLOCKS_PER_NSEC\<close> and the conversion to \<open>uint64_t\<close>.\<close>

definition clockTimeProcess :: "(int \<Rightarrow> 64 word res) \<Rightarrow> int \<Rightarrow> mem \<Rightarrow> (addr \<times> mem) res" where
  "clockTimeProcess scale ticks m = bindr (scale ticks) (\<lambda>time_ns. idris2_mkBits64 time_ns m)"

definition clockTimeThread :: "(int \<Rightarrow> 64 word res) \<Rightarrow> int \<Rightarrow> mem \<Rightarrow> (addr \<times> mem) res" where
  "clockTimeThread scale ticks m = clockTimeProcess scale ticks m"

definition clockTimeGcCpu :: addr where "clockTimeGcCpu = 0"

definition clockTimeGcReal :: addr where "clockTimeGcReal = 0"

definition clockValid :: "addr \<Rightarrow> int" where
  "clockValid clock = c_bool (clock \<noteq> 0)"

definition clockSecond :: "addr \<Rightarrow> mem \<Rightarrow> int res" where
  "clockSecond clock m = bindr (idris2_vp_to_Bits64 clock m) (\<lambda>t. c_div Bits64 t NSEC_PER_SEC)"

definition clockNanosecond :: "addr \<Rightarrow> mem \<Rightarrow> int res" where
  "clockNanosecond clock m = bindr (idris2_vp_to_Bits64 clock m) (\<lambda>t. c_mod Bits64 t NSEC_PER_SEC)"

section \<open>The scrutinee of a constant case\<close>

text \<open>On this platform \<open>idris2_vp_to_Bits32\<close> looks at the pointer itself, so the cases for boxed 32-bit
  values read the upper half of the address.\<close>

definition idris2_extractInt :: "gmp \<Rightarrow> fpu \<Rightarrow> addr \<Rightarrow> mem \<Rightarrow> int res" where
  "idris2_extractInt g F v m =
     (if idris2_vp_is_unboxed v then Inr (c_conv Int32 (uint (drop_bit idris2_vp_int_shift v)))
      else bindr (get_obj v m) (\<lambda>w.
        if tag w = BITS32_TAG then Inr (c_conv Int32 (idris2_vp_to_Bits32 v))
        else if tag w = BITS64_TAG then bindr (idris2_vp_to_Bits64 v m) (\<lambda>x. Inr (c_conv Int32 x))
        else if tag w = INT32_TAG then Inr (c_conv Int32 (idris2_vp_to_Bits32 v))
        else if tag w = INT64_TAG then bindr (idris2_vp_to_Int64 v m) (\<lambda>x. Inr (c_conv Int32 x))
        else if tag w = INTEGER_TAG then
          bindr (get_integer v m) (\<lambda>i. Inr (c_conv Int32 (sint (mpz_get_si g i))))
        else if tag w = DOUBLE_TAG then
          bindr (idris2_vp_to_Double v m) (\<lambda>d. f_to_int F Int32 d)
        else Inr (- 1)))"

section \<open>Names of the primitive types\<close>

text \<open>A type that is matched on at run time is told by the name in its constructor object.\<close>

definition idris2_constr_Int :: string where "idris2_constr_Int = ''Int''"
definition idris2_constr_Int8 :: string where "idris2_constr_Int8 = ''Int8''"
definition idris2_constr_Int16 :: string where "idris2_constr_Int16 = ''Int16''"
definition idris2_constr_Int32 :: string where "idris2_constr_Int32 = ''Int32''"
definition idris2_constr_Int64 :: string where "idris2_constr_Int64 = ''Int64''"
definition idris2_constr_Bits8 :: string where "idris2_constr_Bits8 = ''Bits8''"
definition idris2_constr_Bits16 :: string where "idris2_constr_Bits16 = ''Bits16''"
definition idris2_constr_Bits32 :: string where "idris2_constr_Bits32 = ''Bits32''"
definition idris2_constr_Bits64 :: string where "idris2_constr_Bits64 = ''Bits64''"
definition idris2_constr_Double :: string where "idris2_constr_Double = ''Double''"
definition idris2_constr_Integer :: string where "idris2_constr_Integer = ''Integer''"
definition idris2_constr_Char :: string where "idris2_constr_Char = ''Char''"
definition idris2_constr_String :: string where "idris2_constr_String = ''String''"
definition idris2_constr____gt :: string where "idris2_constr____gt = ''->''"

lemma type_names_distinct:
  "distinct [idris2_constr_Int, idris2_constr_Int8, idris2_constr_Int16, idris2_constr_Int32,
    idris2_constr_Int64, idris2_constr_Bits8, idris2_constr_Bits16, idris2_constr_Bits32, idris2_constr_Bits64,
    idris2_constr_Double, idris2_constr_Integer, idris2_constr_Char, idris2_constr_String, idris2_constr____gt]"
  by (simp add: idris2_constr_Int_def idris2_constr_Int8_def idris2_constr_Int16_def idris2_constr_Int32_def
    idris2_constr_Int64_def idris2_constr_Bits8_def idris2_constr_Bits16_def idris2_constr_Bits32_def
    idris2_constr_Bits64_def idris2_constr_Double_def idris2_constr_Integer_def idris2_constr_Char_def
    idris2_constr_String_def idris2_constr____gt_def)

end
