(* ===== verification/Prim_Correct.thy ===== *)
theory Prim_Correct
  imports Prim
begin

text \<open>
  The primitives on \<open>IORef\<close>s keep the reference counters right and behave as mutable cells;
  clock arithmetic; the truncation in \<open>idris2_extractInt\<close>.
\<close>

section \<open>References held by the heap\<close>

lemma held_field:
  assumes "rc_ok Z R m" "objs m a = Some v" "a \<notin> Z" "x \<in> set (refs_of m (payload v))"
  shows "x \<in># held Z R m"
proof -
  have "a \<in> dom (objs m) - Z" "x \<in># mset (refs_at m a)"
    using assms by (auto simp: refs_at_def)
  then have "x \<in># (\<Sum>a\<in>dom (objs m) - Z. mset (refs_at m a))"
    using rc_okD(5) [OF assms(1)] by (subst set_mset_sum) auto
  then show ?thesis by (simp add: held_def)
qed

lemma root_object:
  assumes "rc_ok {} R m" "p \<in># R" "boxed p"
  obtains v where "objs m p = Some v" "obj_wf m v" "p \<noteq> 0"
  using rc_ok_live [OF assms(1) rc_ok_held_root [OF assms(2)] assms(3)] by metis

lemma put_obj_alloc:
  "x \<noteq> addr_of (brk m) \<Longrightarrow> put_obj x v (alloc_obj w m) = alloc_obj w (put_obj x v m)"
  by (simp add: put_obj_def alloc_obj_def fun_upd_twist)

text \<open>Taking a reference commutes with the allocation of an object.\<close>

lemma newReference_alloc:
  assumes "mem_wf m" "idris2_newReference x m = Inr (y, m')"
  shows "idris2_newReference x (alloc_obj w m) = Inr (y, alloc_obj w m')"
proof (cases "x \<noteq> 0 \<and> \<not> idris2_vp_is_unboxed x")
  case True
  then obtain v where v: "get_obj x m = Inr v"
    using assms(2) by (auto simp: idris2_newReference_def bindr_eq_Inr)
  then have "x \<noteq> addr_of (brk m)"
    using mem_wf_fresh(1) [OF assms(1)] by (auto simp: get_obj_eq_Inr)
  with True v assms(2) show ?thesis
    by (auto simp: idris2_newReference_def put_obj_alloc split: if_splits)
qed (use assms in \<open>auto simp: idris2_newReference_def\<close>)

definition held_or_unboxed :: "addr multiset \<Rightarrow> addr \<Rightarrow> bool" where
  "held_or_unboxed R x \<longleftrightarrow> x \<in># R \<or> \<not> boxed x"

lemma newReference_root:
  assumes "rc_ok {} R m" "held_or_unboxed R x"
  obtains m' where "idris2_newReference x m = Inr (x, m')" "rc_ok {} (add_mset x R) m'"
    "blks m' = blks m" "dom (objs m') = dom (objs m)" "brk m' = brk m" "lim m' = lim m"
    "\<And>a. map_option payload (objs m' a) = map_option payload (objs m a)"
proof -
  have "\<not> boxed x \<or> x \<in># held {} R m"
    using assms(2) rc_ok_held_root by (auto simp: held_or_unboxed_def)
  from newReference_ok [OF assms(1) this] show thesis using that by metis
qed

section \<open>IORef\<close>

lemma get_ioref_eq: "get_ioref p m = Inr x \<longleftrightarrow> p \<noteq> 0 \<and> (\<exists>v. objs m p = Some v \<and> payload v = Idris2_IORef x)"
  by (cases "objs m p"; cases "payload (the (objs m p))") (auto simp: get_ioref_def get_obj_def)

text \<open>A new \<open>IORef\<close> holds the given value; the caller owns one reference to it and keeps its own
  reference to the value, and all counters are right. The only fault is a failed allocation.\<close>

theorem newIORef_correct:
  assumes "rc_ok {} R m" "held_or_unboxed R x"
  shows "if brk m < lim m
    then \<exists>p m'. idris2_Data_IORef_prim__newIORef x m = Inr (p, m') \<and> rc_ok {} (add_mset p R) m' \<and>
      get_ioref p m' = Inr x
    else idris2_Data_IORef_prim__newIORef x m = Inl Verify_failed"
proof (cases "brk m < lim m")
  case False
  then show ?thesis
    using rc_okD(1) [OF assms(1)] by (simp add: idris2_Data_IORef_prim__newIORef_def idris2_newValue_cases)
next
  case True
  note wf = rc_okD(1) [OF assms(1)]
  let ?p = "addr_of (brk m)"
  obtain m' where m': "idris2_newReference x m = Inr (x, m')" "rc_ok {} (add_mset x R) m'"
    "brk m' = brk m" "lim m' = lim m"
    using newReference_root [OF assms] by metis
  let ?w = "\<lambda>t pl. \<lparr>refCounter = 1, tag = t, payload = pl\<rparr>"
  note wf' = rc_okD(1) [OF m'(2)]
  have set: "set_payload ?p t pl (alloc_obj (?w t' pl') m'') = Inr (alloc_obj (?w t pl) m'')"
    if "brk m'' = brk m" for t pl t' pl' m''
    using mem_wf_fresh(3) [OF wf] that
    by (simp add: set_payload_def get_obj_def put_obj_def alloc_obj_def)
  have "idris2_Data_IORef_prim__newIORef x m = Inr (?p, alloc_obj (?w IOREF_TAG (Idris2_IORef x)) m')"
    using True m'(3) newReference_alloc [OF wf m'(1)]
    by (simp add: idris2_Data_IORef_prim__newIORef_def idris2_newValue_cases [OF wf] set)
  moreover have "rc_ok {} (add_mset ?p R) (alloc_obj (?w IOREF_TAG (Idris2_IORef x)) m')"
    using alloc_ok [of "{}" m' "Idris2_IORef x" R] m' True by simp
  moreover have "get_ioref ?p (alloc_obj (?w IOREF_TAG (Idris2_IORef x)) m') = Inr x"
    using mem_wf_fresh(3) [OF wf] m'(3) by (simp add: get_ioref_eq)
  ultimately show ?thesis using True by auto
qed

text \<open>A removal keeps the objects the caller still holds.\<close>

lemma removeReference_root:
  assumes "rc_ok {} (add_mset q R) m" "brk m \<le> fuel"
  obtains m' where "idris2_removeReference fuel code q m = Inr m'" "rc_ok {} R m'" "shrinks {} m m'"
    "\<And>b x. blks m' b \<noteq> None \<Longrightarrow> idris2_removeReference fuel code q (put_blk b x m) = Inr (put_blk b x m')"
proof -
  have "card (dom (objs m) - {}) < fuel"
    using card_live [OF rc_okD(1) [OF assms(1)], of "{}"] assms(2) by simp
  then have "dropped {} {} R m (idris2_removeReference fuel code q)"
    by (rule dropsD [OF removeReference_drops assms(1)])
  then show thesis by (rule droppedE) (use that in blast)
qed

lemma shrinks_root:
  assumes "rc_ok {} R m'" "shrinks {} m m'" "p \<in># R" "boxed p" "objs m p = Some v"
  obtains v' where "objs m' p = Some v'" "payload v' = payload v"
proof -
  obtain v' where v': "objs m' p = Some v'" using root_object [OF assms(1,3,4)] by metis
  then have "payload v' = payload v" using shrinks_obj [OF assms(2) v'] assms(5) by (metis option.sel)
  with v' that show thesis by blast
qed

text \<open>C13. An \<open>IORef\<close> is a mutable cell: after a write the next read returns the value written. The write
  releases the old value and keeps all counters right, without undefined behaviour and with fuel for one
  recursion per allocated object; the read hands the caller one more reference.\<close>

theorem ioref_write_read:
  assumes "rc_ok {} R m" "p \<in># R" "get_ioref p m = Inr old" "held_or_unboxed R x" "brk m \<le> fuel"
  shows "\<exists>m1 m2. idris2_Data_IORef_prim__writeIORef fuel code p x m = Inr (0, m1) \<and> rc_ok {} R m1 \<and>
    idris2_Data_IORef_prim__readIORef p m1 = Inr (x, m2) \<and> rc_ok {} (add_mset x R) m2"
proof -
  obtain v where v: "objs m p = Some v" "payload v = Idris2_IORef old" "p \<noteq> 0"
    using assms(3) by (auto simp: get_ioref_eq)
  have bx: "boxed p" using live_boxed [OF rc_okD(1) [OF assms(1)] v(1)] .
  obtain m1 where m1: "idris2_newReference x m = Inr (x, m1)" "rc_ok {} (add_mset x R) m1" "brk m1 = brk m"
    "\<And>a. map_option payload (objs m1 a) = map_option payload (objs m a)"
    using newReference_root [OF assms(1,4)] by metis
  obtain v1 where v1: "objs m1 p = Some v1" "payload v1 = Idris2_IORef old"
    using m1(4) [of p] v by (cases "objs m1 p") auto
  have tag1: "tag v1 = IOREF_TAG"
    using rc_okD(3) [OF m1(2)] v1 by (auto simp: objs_wf_def obj_wf_def)
  define m2 where "m2 = put_obj p (v1\<lparr>payload := Idris2_IORef x\<rparr>) m1"
  have "v1\<lparr>tag := IOREF_TAG, payload := Idris2_IORef x\<rparr> = v1\<lparr>payload := Idris2_IORef x\<rparr>"
    using tag1 by simp
  then have ok2: "rc_ok {} (add_mset old R) m2"
    using exchange_ok [of "{}" m1 "Idris2_IORef x" R p v1] m1(2) v1 by (simp add: m2_def)
  obtain m3 where m3: "idris2_removeReference fuel code old m2 = Inr m3" "rc_ok {} R m3" "shrinks {} m2 m3"
    by (rule removeReference_root [OF ok2, of fuel code]) (use assms(5) m1(3) in \<open>simp_all add: m2_def\<close>)
  have wr: "idris2_Data_IORef_prim__writeIORef fuel code p x m = Inr (0, m3)"
    using m1(1) m3(1) v1 v(3)
    by (simp add: idris2_Data_IORef_prim__writeIORef_def get_ioref_def set_ioref_def m2_def)
  have "objs m2 p = Some (v1\<lparr>payload := Idris2_IORef x\<rparr>)" by (simp add: m2_def)
  then obtain v3 where "objs m3 p = Some v3" "payload v3 = payload (v1\<lparr>payload := Idris2_IORef x\<rparr>)"
    by (rule shrinks_root [OF m3(2,3) assms(2) bx])
  then have v3: "objs m3 p = Some v3" "payload v3 = Idris2_IORef x" by simp_all
  have "x \<in># held {} R m3" using held_field [OF m3(2) v3(1)] v3(2) by simp
  then obtain m4 where "idris2_newReference x m3 = Inr (x, m4)" "rc_ok {} (add_mset x R) m4"
    using newReference_ok [OF m3(2), of x] by metis
  then show ?thesis
    using wr m3(2) v3 v(3) by (auto simp: idris2_Data_IORef_prim__readIORef_def get_ioref_def)
qed

theorem newIORef_correct_witness:
  "if brk (init_mem 1000) < lim (init_mem 1000)
    then \<exists>p m'. idris2_Data_IORef_prim__newIORef (idris2_mkChar 65) (init_mem 1000) = Inr (p, m') \<and>
      rc_ok {} (add_mset p {#}) m' \<and> get_ioref p m' = Inr (idris2_mkChar 65)
    else idris2_Data_IORef_prim__newIORef (idris2_mkChar 65) (init_mem 1000) = Inl Verify_failed"
  by (rule newIORef_correct)
    (simp_all add: rc_ok_init static_end_def held_or_unboxed_def boxed_def idris2_mkChar_def mk_is_unboxed)

theorem ioref_write_read_witness:
  "\<exists>m1 m2. idris2_Data_IORef_prim__writeIORef 322 (\<lambda>f xs m. Inl (Exit 1)) (addr_of 321) (addr_of 321) example_mem =
      Inr (0, m1) \<and> rc_ok {} {#addr_of 321#} m1 \<and>
    idris2_Data_IORef_prim__readIORef (addr_of 321) m1 = Inr (addr_of 321, m2) \<and>
    rc_ok {} (add_mset (addr_of 321) {#addr_of 321#}) m2"
proof (rule ioref_write_read)
  show "get_ioref (addr_of 321) example_mem = Inr (addr_of 320)"
    using addr_of_nonzero [of 321] by (simp add: get_ioref_eq example_mem_def example_pointer_mem_def)
qed (simp_all add: example_mem_ok example_mem_sizes held_or_unboxed_def)

section \<open>Clocks\<close>

text \<open>A UTC clock value read from a system time between 1970 and the year 2262 splits into exactly
  that number of seconds and no nanoseconds; the clock has the resolution of a second. The call returns
  whenever there is memory for the boxed value.\<close>

theorem clock_utc_parts:
  assumes "rt_wf m" "0 \<le> now" "now < 9223372036" "brk m < lim m"
  shows "\<exists>c m'. clockTimeUtc now m = Inr (c, m') \<and> clockSecond c m' = Inr now \<and> clockNanosecond c m' = Inr 0"
proof -
  have r: "c_mul Int64 now NSEC_PER_SEC = Inr (now * NSEC_PER_SEC)"
    using assms(2,3) by (simp add: c_mul_def c_promote_def NSEC_PER_SEC_def in_range_code)
  have range: "in_range Bits64 (now * NSEC_PER_SEC)"
    using assms(2,3) by (simp add: NSEC_PER_SEC_def in_range_code)
  obtain c m' where c: "mk Bits64 (now * NSEC_PER_SEC) m = Inr (c, m')"
    using assms(4) rt_wf_mem_wf [OF assms(1)]
    by (cases "mk Bits64 (now * NSEC_PER_SEC) m") (auto simp: idris2_mkBits64_def new_tagged_cases split: if_splits)
  then have "idris2_vp_to_Bits64 c m' = Inr (now * NSEC_PER_SEC)"
    using box.make_rd_exact [OF assms(1) range] by simp
  then have "clockSecond c m' = Inr now" "clockNanosecond c m' = Inr 0"
    using assms(2,3)
    by (simp_all add: clockSecond_def clockNanosecond_def c_div_def c_mod_def NSEC_PER_SEC_def sdiv_cases
        smod_cases c_promote_def c_fit_def in_range_code)
  then show ?thesis using c r by (auto simp: clockTimeUtc_def)
qed

theorem clock_utc_parts_witness:
  "\<exists>c m'. clockTimeUtc 5 (init_mem 1000) = Inr (c, m') \<and> clockSecond c m' = Inr 5 \<and> clockNanosecond c m' = Inr 0"
  by (rule clock_utc_parts [OF rt_wf_example]) simp_all

section \<open>Constant cases\<close>

text \<open>The integer a constant case compares is the scrutinee truncated to 32 bits: a boxed \<open>Int64\<close>
  gives its value only when it is in the range of \<open>int\<close>, and two values that differ by a multiple of
  \<open>2 ^ 32\<close> are not told apart.\<close>

theorem extractInt_truncates:
  assumes "objs m p = Some v" "p \<noteq> 0" "\<not> idris2_vp_is_unboxed p" "tag v = INT64_TAG"
    and "payload v = Idris2_Int64 w"
  shows "idris2_extractInt g F p m = Inr (c_conv Int32 (sint w)) \<and>
    (idris2_extractInt g F p m = Inr (sint w) \<longleftrightarrow> in_range Int32 (sint w))"
  using assms
  by (simp add: idris2_extractInt_def idris2_vp_to_Int64_def boxed_64_def c_conv_eq_self_iff tag_defs)

theorem extractInt_truncates_witness:
  "let m = alloc_obj \<lparr>refCounter = 1, tag = INT64_TAG, payload = Idris2_Int64 4294967296\<rparr> (init_mem 1000) in
   \<forall>F. idris2_extractInt gmp_ints F (addr_of 320) m = Inr (c_conv Int32 (sint (4294967296 :: 64 word))) \<and>
    (idris2_extractInt gmp_ints F (addr_of 320) m = Inr (sint (4294967296 :: 64 word)) \<longleftrightarrow>
     in_range Int32 (sint (4294967296 :: 64 word)))"
  unfolding Let_def
  using extractInt_truncates [of "alloc_obj \<lparr>refCounter = 1, tag = INT64_TAG, payload = Idris2_Int64 4294967296\<rparr>
      (init_mem 1000)" "addr_of 320"] addr_of_nonzero [of 320]
  by (simp add: c_conv_eq_self_iff)

end
