(* ===== verification/Array_Correct.thy ===== *)
theory Array_Correct
  imports Prim_Correct
begin

text \<open>
  The arrays of \<open>refc/prim.c\<close> keep the reference counters right and implement mutable lists. The
  interface of a mutable array is the locale \<open>mutable_array\<close>, interpreted on \<open>arrayGet\<close> and \<open>arraySet\<close>.
\<close>

section \<open>Arrays\<close>

abbreviation put_ptrs :: "addr \<Rightarrow> addr option list \<Rightarrow> mem \<Rightarrow> mem" where
  "put_ptrs b ps \<equiv> put_blk b (Ptrs ps)"

lemma own_at_objs: "objs m' = objs m \<Longrightarrow> own_at m' a = own_at m a"
  by (simp add: own_at_def)

text \<open>A block that an object does not own does not matter for its fields.\<close>

lemma refs_of_put_ptrs: "b \<notin> own_of pl \<Longrightarrow> refs_of (put_ptrs b ps m) pl = refs_of m pl"
  by (cases pl) auto

lemma payload_wf_put_ptrs:
  "payload_wf m pl \<Longrightarrow> b \<notin> own_of pl \<Longrightarrow> payload_wf (put_ptrs b ps m) pl"
  by (cases pl) auto

text \<open>Storing into a slot of an array moves the new reference from the caller into the array and hands
  the old one to the caller.\<close>

lemma array_unshared:
  assumes "objs_wf m" "objs m a = Some v" "payload v = Idris2_Array cap arr" "objs m b = Some w" "b \<noteq> a"
  shows "arr \<notin> own_of (payload w)"
proof -
  have "own_at m a \<inter> own_at m b = {}" using assms(1,5) by (auto simp: objs_wf_def)
  then show ?thesis using assms(2-4) by (auto simp: own_at_def)
qed

lemma array_store_held:
  assumes ok: "rc_ok Z R' m" and v: "objs m a = Some v" "payload v = Idris2_Array cap arr" "a \<notin> Z"
    and ps: "blks m arr = Some (Ptrs ps)" "i < length ps"
  shows "held Z (add_mset (the (ps ! i)) R) (put_ptrs arr (ps[i := Some x]) m) = held Z (add_mset x R) m"
proof -
  let ?m = "put_ptrs arr (ps[i := Some x]) m"
  let ?old = "mset (map the ps)" and ?new = "mset (map the (ps[i := Some x]))"
  let ?S = "\<Sum>b\<in>dom (objs m) - Z. mset (refs_at m b)"
  let ?S' = "\<Sum>b\<in>dom (objs m) - Z. ((\<lambda>b. mset (refs_at m b))(a := ?new)) b"
  have refs: "mset (refs_at ?m b) = ((\<lambda>b. mset (refs_at m b))(a := ?new)) b" for b
    using v ps array_unshared [OF rc_okD(3) [OF ok] v(1,2)] refs_of_put_ptrs [of arr _ _ m]
    by (cases "objs m b") (auto simp: refs_at_def)
  have fin: "finite (dom (objs m) - Z)" "a \<in> dom (objs m) - Z" using rc_okD(5) [OF ok] v by auto
  have new: "?new + {#the (ps ! i)#} = ?old + {#x#}"
    using ps(2) by (simp add: map_update mset_update)
  have "refs_at m a = map the ps" using v ps by (simp add: refs_at_def)
  then have sum: "?S' + ?old = ?S + ?new"
    using sum_fun_upd_mset [OF fin, of "\<lambda>b. mset (refs_at m b)" ?new] by simp
  have "?S' + {#the (ps ! i)#} + ?old = ?S' + ?old + {#the (ps ! i)#}" by (simp only: ac_simps)
  also have "\<dots> = ?S + (?new + {#the (ps ! i)#})" unfolding sum by (simp only: ac_simps)
  also have "\<dots> = ?S + {#x#} + ?old" unfolding new by (simp only: ac_simps)
  finally have "?S' + {#the (ps ! i)#} = ?S + {#x#}" by (rule add_right_imp_eq)
  then show ?thesis unfolding held_def refs by simp
qed

lemma array_store_wf:
  assumes wf: "objs_wf m" and v: "objs m a = Some v" "payload v = Idris2_Array cap arr"
    and ps: "blks m arr = Some (Ptrs ps)"
  shows "objs_wf (put_ptrs arr (ps[i := Some x]) m)"
proof -
  let ?m = "put_ptrs arr (ps[i := Some x]) m"
  have wfm: "obj_wf m w" if "objs m b = Some w" for b w
    using wf that by (auto simp: objs_wf_def)
  have "obj_wf ?m w" if w: "objs m b = Some w" for b w
  proof (cases "b = a")
    case True
    have "None \<notin> set (ps[i := Some x])"
      using wfm [OF v(1)] v(2) ps set_update_subset_insert [of ps i "Some x"] by (auto simp: obj_wf_def)
    with True w wfm [OF v(1)] v ps show ?thesis by (simp add: obj_wf_def)
  next
    case False
    then show ?thesis
      using wfm [OF w] payload_wf_put_ptrs array_unshared [OF wf v w] by (simp add: obj_wf_def)
  qed
  then show ?thesis using wf own_at_objs [of ?m m] by (simp add: objs_wf_def)
qed

lemma array_store_ok:
  assumes ok: "rc_ok Z (add_mset x R) m" and v: "objs m a = Some v" "payload v = Idris2_Array cap arr" "a \<notin> Z"
    and ps: "blks m arr = Some (Ptrs ps)" "i < length ps"
  shows "rc_ok Z (add_mset (the (ps ! i)) R) (put_ptrs arr (ps[i := Some x]) m)"
proof -
  let ?m = "put_ptrs arr (ps[i := Some x]) m"
  have "mem_wf ?m" using mem_wf_put_blk [OF rc_okD(1) [OF ok]] ps(1) by simp
  moreover have "counts_ok Z (held Z (add_mset x R) m) ?m"
    using rc_okD(4) [OF ok] unfolding counts_ok_def by simp
  ultimately show ?thesis
    using rc_okD(2) [OF ok] array_store_wf [OF rc_okD(3) [OF ok] v(1,2) ps(1)] array_store_held [OF ok v ps]
    by (simp add: rc_ok_def del: held_add)
qed

lemma rc_ok_zeros: "rc_ok Z (replicate_mset n 0 + R) m \<longleftrightarrow> rc_ok Z R m"
  by (induction n) (simp_all add: rc_ok_unboxed boxed_def)

text \<open>A fresh block is owned by nobody.\<close>

lemma payload_own_live: "payload_wf m pl \<Longrightarrow> b \<in> own_of pl \<Longrightarrow> blks m b \<noteq> None"
  by (cases pl) auto

lemma alloc_blk_ok:
  assumes ok: "rc_ok Z R m" and room: "brk m < lim m"
  shows "rc_ok Z R (alloc_blk x m)" "addr_of (brk m) \<notin> own_at (alloc_blk x m) a"
proof -
  let ?b = "addr_of (brk m)" and ?m = "alloc_blk x m"
  note fresh = mem_wf_fresh [OF rc_okD(1) [OF ok]]
  have own: "?b \<notin> own_of (payload v)" if "objs m c = Some v" for c v
    using rc_okD(3) [OF ok] that payload_own_live [of m "payload v" ?b] fresh(2)
    by (auto simp: objs_wf_def obj_wf_def)
  then show "?b \<notin> own_at ?m a" by (auto simp: own_at_def split: option.splits)
  have same: "refs_of ?m (payload v) = refs_of m (payload v)" "payload_wf ?m (payload v)"
    if "objs m c = Some v" for c v
  proof -
    have "payload_wf m (payload v)" using rc_okD(3) [OF ok] that by (auto simp: objs_wf_def obj_wf_def)
    with own [OF that] show "refs_of ?m (payload v) = refs_of m (payload v)" "payload_wf ?m (payload v)"
      by (cases "payload v"; auto)+
  qed
  have "refs_at ?m c = refs_at m c" for c
    using same(1) by (simp add: refs_at_def split: option.split)
  then have "held Z R ?m = held Z R m" by (simp add: held_def)
  moreover have "objs_wf ?m"
    using rc_okD(3) [OF ok] same(2) own_at_objs [of ?m m] by (auto simp: objs_wf_def obj_wf_def)
  moreover have "counts_ok Z (held Z R m) ?m"
    using rc_okD(4) [OF ok] by (simp add: counts_ok_def)
  ultimately show "rc_ok Z R ?m"
    using rc_okD(2) [OF ok] mem_wf_alloc_blk [OF rc_okD(1) [OF ok] room] by (simp add: rc_ok_def)
qed

definition array_mem :: "32 word \<Rightarrow> addr option list \<Rightarrow> mem \<Rightarrow> mem" where
  "array_mem len ps m =
     alloc_blk (Ptrs ps)
       (alloc_obj \<lparr>refCounter = 1, tag = ARRAY_TAG, payload = Idris2_Array len (addr_of (Suc (brk m)))\<rparr> m)"

lemma fresh_pair:
  assumes "mem_wf m" "Suc (brk m) < lim m"
  shows "addr_of (brk m) \<noteq> 0" "addr_of (Suc (brk m)) \<noteq> 0" "addr_of (brk m) \<noteq> addr_of (Suc (brk m))"
proof -
  have "0 < brk m" "Suc (brk m) < 2 ^ 60" using assms by (auto simp: mem_wf_def static_end_def)
  then show "addr_of (brk m) \<noteq> 0" "addr_of (Suc (brk m)) \<noteq> 0" "addr_of (brk m) \<noteq> addr_of (Suc (brk m))"
    using addr_of_nonzero [of "brk m"] addr_of_nonzero [of "Suc (brk m)"]
      addr_of_inj [of "brk m" "Suc (brk m)"] by simp_all
qed

lemma makeArray_result:
  assumes "mem_wf m" "Suc (brk m) < lim m" "0 \<le> sint len"
  shows "idris2_makeArray len m =
    Inr (addr_of (brk m), array_mem len (replicate (nat (sint len)) (Some 0)) m)"
proof -
  have "sint len < 2 ^ 31" using sint_lt [of len] by simp
  then have n: "c_size (8 * sint len) div 8 = nat (sint len)" "8 * nat (sint len) < 2 ^ 63"
    using assms(3) by auto
  note fresh = fresh_pair [OF assms(1,2)]
  let ?v = "\<lparr>refCounter = 1, tag = NO_TAG, payload = No_payload\<rparr>"
  have "c_malloc_ptrs (nat (sint len)) (alloc_obj ?v m) =
      (addr_of (Suc (brk m)), alloc_blk (Ptrs (replicate (nat (sint len)) None)) (alloc_obj ?v m))"
    using assms(2) n(2) by (simp add: c_malloc_ptrs_def can_alloc_def alloc_blk_def)
  moreover have "set_payload (addr_of (brk m)) ARRAY_TAG (Idris2_Array len (addr_of (Suc (brk m))))
      (alloc_blk (Ptrs (replicate (nat (sint len)) None)) (alloc_obj ?v m)) =
      Inr (array_mem len (replicate (nat (sint len)) None) m)"
    using fresh by (simp add: set_payload_def get_obj_def put_obj_def alloc_blk_def alloc_obj_def array_mem_def)
  moreover have "c_memset_ptrs (addr_of (Suc (brk m))) (nat (sint len))
      (array_mem len (replicate (nat (sint len)) None) m) =
      Inr (array_mem len (replicate (nat (sint len)) (Some 0)) m)"
    using fresh by (simp add: c_memset_ptrs_def get_ptrs_def array_mem_def alloc_blk_def alloc_obj_def)
  ultimately show ?thesis
    using assms(2) n(1) by (simp add: idris2_makeArray_def idris2_newValue_cases [OF assms(1)])
qed

lemma makeArray_ok:
  assumes "rc_ok {} R m" "Suc (brk m) < lim m" "0 \<le> sint len"
  shows "rc_ok {} (add_mset (addr_of (brk m)) R) (array_mem len (replicate (nat (sint len)) (Some 0)) m)"
proof -
  let ?n = "nat (sint len)" and ?p = "addr_of (brk m)" and ?arr = "addr_of (Suc (brk m))"
  let ?v = "\<lparr>refCounter = 1, tag = NO_TAG, payload = No_payload\<rparr>"
  let ?pl = "Idris2_Array len ?arr" and ?ps = "Ptrs (replicate ?n (Some 0))"
  define m1 where "m1 = alloc_obj ?v m"
  define m2 where "m2 = alloc_blk ?ps m1"
  have ok1: "rc_ok {} (add_mset ?p R) m1" using alloc_blank_ok [OF assms(1)] assms(2) by (simp add: m1_def)
  have room: "brk m1 < lim m1" "brk m1 = Suc (brk m)" using assms(2) by (simp_all add: m1_def)
  note ok2 = alloc_blk_ok [OF ok1 room(1), of ?ps, folded m2_def]
  have refs: "refs_of m2 ?pl = replicate ?n 0" by (simp add: m2_def room(2))
  have "rc_ok {} (mset (refs_of m2 ?pl) + add_mset ?p R) m2"
    using ok2(1) unfolding refs mset_replicate rc_ok_zeros .
  moreover have v: "objs m2 ?p = Some ?v" by (simp add: m2_def m1_def)
  moreover have "payload_wf m2 ?pl" using assms(3) by (simp add: m2_def room(2))
  moreover have "own_at m2 a \<inter> own_of ?pl = {}" for a using ok2(2) [of a] room(2) by auto
  ultimately have "rc_ok {} (add_mset ?p R) (put_obj ?p (?v\<lparr>tag := payload_tag ?pl, payload := ?pl\<rparr>) m2)"
    using exchange_ok [of "{}" m2 ?pl "add_mset ?p R" ?p ?v] by simp
  moreover have "put_obj ?p (?v\<lparr>tag := payload_tag ?pl, payload := ?pl\<rparr>) m2 =
      array_mem len (replicate ?n (Some 0)) m"
    by (simp add: put_obj_def m2_def m1_def array_mem_def alloc_blk_def alloc_obj_def)
  ultimately show ?thesis by simp
qed

text \<open>The elements of an array in memory.\<close>

definition array_at :: "addr \<Rightarrow> addr list \<Rightarrow> mem \<Rightarrow> bool" where
  "array_at p xs m \<longleftrightarrow>
     (\<exists>cap arr. get_array p m = Inr (cap, arr) \<and> get_ptrs arr m = Inr (map Some xs))"

lemma get_array_eq:
  "get_array p m = Inr (cap, arr) \<longleftrightarrow>
   p \<noteq> 0 \<and> (\<exists>v. objs m p = Some v \<and> payload v = Idris2_Array cap arr)"
  by (cases "objs m p"; cases "payload (the (objs m p))") (auto simp: get_array_def get_obj_def)

lemma newReference_array:
  assumes "\<And>a. map_option payload (objs m' a) = map_option payload (objs m a)" "blks m' = blks m"
  shows "get_array p m' = Inr ca \<longleftrightarrow> get_array p m = Inr ca" "get_ptrs b m' = get_ptrs b m"
proof -
  have "(\<exists>v. objs m' p = Some v \<and> payload v = pl) \<longleftrightarrow> (\<exists>v. objs m p = Some v \<and> payload v = pl)" for pl
    using assms(1) [of p] by (cases "objs m' p"; cases "objs m p") auto
  then show "get_array p m' = Inr ca \<longleftrightarrow> get_array p m = Inr ca"
    by (cases ca) (simp add: get_array_eq)
  show "get_ptrs b m' = get_ptrs b m" using assms(2) by (simp add: get_ptrs_def)
qed

text \<open>One iteration of the loop that fills a new array.\<close>

lemma fill_step:
  assumes ok: "rc_ok {} (add_mset p R) m" and v: "held_or_unboxed R v"
    and arr: "get_array p m = Inr (cap, arr)" "get_ptrs arr m = Inr ps"
    and k: "k < length ps" "ps ! k = Some 0"
  shows "\<exists>m'. bindr (idris2_newReference v m) (\<lambda>(v', m').
      bindr (get_array p m') (\<lambda>(capacity, arr). store_ptr arr (int k) v' m')) = Inr m' \<and>
    rc_ok {} (add_mset p R) m' \<and> get_array p m' = Inr (cap, arr) \<and>
    get_ptrs arr m' = Inr (ps[k := Some v])"
proof -
  have "held_or_unboxed (add_mset p R) v" using v by (auto simp: held_or_unboxed_def)
  then obtain m1 where m1: "idris2_newReference v m = Inr (v, m1)"
    "rc_ok {} (add_mset v (add_mset p R)) m1" "blks m1 = blks m"
    "\<And>a. map_option payload (objs m1 a) = map_option payload (objs m a)"
    using newReference_root [OF ok] by metis
  have arr1: "get_array p m1 = Inr (cap, arr)" "get_ptrs arr m1 = Inr ps"
    using newReference_array [OF m1(4,3)] arr by simp_all
  then obtain w where w: "objs m1 p = Some w" "payload w = Idris2_Array cap arr" "blks m1 arr = Some (Ptrs ps)"
    by (auto simp: get_array_eq get_ptrs_eq_Inr)
  let ?m2 = "put_ptrs arr (ps[k := Some v]) m1"
  have "rc_ok {} (add_mset (the (ps ! k)) (add_mset p R)) ?m2"
    by (rule array_store_ok [OF m1(2) w(1,2) _ w(3) k(1)]) simp
  then have "rc_ok {} (add_mset p R) ?m2" using k(2) by (simp add: rc_ok_unboxed boxed_def)
  moreover have "get_array p ?m2 = Inr (cap, arr)" "get_ptrs arr ?m2 = Inr (ps[k := Some v])"
    using arr1 w by (auto simp: get_array_eq get_ptrs_eq_Inr)
  moreover have "store_ptr arr (int k) v m1 = Inr ?m2"
    using arr1(2) k(1) by (simp add: store_ptr_def upd_res_def put_blk_def)
  ultimately show ?thesis using m1(1) arr1(1) by auto
qed

text \<open>A new array has the requested length and holds the given value in every slot, each slot with
  a reference of its own: the counters are right, and the caller owns one reference to the array.\<close>

theorem newArray_correct:
  assumes "rc_ok {} R m" "held_or_unboxed R v" "Suc (brk m) < lim m"
    and "idris2_vp_to_Int64 len m = Inr n" "0 \<le> n" "n < 2 ^ 31"
  shows "\<exists>p m'. idris2_Data_IOArray_Prims_prim__newArray len v m = Inr (p, m') \<and>
    rc_ok {} (add_mset p R) m' \<and> array_at p (replicate (nat n) v) m'"
proof -
  let ?len = "word_of_int n :: 32 word" and ?p = "addr_of (brk m)" and ?arr = "addr_of (Suc (brk m))"
  have len: "sint ?len = n" "c_conv Int32 n = n"
    using assms(5,6) by (simp_all add: signed_of_int c_conv_def signed_take_bit_int_eq_self)
  note wf = rc_okD(1) [OF assms(1)]
  define m0 where "m0 = array_mem ?len (replicate (nat n) (Some 0)) m"
  have mk: "idris2_makeArray ?len m = Inr (?p, m0)" "rc_ok {} (add_mset ?p R) m0"
    using makeArray_result [OF wf assms(3), of ?len] makeArray_ok [OF assms(1,3), of ?len] assms(5)
    by (simp_all add: m0_def len)
  have arr0: "get_array ?p m0 = Inr (?len, ?arr)" "get_ptrs ?arr m0 = Inr (replicate (nat n) (Some 0))"
    using fresh_pair [OF wf assms(3)]
    by (simp_all add: m0_def array_mem_def get_array_eq get_ptrs_eq_Inr)
  let ?ps = "\<lambda>k. replicate k (Some v) @ replicate (nat n - k) (Some 0)"
  let ?P = "\<lambda>k s. rc_ok {} (add_mset ?p R) s \<and> get_array ?p s = Inr (?len, ?arr) \<and>
    get_ptrs ?arr s = Inr (?ps k)"
  have "\<exists>m'. eachr (\<lambda>i m. bindr (idris2_newReference v m) (\<lambda>(v', m').
      bindr (get_array ?p m') (\<lambda>(capacity, arr). store_ptr arr (int i) v' m'))) [0..<nat n] m0 = Inr m' \<and>
    ?P (nat n) m'"
  proof (rule eachr_invariant [where P = ?P])
    show "?P 0 m0" using mk(2) arr0 by simp
  next
    fix k s assume k: "k < nat n" and P: "?P k s"
    obtain d where d: "nat n - k = Suc d" "nat n - Suc k = d" using k by (cases "nat n - k") auto
    have "(?ps k)[k := Some v] = ?ps (Suc k)"
      unfolding d using replicate_append_same [of k "Some v"] by (simp add: list_update_append)
    with fill_step [of ?p R s v ?len ?arr "?ps k" k] P k assms(2)
    show "\<exists>s'. bindr (idris2_newReference v s) (\<lambda>(v', m').
        bindr (get_array ?p m') (\<lambda>(capacity, arr). store_ptr arr (int k) v' m')) = Inr s' \<and> ?P (Suc k) s'"
      by (auto simp: nth_append)
  qed
  then show ?thesis
    using assms(4) mk(1) len(2)
    by (auto simp: idris2_Data_IOArray_Prims_prim__newArray_def array_at_def)
qed

text \<open>
  \<open>arraySet\<close> drops the old element while the slot still points to it, so in between the array holds a
  reference that is not counted. The release does not look at the array, because the caller keeps it
  alive; it does the same as in the memory where the slot has been cleared.
\<close>

lemma newReference_put_blk:
  "idris2_newReference p m = Inr (q, m') \<Longrightarrow> idris2_newReference p (put_blk b x m) = Inr (q, put_blk b x m')"
  by (cases "get_obj p m")
    (auto simp: idris2_newReference_def put_obj_def put_blk_sel put_blk_def get_obj_def split: if_splits option.splits)

lemma held_array_block:
  assumes ok: "rc_ok {} R m'" and sh: "shrinks {} m m'" and a: "a \<in># R" "boxed a" "get_array a m = Inr (cap, arr)"
  shows "get_array a m' = Inr (cap, arr)" "blks m' arr = blks m arr" "blks m' arr \<noteq> None"
proof -
  obtain v where v: "objs m a = Some v" "payload v = Idris2_Array cap arr" "a \<noteq> 0"
    using a(3) by (auto simp: get_array_eq)
  obtain v' where v': "objs m' a = Some v'" "payload v' = Idris2_Array cap arr"
    using shrinks_root [OF ok sh a(1,2) v(1)] v(2) by metis
  then show "get_array a m' = Inr (cap, arr)" using v(3) by (simp add: get_array_eq)
  have "obj_wf m' v'" using rc_okD(3) [OF ok] v'(1) by (auto simp: objs_wf_def)
  then show "blks m' arr \<noteq> None" using v'(2) by (auto simp: obj_wf_def)
  then show "blks m' arr = blks m arr" using sh by (auto simp: shrinks_def)
qed

text \<open>The values of boxed integers the caller holds survive.\<close>

definition keeps_held :: "addr multiset \<Rightarrow> mem \<Rightarrow> mem \<Rightarrow> bool" where
  "keeps_held R m m' \<longleftrightarrow> (\<forall>p. p \<in># R \<and> objs m p \<noteq> None \<longrightarrow>
     map_option payload (objs m' p) = map_option payload (objs m p))"

lemma keeps_held_Int64:
  assumes "keeps_held R m m'" "p \<in># R" "idris2_vp_to_Int64 p m = Inr i"
  shows "idris2_vp_to_Int64 p m' = Inr i"
proof -
  obtain v where v: "p \<noteq> 0" "objs m p = Some v"
    using assms(3) by (auto simp: idris2_vp_to_Int64_def boxed_64_def bindr_eq_Inr get_obj_eq_Inr)
  then obtain v' where "objs m' p = Some v'" "payload v' = payload v"
    using assms(1,2) unfolding keeps_held_def by (cases "objs m' p") auto
  with v assms(3) show ?thesis by (simp add: idris2_vp_to_Int64_def boxed_64_def get_obj_def)
qed

lemma keeps_held_shrinks:
  assumes "rc_ok {} R m'" "shrinks {} m m'" "mem_wf m"
  shows "keeps_held R m m'"
  unfolding keeps_held_def
proof (intro allI impI)
  fix p assume p: "p \<in># R \<and> objs m p \<noteq> None"
  then obtain v where v: "objs m p = Some v" by auto
  from shrinks_root [OF assms(1,2) _ live_boxed [OF assms(3) v] v] p
  show "map_option payload (objs m' p) = map_option payload (objs m p)" using v by force
qed

lemma arrayGet_ok:
  assumes "rc_ok {} R m" "a \<in># R" "array_at a xs m" "idris2_vp_to_Int64 idx m = Inr i"
    and "0 \<le> i" "i < int (length xs)"
  shows "\<exists>m'. idris2_Data_IOArray_Prims_prim__arrayGet a idx m = Inr (xs ! nat i, m') \<and>
    rc_ok {} (add_mset (xs ! nat i) R) m' \<and> array_at a xs m' \<and> keeps_held R m m' \<and> brk m' = brk m"
proof -
  obtain cap arr v where arr: "get_array a m = Inr (cap, arr)" "get_ptrs arr m = Inr (map Some xs)"
    "objs m a = Some v" "payload v = Idris2_Array cap arr"
    using assms(3) by (auto simp: array_at_def get_array_eq)
  then have "refs_of m (payload v) = xs" by (simp add: get_ptrs_eq_Inr comp_def)
  then have "xs ! nat i \<in># held {} R m"
    using held_field [OF assms(1) arr(3)] assms(5,6) by simp
  then obtain m' where m': "idris2_newReference (xs ! nat i) m = Inr (xs ! nat i, m')"
    "rc_ok {} (add_mset (xs ! nat i) R) m'" "blks m' = blks m" "brk m' = brk m"
    "\<And>a. map_option payload (objs m' a) = map_option payload (objs m a)"
    using newReference_ok [OF assms(1), of "xs ! nat i"] by metis
  have "load_ptr arr i m = Inr (xs ! nat i)"
    using arr(2) assms(5,6) by (simp add: load_ptr_def nth_res_def nat_less_iff)
  then show ?thesis
    using arr(1) assms(3,4) m' newReference_array [OF m'(5,3)]
    by (simp add: idris2_Data_IOArray_Prims_prim__arrayGet_def array_at_def keeps_held_def)
qed

lemma Int64_put_blk [simp]: "idris2_vp_to_Int64 p (put_blk b x m) = idris2_vp_to_Int64 p m"
  by (simp add: idris2_vp_to_Int64_def boxed_64_def)

lemma array_release_slot:
  assumes ok: "rc_ok {} R m" and a: "a \<in># R" "get_array a m = Inr (cap, arr)"
    and ps: "blks m arr = Some (Ptrs ps)" "k < length ps" and fuel: "brk m \<le> fuel"
  obtains m1 where "idris2_removeReference fuel code (the (ps ! k)) m = Inr (put_ptrs arr ps m1)" "rc_ok {} R m1"
    "get_array a m1 = Inr (cap, arr)" "blks m1 arr = Some (Ptrs (ps[k := Some 0]))" "keeps_held R m m1" "brk m1 = brk m"
proof -
  obtain w where w: "objs m a = Some w" "payload w = Idris2_Array cap arr"
    using a(2) by (auto simp: get_array_eq)
  have bx: "boxed a" by (rule live_boxed [OF rc_okD(1) [OF ok] w(1)])
  define m0 where "m0 = put_ptrs arr (ps[k := Some 0]) m"
  have restore: "put_ptrs arr ps m0 = m"
    using ps(1) by (simp add: m0_def put_blk_def map_upd_triv)
  have "rc_ok {} (add_mset (the (ps ! k)) R) m0"
    using array_store_ok [of "{}" 0 R m, OF _ w _ ps] ok by (simp add: m0_def rc_ok_unboxed boxed_def)
  then obtain m1 where m1: "idris2_removeReference fuel code (the (ps ! k)) m0 = Inr m1" "rc_ok {} R m1" "shrinks {} m0 m1"
    "\<And>b x. blks m1 b \<noteq> None \<Longrightarrow> idris2_removeReference fuel code (the (ps ! k)) (put_blk b x m0) = Inr (put_blk b x m1)"
    by (rule removeReference_root [where fuel = fuel and code = code]) (use fuel in \<open>simp_all add: m0_def\<close>)
  have "get_array a m0 = Inr (cap, arr)" using a(2) by (simp add: m0_def)
  note blk = held_array_block [OF m1(2,3) a(1) bx this]
  have "idris2_removeReference fuel code (the (ps ! k)) m = Inr (put_ptrs arr ps m1)"
    using m1(4) [OF blk(3), of "Ptrs ps"] by (simp add: restore)
  moreover have "keeps_held R m m1"
    using keeps_held_shrinks [OF m1(2,3)] mem_wf_put_blk [OF rc_okD(1) [OF ok]] ps(1)
    by (simp add: keeps_held_def m0_def)
  moreover have "brk m1 = brk m" using m1(3) by (simp add: shrinks_def m0_def)
  ultimately show thesis using that m1(2) blk(1,2) by (simp add: m0_def)
qed

lemma arraySet_ok:
  assumes ok: "rc_ok {} R m" and a: "a \<in># R" "array_at a xs m" and idx: "idx \<in># R" "idris2_vp_to_Int64 idx m = Inr i"
    and i: "0 \<le> i" "i < int (length xs)" and v: "held_or_unboxed R v" and fuel: "brk m \<le> fuel"
  shows "\<exists>m'. idris2_Data_IOArray_Prims_prim__arraySet fuel code a idx v m = Inr (0, m') \<and> rc_ok {} R m' \<and>
    array_at a (xs[nat i := v]) m' \<and> keeps_held R m m' \<and> brk m' = brk m"
proof -
  obtain cap arr where arr: "get_array a m = Inr (cap, arr)" "get_ptrs arr m = Inr (map Some xs)"
    using a(2) by (auto simp: array_at_def)
  then have blk: "arr \<noteq> 0" "blks m arr = Some (Ptrs (map Some xs))" by (auto simp: get_ptrs_eq_Inr)
  have ni: "nat i < length (map Some xs)" using i by simp
  obtain m1 where m1: "idris2_removeReference fuel code (xs ! nat i) m = Inr (put_ptrs arr (map Some xs) m1)"
    "rc_ok {} R m1" "get_array a m1 = Inr (cap, arr)" "blks m1 arr = Some (Ptrs ((map Some xs)[nat i := Some 0]))"
    "keeps_held R m m1" "brk m1 = brk m"
    using array_release_slot [OF ok a(1) arr(1) blk(2) ni fuel, of code] ni by auto
  obtain m2 where m2: "idris2_newReference v m1 = Inr (v, m2)" "rc_ok {} (add_mset v R) m2" "blks m2 = blks m1"
    "brk m2 = brk m1" "\<And>a. map_option payload (objs m2 a) = map_option payload (objs m1 a)"
    using newReference_root [OF m1(2) v] by metis
  have keep: "keeps_held R m m2" using m1(5) m2(5) by (simp add: keeps_held_def)
  have arr2: "get_array a m2 = Inr (cap, arr)" using newReference_array(1) [OF m2(5,3)] m1(3) by simp
  then obtain w2 where w2: "objs m2 a = Some w2" "payload w2 = Idris2_Array cap arr" by (auto simp: get_array_eq)
  let ?m3 = "put_ptrs arr ((map Some xs)[nat i := Some v]) m2"
  have "rc_ok {} R ?m3"
    using array_store_ok [of "{}" v R m2, OF m2(2) w2, of "(map Some xs)[nat i := Some 0]" "nat i"] m1(4) m2(3) ni
    by (simp add: rc_ok_unboxed boxed_def)
  moreover have "array_at a (xs[nat i := v]) ?m3"
    using arr2 blk(1) by (auto simp: array_at_def get_ptrs_eq_Inr map_update)
  moreover have "load_ptr arr i m = Inr (xs ! nat i)"
    using arr(2) i by (simp add: load_ptr_def nth_res_def nat_less_iff)
  moreover have "store_ptr arr i v (put_ptrs arr (map Some xs) m2) = Inr ?m3"
    using blk(1) i by (simp add: store_ptr_def get_ptrs_def upd_res_def put_blk_def)
  ultimately show ?thesis
    using arr(1) idx(2) m1(1) newReference_put_blk [OF m2(1)] arr2 keeps_held_Int64 [OF keep idx] keep m1(6) m2(4)
    by (simp add: idris2_Data_IOArray_Prims_prim__arraySet_def keeps_held_def)
qed

section \<open>Arrays are mutable lists\<close>

text \<open>A client of an array: a sequence of reads and writes. Run on the operations of an array, it returns
  the values read and the state; run on a list, with \<open>val\<close> the value of an index, the values read and
  the list.\<close>

datatype ('i, 'a) array_op = Array_get 'i | Array_set 'i 'a

primrec array_run :: "('i \<Rightarrow> 's \<Rightarrow> ('a \<times> 's) res) \<Rightarrow> ('i \<Rightarrow> 'a \<Rightarrow> 's \<Rightarrow> 's res) \<Rightarrow> ('i, 'a) array_op list \<Rightarrow>
    's \<Rightarrow> ('a list \<times> 's) res" where
  "array_run get put [] s = Inr ([], s)"
| "array_run get put (p # ps) s = (case p of
     Array_get i \<Rightarrow> bindr (get i s) (\<lambda>(x, s1). bindr (array_run get put ps s1) (\<lambda>(ys, s2). Inr (x # ys, s2)))
   | Array_set i x \<Rightarrow> bindr (put i x s) (array_run get put ps))"

primrec list_run :: "('i \<Rightarrow> nat) \<Rightarrow> ('i, 'a) array_op list \<Rightarrow> 'a list \<Rightarrow> 'a list \<times> 'a list" where
  "list_run val [] xs = ([], xs)"
| "list_run val (p # ps) xs = (case p of
     Array_get i \<Rightarrow> (let (ys, zs) = list_run val ps xs in (xs ! val i # ys, zs))
   | Array_set i x \<Rightarrow> list_run val ps (xs[val i := x]))"

primrec op_ok :: "('i \<Rightarrow> bool) \<Rightarrow> ('a \<Rightarrow> bool) \<Rightarrow> ('i, 'a) array_op \<Rightarrow> bool" where
  "op_ok index elem (Array_get i) \<longleftrightarrow> index i"
| "op_ok index elem (Array_set i x) \<longleftrightarrow> index i \<and> elem x"

text \<open>
  What a client relies on. \<open>repr xs Q s\<close>: state \<open>s\<close> represents the list \<open>xs\<close>, and the client owns the
  references \<open>Q\<close> it got from reads.
\<close>

locale mutable_array =
  fixes repr :: "'a list \<Rightarrow> 'a multiset \<Rightarrow> 's \<Rightarrow> bool" and index :: "'i \<Rightarrow> bool" and elem :: "'a \<Rightarrow> bool"
    and val :: "'i \<Rightarrow> nat"
    and get :: "'i \<Rightarrow> 's \<Rightarrow> ('a \<times> 's) res" and put :: "'i \<Rightarrow> 'a \<Rightarrow> 's \<Rightarrow> 's res"
  assumes get_ok: "repr xs Q s \<Longrightarrow> index i \<Longrightarrow> \<exists>s'. get i s = Inr (xs ! val i, s') \<and> repr xs (add_mset (xs ! val i) Q) s'"
    and put_ok: "repr xs Q s \<Longrightarrow> index i \<Longrightarrow> elem x \<Longrightarrow> \<exists>s'. put i x s = Inr s' \<and> repr (xs[val i := x]) Q s'"
begin

lemma run_refines:
  assumes "repr xs Q s" "\<forall>p\<in>set ps. op_ok index elem p"
  shows "\<exists>s'. array_run get put ps s = Inr (fst (list_run val ps xs), s') \<and>
    repr (snd (list_run val ps xs)) (mset (fst (list_run val ps xs)) + Q) s'"
  using assms
proof (induction ps arbitrary: xs Q s)
  case Nil
  then show ?case by simp
next
  case (Cons p ps)
  show ?case
  proof (cases p)
    case (Array_get i)
    then obtain s1 where s1: "get i s = Inr (xs ! val i, s1)" "repr xs (add_mset (xs ! val i) Q) s1"
      using get_ok [OF Cons.prems(1)] Cons.prems(2) by auto
    obtain s2 where "array_run get put ps s1 = Inr (fst (list_run val ps xs), s2)"
      "repr (snd (list_run val ps xs)) (mset (fst (list_run val ps xs)) + add_mset (xs ! val i) Q) s2"
      using Cons.IH [OF s1(2)] Cons.prems(2) by auto
    then show ?thesis using s1(1) Array_get by (simp add: case_prod_unfold Let_def)
  next
    case (Array_set i x)
    then obtain s1 where "put i x s = Inr s1" "repr (xs[val i := x]) Q s1"
      using put_ok [OF Cons.prems(1), of i x] Cons.prems(2) by auto
    with Cons.IH [of "xs[val i := x]" Q s1] Cons.prems(2) Array_set show ?thesis by simp
  qed
qed

end

text \<open>The array at \<open>a\<close>, for a client that holds the references \<open>R\<close>, among them boxed indices \<open>I\<close>.\<close>

definition array_repr :: "addr \<Rightarrow> addr multiset \<Rightarrow> addr set \<Rightarrow> (addr \<Rightarrow> nat) \<Rightarrow> nat \<Rightarrow>
    addr list \<Rightarrow> addr multiset \<Rightarrow> mem \<Rightarrow> bool" where
  "array_repr a R I val fuel xs Q m \<longleftrightarrow> rc_ok {} (Q + R) m \<and> a \<in># R \<and> array_at a xs m \<and> brk m \<le> fuel \<and>
     (\<forall>i\<in>I. i \<in># R \<and> val i < length xs \<and> idris2_vp_to_Int64 i m = Inr (int (val i)))"

interpretation arr: mutable_array "array_repr a R I val fuel" "\<lambda>i. i \<in> I" "held_or_unboxed R" val
    "idris2_Data_IOArray_Prims_prim__arrayGet a"
    "\<lambda>i x m. bindr (idris2_Data_IOArray_Prims_prim__arraySet fuel code a i x m) (\<lambda>(_, m'). Inr m')"
  for a R I val fuel code
proof
  fix xs Q m i
  assume "array_repr a R I val fuel xs Q m" "i \<in> I"
  then have r: "rc_ok {} (Q + R) m" "a \<in># Q + R" "array_at a xs m" "idris2_vp_to_Int64 i m = Inr (int (val i))"
    "0 \<le> int (val i)" "int (val i) < int (length xs)" "brk m \<le> fuel"
    and idx: "\<forall>j\<in>I. j \<in># R \<and> val j < length xs \<and> idris2_vp_to_Int64 j m = Inr (int (val j))" "a \<in># R"
    by (auto simp: array_repr_def)
  obtain m' where m': "idris2_Data_IOArray_Prims_prim__arrayGet a i m = Inr (xs ! val i, m')"
    "rc_ok {} (add_mset (xs ! val i) (Q + R)) m'" "array_at a xs m'" "keeps_held (Q + R) m m'" "brk m' = brk m"
    using arrayGet_ok [OF r(1-6)] by auto
  then show "\<exists>m'. idris2_Data_IOArray_Prims_prim__arrayGet a i m = Inr (xs ! val i, m') \<and>
      array_repr a R I val fuel xs (add_mset (xs ! val i) Q) m'"
    using idx r(7) keeps_held_Int64 [OF m'(4)] by (auto simp: array_repr_def)
  fix x assume "held_or_unboxed R x"
  then have x: "held_or_unboxed (Q + R) x" by (auto simp: held_or_unboxed_def)
  have i: "i \<in># Q + R" using idx(1) \<open>i \<in> I\<close> by simp
  obtain m' where m': "idris2_Data_IOArray_Prims_prim__arraySet fuel code a i x m = Inr (0, m')" "rc_ok {} (Q + R) m'"
    "array_at a (xs[val i := x]) m'" "keeps_held (Q + R) m m'" "brk m' = brk m"
    using arraySet_ok [OF r(1-3) i r(4-6) x r(7), of code] by auto
  then show "\<exists>m'. bindr (idris2_Data_IOArray_Prims_prim__arraySet fuel code a i x m) (\<lambda>(_, m'). Inr m') = Inr m' \<and>
      array_repr a R I val fuel (xs[val i := x]) Q m'"
    using idx r(7) keeps_held_Int64 [OF m'(4)] by (auto simp: array_repr_def)
qed

text \<open>C11. Arrays refine lists. Any sequence of \<open>arrayGet\<close> and \<open>arraySet\<close> calls on an array the caller holds,
  with indices in range and values the caller holds, returns the values that the same reads and
  updates return on a list, and leaves the array with the elements of the updated list. No call meets
  undefined behaviour, although \<open>arraySet\<close> releases the old element while the slot still refers to it;
  at the end all counters are right, and the caller owns one more reference to each value read.\<close>

theorem array_ops_refine_list:
  assumes "rc_ok {} R m" "a \<in># R" "array_at a xs m" "brk m \<le> fuel"
    and "\<forall>i\<in>I. i \<in># R \<and> val i < length xs \<and> idris2_vp_to_Int64 i m = Inr (int (val i))"
    and "\<forall>p\<in>set ps. op_ok (\<lambda>i. i \<in> I) (held_or_unboxed R) p"
  shows "\<exists>m'. array_run (idris2_Data_IOArray_Prims_prim__arrayGet a)
        (\<lambda>i x m. bindr (idris2_Data_IOArray_Prims_prim__arraySet fuel code a i x m) (\<lambda>(_, m'). Inr m')) ps m =
      Inr (fst (list_run val ps xs), m') \<and>
    rc_ok {} (mset (fst (list_run val ps xs)) + R) m' \<and> array_at a (snd (list_run val ps xs)) m'"
proof -
  have "array_repr a R I val fuel xs {#} m" using assms(1-5) by (simp add: array_repr_def)
  from arr.run_refines [OF this assms(6), of code] show ?thesis by (auto simp: array_repr_def)
qed

text \<open>The caller may count its uses of an immortal object as references or not.\<close>

lemma rc_ok_immortal:
  assumes "rc_ok Z R m" "objs m p = Some v" "immortal v" "p \<notin> Z"
  shows "rc_ok Z (add_mset p R) m"
  using assms unfolding rc_ok_def counts_ok_def by auto

lemma example_array:
  defines "m \<equiv> array_mem 2 (replicate 2 (Some 0)) (init_mem 1000)"
  shows "array_at (addr_of 320) [0, 0] m" "idris2_vp_to_Int64 (idris2_predefined_Int64 1) m = Inr 1"
    "rc_ok {} {#addr_of 320, idris2_predefined_Int64 1#} m"
proof -
  have "addr_of 320 \<noteq> 0" "addr_of 321 \<noteq> 0" by (simp_all add: addr_of_nonzero)
  then show "array_at (addr_of 320) [0, 0] m"
    by (simp add: m_def array_at_def array_mem_def get_array_eq get_ptrs_eq_Inr numeral_2_eq_2)
  have wf: "rt_wf m" by (simp add: m_def array_mem_def rt_wf_alloc_blk rt_wf_alloc_obj rt_wf_example)
  then show "idris2_vp_to_Int64 (idris2_predefined_Int64 1) m = Inr 1"
    using predefined_Int64_read [of m 1] by simp
  have "objs m (idris2_predefined_Int64 1) = Some (IDRIS2_STOCKVAL INT64_TAG (Idris2_Int64 1))"
    using wf by (simp add: rt_wf_def statics_ok_def idris2_predefined_Int64_def static_obj_def)
  moreover have "rc_ok {} {#addr_of 320#} m"
    using makeArray_ok [of "{#}" "init_mem 1000" 2] by (simp add: m_def rc_ok_init static_end_def)
  ultimately show "rc_ok {} {#addr_of 320, idris2_predefined_Int64 1#} m"
    using rc_ok_immortal [of "{}" "{#addr_of 320#}" m "idris2_predefined_Int64 1"]
    by (simp add: immortal_def IDRIS2_STOCKVAL_def add_mset_commute)
qed

theorem array_ops_refine_list_witness:
  "let m = array_mem 2 (replicate 2 (Some 0)) (init_mem 1000); a = addr_of 320; i = idris2_predefined_Int64 1;
     ps = [Array_set i a, Array_get i] in
   \<exists>m'. array_run (idris2_Data_IOArray_Prims_prim__arrayGet a)
        (\<lambda>i x m. bindr (idris2_Data_IOArray_Prims_prim__arraySet 322 (\<lambda>f xs m. Inl (Exit 1)) a i x m) (\<lambda>(_, m'). Inr m')) ps m =
      Inr (fst (list_run (\<lambda>_. 1) ps [0, 0]), m') \<and>
    rc_ok {} (mset (fst (list_run (\<lambda>_. 1) ps [0, 0])) + {#a, i#}) m' \<and>
    array_at a (snd (list_run (\<lambda>_. 1) ps [0, 0])) m'"
  unfolding Let_def
proof (rule array_ops_refine_list [where I = "{idris2_predefined_Int64 1}"])
  let ?m = "array_mem 2 (replicate 2 (Some 0)) (init_mem 1000)"
  show "rc_ok {} {#addr_of 320, idris2_predefined_Int64 1#} ?m"
    by (rule example_array(3))
  show "array_at (addr_of 320) [0, 0] ?m" by (rule example_array(1))
  show "\<forall>i\<in>{idris2_predefined_Int64 1}. i \<in># {#addr_of 320, idris2_predefined_Int64 1#} \<and> 1 < length [0 :: addr, 0] \<and>
      idris2_vp_to_Int64 i ?m = Inr (int 1)"
    using example_array(2) by simp
qed (simp_all add: array_mem_def held_or_unboxed_def static_end_def)

theorem newArray_correct_witness:
  "\<exists>p m'. idris2_Data_IOArray_Prims_prim__newArray (idris2_predefined_Int64 3) (idris2_mkChar 65) (init_mem 1000) =
      Inr (p, m') \<and> rc_ok {} (add_mset p {#}) m' \<and> array_at p (replicate (nat 3) (idris2_mkChar 65)) m'"
  by (rule newArray_correct)
    (simp_all add: rc_ok_init static_end_def held_or_unboxed_def boxed_def idris2_mkChar_def mk_is_unboxed
      rt_wf_example predefined_Int64_read)

end
