(* ===== verification/Runtime_Correct.thy ===== *)
theory Runtime_Correct
  imports Array_Correct
begin

text \<open>
  Correctness of the closure runtime: applying a closure to an argument extends it without touching
  the counters of anything else, the trampoline returns only values that need no further evaluation,
  and its result does not depend on the fuel.
\<close>

section \<open>Extending a closure\<close>

definition new_closure :: "addr \<Rightarrow> 8 word \<Rightarrow> 8 word \<Rightarrow> addr option list \<Rightarrow> Idris2_Value" where
  "new_closure f ar fl args = \<lparr>refCounter = 1, tag = CLOSURE_TAG, payload = Idris2_Closure f ar fl args\<rparr>"

lemma mkClosure_result:
  assumes "mem_wf m" "brk m < lim m"
  shows "idris2_mkClosure f ar fl m =
    Inr (addr_of (brk m), alloc_obj (new_closure f ar fl (replicate (unat fl) None)) m)"
proof -
  have "24 + 8 * unat fl < 2 ^ 62" by (rule less_trans [of _ "24 + 8 * 256"]) (use unsigned_less [of fl] in simp_all)
  then show ?thesis
    using assms by (simp add: idris2_mkClosure_def new_tagged_cases new_closure_def)
qed

lemma new_closure_fields:
  assumes "mem_wf m"
  shows "get_args (addr_of (brk m)) (alloc_obj (new_closure f ar fl args) m) = Inr args"
    "set_args (addr_of (brk m)) args' (alloc_obj (new_closure f ar fl args) m) =
      Inr (alloc_obj (new_closure f ar fl args') m)"
    "i < length args \<Longrightarrow> set_arg (addr_of (brk m)) (int i) x (alloc_obj (new_closure f ar fl args) m) =
      Inr (alloc_obj (new_closure f ar fl (args[i := Some x])) m)"
proof -
  show 1: "get_args (addr_of (brk m)) (alloc_obj (new_closure f ar fl args) m) = Inr args" for args
    using mem_wf_fresh(3) [OF assms] by (simp add: get_args_def get_obj_def new_closure_def)
  show 2: "set_args (addr_of (brk m)) args' (alloc_obj (new_closure f ar fl args) m) =
      Inr (alloc_obj (new_closure f ar fl args') m)" for args args'
    using mem_wf_fresh(3) [OF assms]
    by (simp add: set_args_def get_obj_def new_closure_def put_obj_def alloc_obj_def)
  show "set_arg (addr_of (brk m)) (int i) x (alloc_obj (new_closure f ar fl args) m) =
      Inr (alloc_obj (new_closure f ar fl (args[i := Some x])) m)" if "i < length args"
    using that by (simp add: set_arg_def 1 2 upd_res_def)
qed

lemma get_closure_eq:
  "get_closure p m = Inr (f, ar, fl, args) \<longleftrightarrow>
   p \<noteq> 0 \<and> (\<exists>v. objs m p = Some v \<and> payload v = Idris2_Closure f ar fl args)"
  by (cases "objs m p"; cases "payload (the (objs m p))") (auto simp: get_closure_def get_obj_def)

lemma new_closure_ok:
  assumes "rc_ok Z (mset xs + R) m" "brk m < lim m" "length xs = unat fl"
  shows "rc_ok Z (add_mset (addr_of (brk m)) R) (alloc_obj (new_closure f ar fl (map Some xs)) m)"
  using alloc_ok [of Z m "Idris2_Closure f ar fl (map Some xs)" R] assms
  by (simp add: new_closure_def comp_def)

text \<open>The loop over the arguments of a shared closure: it takes one more reference to each and stores it
  in the new closure.\<close>

lemma copy_args_loop:
  assumes ok: "rc_ok {} R m" and c: "objs m c = Some v" "payload v = Idris2_Closure f ar fl (map Some xs)"
    "c \<notin> set xs" and n: "length xs < n" and nc: "nc = addr_of (brk m)" and k: "k \<le> length xs"
  shows "\<exists>mk. eachr (\<lambda>i s. bindr (get_arg c (int i) s) (\<lambda>a. bindr (idris2_newReference a s) (\<lambda>(a', s').
        set_arg nc (int i) a' s'))) [0..<k] (alloc_obj (new_closure f ar fl' (replicate n None)) m) =
      Inr (alloc_obj (new_closure f ar fl' (map Some (take k xs) @ replicate (n - k) None)) mk) \<and>
    rc_ok {} (mset (take k xs) + R) mk \<and> objs mk c = Some v \<and> brk mk = brk m \<and> lim mk = lim m"
  using k
proof (induction k)
  case 0
  then show ?case using ok c by auto
next
  case (Suc k)
  let ?body = "\<lambda>i s. bindr (get_arg c (int i) s) (\<lambda>a. bindr (idris2_newReference a s) (\<lambda>(a', s').
    set_arg nc (int i) a' s'))"
  let ?w = "\<lambda>k. new_closure f ar fl' (map Some (take k xs) @ replicate (n - k) None)"
  let ?x = "xs ! k"
  obtain mk where mk: "eachr ?body [0..<k] (alloc_obj (new_closure f ar fl' (replicate n None)) m) =
      Inr (alloc_obj (?w k) mk)" "rc_ok {} (mset (take k xs) + R) mk" "objs mk c = Some v"
    "brk mk = brk m" "lim mk = lim m"
    using Suc by auto
  have kx: "k < length xs" using Suc.prems by simp
  note wf = rc_okD(1) [OF mk(2)]
  have "c \<noteq> addr_of (brk mk)" "c \<noteq> 0" using mem_wf_live [OF wf, of c] mk(3) by auto
  then have arg: "get_arg c (int k) (alloc_obj (?w k) mk) = Inr ?x"
    using mk(3) c(2) kx by (simp add: get_arg_def get_args_def nth_res_def)
  have "?x \<in># held {} (mset (take k xs) + R) mk"
    using held_field [OF mk(2,3)] c(2) kx by (simp add: comp_def)
  note x = disjI2 [OF this]
  obtain m1 where m1: "idris2_newReference ?x mk = Inr (?x, m1)"
    "rc_ok {} (add_mset ?x (mset (take k xs) + R)) m1" "brk m1 = brk mk" "lim m1 = lim mk"
    "\<And>a. a \<noteq> ?x \<Longrightarrow> objs m1 a = objs mk a"
    by (rule newReference_ok [OF mk(2) x]) (rule that, assumption+)
  have "n - k = Suc (n - Suc k)" using kx n by simp
  then have "(map Some (take k xs) @ replicate (n - k) None)[k := Some ?x] =
      map Some (take (Suc k) xs) @ replicate (n - Suc k) None"
    using kx by (simp add: take_Suc_conv_app_nth list_update_append)
  then have "set_arg nc (int k) ?x (alloc_obj (?w k) m1) = Inr (alloc_obj (?w (Suc k)) m1)"
    using new_closure_fields(3) [OF rc_okD(1) [OF m1(2)], of k] kx n m1(3) mk(4) nc by simp
  then have "?body k (alloc_obj (?w k) mk) = Inr (alloc_obj (?w (Suc k)) m1)"
    using arg newReference_alloc [OF wf m1(1)] by simp
  moreover have "objs m1 c = Some v" using m1(5) [of c] mk(3) c(3) nth_mem [OF kx] by fastforce
  ultimately show ?case
    using mk m1 kx by (auto simp: eachr_snoc take_Suc_conv_app_nth)
qed

lemma drop_closure_ok:
  assumes ok: "rc_ok {} (add_mset c R) m" and v: "objs m c = Some v" "\<not> immortal v" "refCounter v \<noteq> 1"
  shows "drop_closure c m = Inr (put_obj c (v\<lparr>refCounter := refCounter v - 1\<rparr>) m) \<and>
    rc_ok {} R (put_obj c (v\<lparr>refCounter := refCounter v - 1\<rparr>) m)"
proof -
  have "c \<noteq> 0" using mem_wf_live [OF rc_okD(1) [OF ok], of c] v by auto
  then show ?thesis
    using v drop_shared [OF ok v(1) _ v(2,3)] by (simp add: drop_closure_def idris2_isUnique_def)
qed

text \<open>The two ways the arguments reach the new closure \<open>n\<close>: moved out of a closure held once, or copied
  with a further reference each.\<close>

definition copied_args :: "addr \<Rightarrow> addr \<Rightarrow> 8 word \<Rightarrow> addr option list \<Rightarrow> mem \<Rightarrow> mem res" where
  "copied_args c n fl args m =
     bindr (get_obj c m) (\<lambda>v.
       if refCounter v \<le> 1
       then bindr (get_args n m) (\<lambda>new.
         if unat fl \<le> length args \<and> unat fl \<le> length new
         then set_args n (take (unat fl) args @ drop (unat fl) new) m
         else Inl (Undefined Out_of_bounds))
       else eachr (\<lambda>i s. bindr (get_arg c (int i) s) (\<lambda>a. bindr (idris2_newReference a s) (\<lambda>(a', s').
         set_arg n (int i) a' s'))) [0..<unat fl] m)"

lemma tailcall_steps:
  assumes "get_closure c m = Inr (f, ar, fl, args)" "idris2_mkClosure f ar (fl + 1) m = Inr (n, m1)"
    and "objs m1 c = Some v" "c \<noteq> 0"
  shows "idris2_tailcall_apply_closure c x m =
    bindr (copied_args c n fl args m1) (\<lambda>m2. bindr (set_arg n (uint fl) x m2) (\<lambda>m3.
    bindr (drop_closure c m3) (\<lambda>m4. Inr (n, m4))))"
  using assms by (simp add: idris2_tailcall_apply_closure_def copied_args_def)

lemma one_blank:
  "replicate (Suc 0) (None :: addr option) = [None]" "drop k (replicate (Suc k) (None :: addr option)) = [None]"
proof -
  show one: "replicate (Suc 0) (None :: addr option) = [None]" by simp
  then show "drop k (replicate (Suc k) (None :: addr option)) = [None]" by (simp only: drop_replicate) simp
qed

text \<open>A closure held once: its arguments move and it is freed.\<close>

lemma move_args_ok:
  assumes ok: "rc_ok {} (add_mset c (add_mset x R)) m"
    and c: "objs m c = Some v" "payload v = Idris2_Closure f ar fl (map Some xs)" "\<not> immortal v" "refCounter v = 1"
    and n: "n = addr_of (brk m)" "brk m < lim m" "length xs = unat fl" "unat (fl + 1) = Suc (unat fl)"
  shows "copied_args c n fl (map Some xs) (alloc_obj (new_closure f ar (fl + 1) (replicate (Suc (unat fl)) None)) m) =
      Inr (alloc_obj (new_closure f ar (fl + 1) (map Some xs @ [None])) m) \<and>
    (let m3 = alloc_obj (new_closure f ar (fl + 1) (map Some (xs @ [x]))) m in
      \<exists>m4. drop_closure c m3 = Inr m4 \<and> rc_ok {} (add_mset n R) m4 \<and> objs m4 n = objs m3 n)"
proof -
  note wf = rc_okD(1) [OF ok]
  have live: "c \<noteq> 0" "c \<noteq> addr_of (brk m)" using mem_wf_live [OF wf, of c] c(1) by auto
  let ?m3 = "alloc_obj (new_closure f ar (fl + 1) (map Some (xs @ [x]))) m"
  have "rc_ok {c} (mset (refs_of m (payload v)) + add_mset x R) m"
    using make_zombie [OF ok c(1)] c(3,4) by simp
  then have "rc_ok {c} (add_mset n R) ?m3"
    unfolding n(1) using c(2) n by (intro new_closure_ok) (simp_all add: comp_def)
  then have "rc_ok {} (add_mset n R) (reaped c {} ?m3)"
    using reap_ok [of c "{}" "add_mset n R" ?m3 v] live c by simp
  moreover have "drop_closure c ?m3 = Inr (reaped c {} ?m3)"
    using c_free_obj [OF mem_wf_alloc_obj [OF wf n(2)], where p = c] live c(1,4)
    by (simp add: drop_closure_def idris2_isUnique_def)
  moreover have "copied_args c n fl (map Some xs) (alloc_obj (new_closure f ar (fl + 1) (replicate (Suc (unat fl)) None)) m) =
      Inr (alloc_obj (new_closure f ar (fl + 1) (map Some xs @ [None])) m)"
    unfolding n(1) using live c n one_blank(2)
    by (simp add: copied_args_def new_closure_fields [OF wf] del: replicate_Suc drop_replicate)
  ultimately show ?thesis using live(2) n(1) by simp
qed

text \<open>A shared closure: its arguments are shared and its counter is decremented.\<close>

lemma share_args_ok:
  assumes ok: "rc_ok {} (add_mset c (add_mset x R)) m"
    and c: "objs m c = Some v" "payload v = Idris2_Closure f ar fl (map Some xs)" "\<not> immortal v" "refCounter v \<noteq> 1"
    "c \<notin> set xs"
    and n: "n = addr_of (brk m)" "brk m < lim m" "length xs = unat fl" "unat (fl + 1) = Suc (unat fl)"
  shows "\<exists>mk. copied_args c n fl (map Some xs) (alloc_obj (new_closure f ar (fl + 1) (replicate (Suc (unat fl)) None)) m) =
      Inr (alloc_obj (new_closure f ar (fl + 1) (map Some xs @ [None])) mk) \<and> mem_wf mk \<and> brk mk = brk m \<and>
    (let m3 = alloc_obj (new_closure f ar (fl + 1) (map Some (xs @ [x]))) mk in
      \<exists>m4. drop_closure c m3 = Inr m4 \<and> rc_ok {} (add_mset n R) m4 \<and> objs m4 n = objs m3 n)"
proof -
  note wf = rc_okD(1) [OF ok]
  have live: "c \<noteq> 0" "c \<noteq> addr_of (brk m)" using mem_wf_live [OF wf, of c] c(1) by auto
  have "refCounter v \<noteq> 0"
    using counts_ok_count [OF rc_okD(4) [OF ok] c(1)] c(3) by auto
  with c(4) have big: "\<not> refCounter v \<le> 1" by (auto simp: word_le_nat_alt word_unat_eq_iff)
  have ok': "rc_ok {} (add_mset x (add_mset c R)) m" using ok by (simp add: add_mset_commute)
  obtain mk where mk: "copied_args c n fl (map Some xs) (alloc_obj (new_closure f ar (fl + 1) (replicate (Suc (unat fl)) None)) m) =
      Inr (alloc_obj (new_closure f ar (fl + 1) (map Some xs @ [None])) mk)"
    "rc_ok {} (mset xs + add_mset x (add_mset c R)) mk" "objs mk c = Some v" "brk mk = brk m" "lim mk = lim m"
    using copy_args_loop [OF ok' c(1,2,5), of "Suc (unat fl)" n "length xs" "fl + 1"] n big live c(1)
    by (auto simp: copied_args_def one_blank(1) simp del: replicate_Suc)
  let ?m3 = "alloc_obj (new_closure f ar (fl + 1) (map Some (xs @ [x]))) mk"
  let ?m4 = "put_obj c (v\<lparr>refCounter := refCounter v - 1\<rparr>) ?m3"
  have "rc_ok {} (add_mset n (add_mset c R)) ?m3"
    using new_closure_ok [of "{}" "xs @ [x]" "add_mset c R" mk "fl + 1"] mk(2-5) n
    by (simp add: add_mset_commute)
  then have "drop_closure c ?m3 = Inr ?m4 \<and> rc_ok {} (add_mset n R) ?m4"
    using mk(3,4) live(2) c(3,4) by (intro drop_closure_ok) (simp_all add: add_mset_commute)
  moreover have "objs ?m4 n = objs ?m3 n" using live(2) n(1) by simp
  ultimately show ?thesis
    using mk(1,4) rc_okD(1) [OF mk(2)] by (intro exI [of _ mk]) (simp add: Let_def)
qed

lemma tailcall_apply_closure_ok:
  assumes ok: "rc_ok {} (add_mset c (add_mset x R)) m"
    and c: "objs m c = Some v" "payload v = Idris2_Closure f ar fl (map Some xs)"
    and "\<not> immortal v" "c \<notin> set xs" "fl \<noteq> 255" "brk m < lim m"
  shows "\<exists>p m'. idris2_tailcall_apply_closure c x m = Inr (p, m') \<and> rc_ok {} (add_mset p R) m' \<and>
    get_closure p m' = Inr (f, ar, fl + 1, map Some (xs @ [x]))"
proof -
  note wf = rc_okD(1) [OF ok]
  have live: "c \<noteq> 0" "c \<noteq> addr_of (brk m)" using mem_wf_live [OF wf, of c] c(1) by auto
  have "obj_wf m v" using rc_okD(3) [OF ok] c(1) by (auto simp: objs_wf_def)
  then have len: "length xs = unat fl" using c(2) by (simp add: obj_wf_def)
  have "unat fl \<noteq> 255" using assms(6) by (auto simp: word_unat_eq_iff)
  moreover have "unat fl < 2 ^ LENGTH(8)" by (rule unsigned_less)
  ultimately have fl1: "unat (fl + 1) = Suc (unat fl)" by (simp add: unat_word_ariths)
  let ?n = "addr_of (brk m)" and ?w = "new_closure f ar (fl + 1)"
  have run: "idris2_tailcall_apply_closure c x m =
    bindr (copied_args c ?n fl (map Some xs) (alloc_obj (?w (replicate (Suc (unat fl)) None)) m)) (\<lambda>m2.
    bindr (set_arg ?n (uint fl) x m2) (\<lambda>m3. bindr (drop_closure c m3) (\<lambda>m4. Inr (?n, m4))))"
    using mkClosure_result [OF wf assms(7), of f ar "fl + 1"] fl1 live c
    by (intro tailcall_steps) (simp_all add: get_closure_def del: replicate_Suc)
  obtain mk where mk: "copied_args c ?n fl (map Some xs) (alloc_obj (?w (replicate (Suc (unat fl)) None)) m) =
      Inr (alloc_obj (?w (map Some xs @ [None])) mk)" "mem_wf mk" "brk mk = brk m"
      "\<exists>m4. drop_closure c (alloc_obj (?w (map Some (xs @ [x]))) mk) = Inr m4 \<and> rc_ok {} (add_mset ?n R) m4 \<and>
        objs m4 ?n = objs (alloc_obj (?w (map Some (xs @ [x]))) mk) ?n"
    using move_args_ok [OF ok c assms(4) _ refl assms(7) len fl1] wf
      share_args_ok [OF ok c assms(4) _ assms(5) refl assms(7) len fl1]
    unfolding Let_def by (cases "refCounter v = 1") blast+
  have "uint fl = int (length xs)" using len by simp
  then have "set_arg ?n (uint fl) x (alloc_obj (?w (map Some xs @ [None])) mk) =
      Inr (alloc_obj (?w (map Some (xs @ [x]))) mk)"
    using new_closure_fields(3) [OF mk(2), of "length xs"] mk(3) by (simp only:) (simp add: list_update_append)
  then show ?thesis
    using run mk mem_wf_fresh(3) [OF wf] by (auto simp: get_closure_eq new_closure_def)
qed

lemma read_args_all: "n \<le> length xs \<Longrightarrow> read_args n (map Some xs) = Inr (take n xs)"
  by (induction n) (simp_all add: nth_res_def take_Suc_conv_app_nth)


text \<open>A closure of two parameters with no argument yet, in fresh memory.\<close>

abbreviation example_closure_mem :: mem where
  "example_closure_mem \<equiv> alloc_obj (new_closure 8 2 0 []) (init_mem 1000)"

lemma example_closure:
  "rc_ok {} {#addr_of static_end, idris2_mkChar 65#} example_closure_mem"
  "objs example_closure_mem (addr_of static_end) = Some (new_closure 8 2 0 [])"
proof -
  have "rc_ok {} (mset [] + {#}) (init_mem 1000)" by (simp add: rc_ok_init static_end_def)
  from new_closure_ok [OF this, of 0] have "rc_ok {} {#addr_of static_end#} example_closure_mem"
    by (simp add: static_end_def)
  moreover have "\<not> boxed (idris2_mkChar 65)" by (simp add: boxed_def idris2_mkChar_def mk_is_unboxed)
  ultimately have "rc_ok {} {#idris2_mkChar 65, addr_of static_end#} example_closure_mem"
    by (simp add: rc_ok_unboxed)
  then show "rc_ok {} {#addr_of static_end, idris2_mkChar 65#} example_closure_mem"
    by (simp only: add_mset_commute)
qed (simp add: static_end_def)


section \<open>The trampoline\<close>

text \<open>The values the trampoline returns: anything but a closure that has all its arguments.\<close>

definition evaluated :: "addr \<Rightarrow> mem \<Rightarrow> bool" where
  "evaluated it m \<longleftrightarrow> it = 0 \<or> idris2_vp_is_unboxed it \<or>
     (\<exists>v. objs m it = Some v \<and> (tag v = CLOSURE_TAG \<longrightarrow>
        (\<exists>f ar fl args. payload v = Idris2_Closure f ar fl args \<and> fl < ar)))"

text \<open>One turn of the trampoline's loop.\<close>

inductive tramp_step :: "code \<Rightarrow> addr \<times> mem \<Rightarrow> addr \<times> mem \<Rightarrow> bool" for code where
  turn: "it \<noteq> 0 \<Longrightarrow> objs m it = Some v \<Longrightarrow> \<not> idris2_vp_is_unboxed it \<Longrightarrow> tag v = CLOSURE_TAG \<Longrightarrow>
    get_closure it m = Inr (f, ar, fl, args) \<Longrightarrow> \<not> fl < ar \<Longrightarrow>
    idris2_dispatch_closure code it m = Inr (it', m1) \<Longrightarrow> drop_closure it m1 = Inr m2 \<Longrightarrow>
    tramp_step code (it, m) (it', m2)"

inductive_cases tramp_stepE: "tramp_step code (it, m) s"

lemma trampoline_turn:
  "tramp_step code (it, m) (it', m') \<Longrightarrow>
   idris2_trampoline (Suc fuel) code it m = idris2_trampoline fuel code it' m'"
  by (auto elim!: tramp_stepE simp: get_obj_def split: if_splits option.splits)

lemma trampoline_stops:
  "evaluated it m \<Longrightarrow> idris2_trampoline (Suc fuel) code it m = Inr (it, m)"
  by (auto simp: evaluated_def get_closure_def)

lemma trampoline_sound:
  "idris2_trampoline fuel code it m = Inr (r, m') \<Longrightarrow>
   (tramp_step code)\<^sup>*\<^sup>* (it, m) (r, m') \<and> evaluated r m'"
proof (induction fuel arbitrary: it m)
  case (Suc fuel)
  show ?case
  proof (cases "idris2_trampoline (Suc fuel) code it m = Inr (it, m) \<and> evaluated it m")
    case False
    then have ne: "\<not> evaluated it m" using trampoline_stops by blast
    then have it: "it \<noteq> 0" "\<not> idris2_vp_is_unboxed it" by (auto simp: evaluated_def)
    with Suc.prems obtain v where v: "objs m it = Some v" by (auto simp: get_obj_def split: option.splits)
    with ne have clo: "tag v = CLOSURE_TAG" by (auto simp: evaluated_def)
    with Suc.prems v it obtain f ar fl args where f: "get_closure it m = Inr (f, ar, fl, args)"
      by (auto simp: bindr_eq_Inr)
    with ne v have full: "\<not> fl < ar" by (auto simp: evaluated_def get_closure_eq)
    with Suc.prems v it clo f obtain it' m1 m2 where run: "idris2_dispatch_closure code it m = Inr (it', m1)"
        "drop_closure it m1 = Inr m2" "idris2_trampoline fuel code it' m2 = Inr (r, m')"
      by (auto simp: bindr_eq_Inr)
    then have "tramp_step code (it, m) (it', m2)" using v it clo f full by (intro turn)
    with run(3) show ?thesis using Suc.IH by (meson converse_rtranclp_into_rtranclp)
  qed (use Suc.prems in auto)
qed simp

lemma trampoline_complete:
  "(tramp_step code)\<^sup>*\<^sup>* s (r, m') \<Longrightarrow> evaluated r m' \<Longrightarrow>
   \<exists>n. \<forall>k. idris2_trampoline (n + k) code (fst s) (snd s) = Inr (r, m')"
proof (induction rule: converse_rtranclp_induct)
  case base
  then have "\<forall>k. idris2_trampoline (Suc 0 + k) code r m' = Inr (r, m')"
    by (simp add: trampoline_stops del: idris2_trampoline.simps)
  then show ?case by (metis fst_conv snd_conv)
next
  case (step s t)
  then obtain n where "\<forall>k. idris2_trampoline (n + k) code (fst t) (snd t) = Inr (r, m')" by blast
  then have "\<forall>k. idris2_trampoline (Suc n + k) code (fst s) (snd s) = Inr (r, m')"
    using trampoline_turn [of code "fst s" "snd s" "fst t" "snd t"] step(1) by (metis add_Suc prod.collapse)
  then show ?case by blast
qed


end
