(* ===== verification/Reuse_Correct.thy ===== *)
theory Reuse_Correct
  imports Runtime_Correct
begin

text \<open>
  Constructor reuse: \<open>idris2_isUnique\<close> and \<open>idris2_removeReuseConstructor\<close> of \<open>refc/runtime.c\<close> in the pattern in which
  compiled programs call them when they take a value apart and build one of the same shape.
\<close>

section \<open>The pattern\<close>

text \<open>What a case branch does with the object \<open>sc\<close> it takes apart (\<open>addReuseConstructor\<close> of the RefC code
  generator): when nobody else holds it, its cell is kept for reuse and the fields are the branch's;
  otherwise the branch takes a reference to each field and drops the object, and there is no cell to
  reuse.\<close>

definition match_constructor :: "nat \<Rightarrow> code \<Rightarrow> addr \<Rightarrow> mem \<Rightarrow> (addr \<times> addr list \<times> mem) res" where
  "match_constructor fuel code sc m =
     bindr (get_args sc m) (\<lambda>args.
     bindr (read_args (length args) args) (\<lambda>xs.
     bindr (idris2_isUnique sc m) (\<lambda>u.
     if u then Inr (sc, xs, m)
     else bindr (eachr (\<lambda>i m. bindr (idris2_newReference (xs ! i) m) (\<lambda>(_, m'). Inr m')) [0..<length xs] m) (\<lambda>m1.
          bindr (idris2_removeReference fuel code sc m1) (\<lambda>m2. Inr (0, xs, m2))))))"

text \<open>Building a constructor object in the cell kept, or in a new one.\<close>

definition build_constructor :: "addr \<Rightarrow> 32 word \<Rightarrow> 32 word \<Rightarrow> addr list \<Rightarrow> mem \<Rightarrow> (addr \<times> mem) res" where
  "build_constructor constr tot tg ys m =
     bindr (if constr = 0 then idris2_newConstructor tot tg m else Inr (constr, m)) (\<lambda>(c, m1).
     bindr (eachr (\<lambda>i m. set_arg c (int i) (ys ! i) m) [0..<length ys] m1) (\<lambda>m2. Inr (c, m2)))"

section \<open>Taking apart\<close>

lemma dup_fields:
  assumes "rc_ok {} R m" "objs m c = Some v" "refs_of m (payload v) = xs" "own_of (payload v) = {}"
  shows "\<exists>m'. eachr (\<lambda>i m. bindr (idris2_newReference (xs ! i) m) (\<lambda>(_, m'). Inr m')) [0..<length xs] m = Inr m' \<and>
    rc_ok {} (mset (take (length xs) xs) + R) m' \<and> brk m' = brk m \<and> lim m' = lim m \<and>
    blks m' = blks m \<and> map_option payload (objs m' c) = Some (payload v)"
proof (rule eachr_invariant [where P = "\<lambda>k m'. rc_ok {} (mset (take k xs) + R) m' \<and> brk m' = brk m \<and> lim m' = lim m \<and>
      blks m' = blks m \<and> map_option payload (objs m' c) = Some (payload v)"])
  fix k s assume k: "k < length xs" and P: "rc_ok {} (mset (take k xs) + R) s \<and> brk s = brk m \<and> lim s = lim m \<and>
      blks s = blks m \<and> map_option payload (objs s c) = Some (payload v)"
  then obtain w where w: "objs s c = Some w" "payload w = payload v" by auto
  have "refs_of s (payload v) = xs" using P assms(3) refs_of_cong [of s m] by simp
  then have "xs ! k \<in># held {} (mset (take k xs) + R) s"
    using held_field [of "{}" _ s c w] P w k by simp
  note x = disjI2 [OF this]
  obtain s' where s': "idris2_newReference (xs ! k) s = Inr (xs ! k, s')" "rc_ok {} (add_mset (xs ! k) (mset (take k xs) + R)) s'"
    "brk s' = brk s" "lim s' = lim s" "blks s' = blks s" "\<And>a. map_option payload (objs s' a) = map_option payload (objs s a)"
    by (rule newReference_ok [OF conjunct1 [OF P] x]) (rule that, assumption+)
  then show "\<exists>s'. bindr (idris2_newReference (xs ! k) s) (\<lambda>(_, m'). Inr m') = Inr s' \<and>
      rc_ok {} (mset (take (Suc k) xs) + R) s' \<and> brk s' = brk m \<and> lim s' = lim m \<and> blks s' = blks m \<and>
      map_option payload (objs s' c) = Some (payload v)"
    using P s'(6) [of c] by (intro exI [of _ s']) (simp add: take_Suc_conv_app_nth [OF k])
qed (use assms in simp)

lemma match_ok:
  assumes ok: "rc_ok {} (add_mset sc R) m" and v: "objs m sc = Some v" "payload v = Idris2_Constructor tot tg nm (map Some xs)"
    and fuel: "brk m \<le> fuel"
  shows "\<exists>m'. match_constructor fuel code sc m = Inr (if refCounter v = 1 then sc else 0, xs, m') \<and>
    rc_ok (if refCounter v = 1 then {sc} else {}) (mset xs + R) m' \<and> brk m' = brk m \<and> lim m' = lim m \<and>
    (refCounter v = 1 \<longrightarrow> m' = m)"
proof -
  have live: "sc \<noteq> 0" using mem_wf_live [OF rc_okD(1) [OF ok], of sc] v by auto
  have rd: "get_args sc m = Inr (map Some xs)" "read_args (length (map Some xs)) (map Some xs) = Inr xs"
    "idris2_isUnique sc m = Inr (refCounter v = 1)"
    using live v read_args_all [of "length xs" xs] by (simp_all add: get_args_def idris2_isUnique_def)
  show ?thesis
  proof (cases "refCounter v = 1")
    case True
    then have "\<not> immortal v" by (simp add: immortal_def IDRIS2_VP_REFCOUNTER_MAX_def)
    then have "rc_ok {sc} (mset xs + R) m" using make_zombie [OF ok v(1)] True v(2) by (simp add: comp_def)
    with rd True show ?thesis by (simp add: match_constructor_def)
  next
    case False
    obtain m1 where m1: "eachr (\<lambda>i m. bindr (idris2_newReference (xs ! i) m) (\<lambda>(_, m'). Inr m')) [0..<length xs] m = Inr m1"
      "rc_ok {} (mset xs + add_mset sc R) m1" "brk m1 = brk m" "lim m1 = lim m"
      using dup_fields [OF ok v(1), of xs] v(2) by (auto simp: comp_def)
    have "rc_ok {} (add_mset sc (mset xs + R)) m1" using m1(2) by simp
    then obtain m2 where "idris2_removeReference fuel code sc m1 = Inr m2" "rc_ok {} (mset xs + R) m2" "shrinks {} m1 m2"
      by (rule removeReference_root [of _ _ _ fuel]) (use fuel m1(3) in auto)
    then show ?thesis using rd m1 False by (auto simp: match_constructor_def shrinks_def)
  qed
qed

section \<open>Giving the cell up\<close>

text \<open>A kept cell has counter 1 and is nobody's object; freeing it leaves all counters right.\<close>

lemma removeReuse_ok:
  assumes "rc_ok {c} R m" "objs m c = Some v" "refCounter v = 1" "own_of (payload v) = {}"
  shows "\<exists>m'. idris2_removeReuseConstructor c m = Inr m' \<and> rc_ok {} R m'"
proof -
  let ?m1 = "put_obj c (v\<lparr>refCounter := refCounter v - 1\<rparr>) m"
  note wf = rc_okD(1) [OF assms(1)]
  have "c \<noteq> 0" using mem_wf_live [OF wf, of c] assms(2) by auto
  moreover have "c_free c ?m1 = Inr (reaped c {} ?m1)"
    by (rule c_free_obj) (use mem_wf_put_obj [OF wf] assms(2) in auto)
  moreover have "reaped c {} ?m1 = reaped c {} m" by (simp add: reaped_def put_obj_def)
  ultimately have "idris2_removeReuseConstructor c m = Inr (reaped c {} m)"
    using assms(2,3) by (simp add: idris2_removeReuseConstructor_def)
  then show ?thesis using reap_ok [of c "{}" R m v] assms by simp
qed

section \<open>Building in the cell\<close>

text \<open>A kept cell that gets a payload becomes the caller's object, and the references it is filled with become
  its fields.\<close>

lemma revive_ok:
  assumes ok: "rc_ok (insert p Z) (mset (refs_of m pl) + R) m" and v: "objs m p = Some v" "p \<notin> Z" "refCounter v = 1"
    and pl: "tag v = payload_tag pl" "payload_wf m pl" "own_of pl = {}"
  shows "rc_ok Z (add_mset p R) (put_obj p (v\<lparr>payload := pl\<rparr>) m)"
proof -
  let ?v = "v\<lparr>payload := pl\<rparr>" and ?H = "held (insert p Z) (mset (refs_of m pl) + R) m"
  let ?m = "put_obj p ?v m"
  have dom: "dom (objs ?m) = dom (objs m)" using v by auto
  have refs: "refs_of ?m pl' = refs_of m pl'" for pl' by (rule refs_of_cong) simp
  have "held Z R ?m = held (insert p Z) (mset (refs_of m pl) + R) ?m"
    using held_zombie [of ?m p ?v Z R] rc_okD(5) [OF ok] v dom by (simp add: refs)
  also have "\<dots> = ?H"
    unfolding held_def dom by (auto simp: refs_at_def refs intro!: sum.cong split: option.split)
  finally have held: "held Z R ?m = ?H" .
  note live = counts_ok_live [OF rc_okD(4) [OF ok]]
  have "p \<notin># ?H" using live [of p] live_boxed [OF rc_okD(1) [OF ok] v(1)] by auto
  then have none: "count ?H p = 0" by (simp add: not_in_iff)
  have "counts_ok Z (add_mset p ?H) ?m"
  proof (rule counts_okI)
    show "q \<in> dom (objs ?m) - Z" if "q \<in># add_mset p ?H" "boxed q" for q
      using that live [of q] v by (auto simp: dom simp del: put_obj_sel)
    show "unat (refCounter w) = count (add_mset p ?H) a" if "objs ?m a = Some w" "a \<notin> Z" "\<not> immortal w" for a w
      using that v(3) none counts_ok_count [OF rc_okD(4) [OF ok], of a w] by (cases "a = p") auto
  qed
  moreover have "own_at ?m a = (if a = p then {} else own_at m a)" for a
    using pl(3) by (simp add: own_at_def)
  then have "objs_wf ?m"
    using rc_okD(3) [OF ok] pl unfolding objs_wf_def obj_wf_def
    by (auto simp: payload_wf_cong [of ?m m] split: if_splits)
  moreover have "mem_wf ?m" using rc_okD(1) [OF ok] v by (intro mem_wf_put_obj) auto
  ultimately show ?thesis using rc_okD(2) [OF ok] dom by (auto simp: rc_ok_def held simp del: put_obj_sel)
qed

lemma fill_fields:
  assumes "objs m c = Some v" "payload v = Idris2_Constructor tot tg nm args" "c \<noteq> 0" "length ys = length args"
  shows "eachr (\<lambda>i m. set_arg c (int i) (ys ! i) m) [0..<length ys] m =
    Inr (put_obj c (v\<lparr>payload := Idris2_Constructor tot tg nm (map Some ys)\<rparr>) m)"
proof -
  have "\<exists>s. eachr (\<lambda>i m. set_arg c (int i) (ys ! i) m) [0..<length ys] m = Inr s \<and>
      s = put_obj c (v\<lparr>payload := Idris2_Constructor tot tg nm (map Some (take (length ys) ys) @ drop (length ys) args)\<rparr>) m"
  proof (rule eachr_invariant [where
        P = "\<lambda>k s. s = put_obj c (v\<lparr>payload := Idris2_Constructor tot tg nm (map Some (take k ys) @ drop k args)\<rparr>) m"])
    show "m = put_obj c (v\<lparr>payload := Idris2_Constructor tot tg nm (map Some (take 0 ys) @ drop 0 args)\<rparr>) m"
      using assms(1,2) by (simp add: put_obj_def fun_upd_idem flip: assms(2))
  next
    fix k s assume k: "k < length ys" and s: "s = put_obj c (v\<lparr>payload := Idris2_Constructor tot tg nm (map Some (take k ys) @ drop k args)\<rparr>) m"
    have "(map Some (take k ys) @ drop k args)[k := Some (ys ! k)] = map Some (take (Suc k) ys) @ drop (Suc k) args"
      using k assms(4) by (simp add: take_Suc_conv_app_nth list_update_append Cons_nth_drop_Suc [symmetric] del: Cons_nth_drop_Suc)
    then show "\<exists>s'. set_arg c (int k) (ys ! k) s = Inr s' \<and>
        s' = put_obj c (v\<lparr>payload := Idris2_Constructor tot tg nm (map Some (take (Suc k) ys) @ drop (Suc k) args)\<rparr>) m"
      using k assms(3,4) s by (simp add: set_arg_def get_args_def set_args_def upd_res_def put_obj_def)
  qed
  then show ?thesis using assms(4) by simp
qed

lemma build_ok:
  assumes ok: "rc_ok (if constr = 0 then {} else {constr}) (mset ys + R) m" and len: "int (length ys) = sint tot"
    and fresh: "constr = 0 \<Longrightarrow> brk m < lim m \<and> length ys < 2 ^ 31"
    and kept: "constr \<noteq> 0 \<Longrightarrow> objs m constr = Some v \<and> refCounter v = 1 \<and> payload v = Idris2_Constructor tot tg nm args \<and>
      length args = length ys"
  shows "\<exists>c m'. build_constructor constr tot tg ys m = Inr (c, m') \<and> rc_ok {} (add_mset c R) m' \<and>
    get_args c m' = Inr (map Some ys) \<and> (constr \<noteq> 0 \<longrightarrow> c = constr \<and> brk m' = brk m)"
proof (cases "constr = 0")
  case False
  then have v: "objs m constr = Some v" "refCounter v = 1" "payload v = Idris2_Constructor tot tg nm args" "length args = length ys"
    using kept by auto
  let ?pl = "Idris2_Constructor tot tg nm (map Some ys)" and ?m = "put_obj constr (v\<lparr>payload := Idris2_Constructor tot tg nm (map Some ys)\<rparr>) m"
  have "tag v = payload_tag (payload v)" using rc_okD(3) [OF ok] v(1) by (auto simp: objs_wf_def obj_wf_def)
  then have "rc_ok {} (add_mset constr R) ?m"
    using ok False v len by (intro revive_ok) (auto simp: comp_def)
  then show ?thesis
    using False fill_fields [OF v(1,3) False] v(4) by (simp add: build_constructor_def get_args_def get_obj_def)
next
  case True
  let ?c = "addr_of (brk m)" and ?pl = "\<lambda>xs. Idris2_Constructor tot tg 0 xs"
  let ?v = "\<lambda>xs. \<lparr>refCounter = 1, tag = CONSTRUCTOR_TAG, payload = ?pl xs\<rparr>" and ?n = "replicate (length ys) None"
  note wf = rc_okD(1) [OF ok]
  have c: "?c \<noteq> 0" by (rule mem_wf_fresh(3) [OF wf])
  have new: "idris2_newConstructor tot tg m = Inr (?c, alloc_obj (?v ?n) m)"
  proof -
    have sz: "c_size (24 + 8 * sint tot) = 24 + 8 * length ys" using fresh True len [symmetric]
      by (simp add: c_size_def in_range_code nat_add_distrib nat_mult_distrib)
    have "nat (sint tot) = length ys" using len [symmetric] by simp
    then show ?thesis
      using sz fresh True idris2_newValue_cases [OF wf, of "24 + 8 * length ys"] c
      by (simp add: idris2_newConstructor_def set_payload_def get_obj_def put_obj_def alloc_obj_def)
  qed
  have "build_constructor constr tot tg ys m = Inr (?c, alloc_obj (?v (map Some ys)) m)"
    using True new fill_fields [of "alloc_obj (?v ?n) m" ?c "?v ?n" tot tg 0 ?n ys] c
    by (simp add: build_constructor_def put_obj_def alloc_obj_def)
  moreover have "rc_ok {} (add_mset ?c R) (alloc_obj (?v (map Some ys)) m)"
    using alloc_ok [of "{}" m "?pl (map Some ys)" R] ok True fresh len by (simp add: comp_def)
  ultimately show ?thesis using c True by (simp add: get_args_def get_obj_def)
qed

text \<open>C8. Taking a constructor apart and building one again is safe and in place. From right counters, the branch gets
  the fields, and either it keeps the cell (exactly when it held the only reference) or the object has
  been dropped. If it then gives the cell up, \<open>idris2_removeReuseConstructor\<close> leaves right counters for the
  fields it now holds; if it builds an object from the fields in any order, the counters are right for
  that object, its fields are the ones given, and with a kept cell nothing is allocated.\<close>

theorem constructor_reuse:
  assumes "rc_ok {} (add_mset sc R) m" "objs m sc = Some v" "payload v = Idris2_Constructor tot tg nm (map Some xs)"
    and "brk m \<le> fuel" "mset ys = mset xs" "brk m < lim m" "length xs < 2 ^ 31"
  shows "\<exists>constr m1 m2 c m3. match_constructor fuel code sc m = Inr (constr, xs, m1) \<and>
    constr = (if refCounter v = 1 then sc else 0) \<and>
    idris2_removeReuseConstructor constr m1 = Inr m2 \<and> rc_ok {} (mset xs + R) m2 \<and>
    build_constructor constr tot tg ys m1 = Inr (c, m3) \<and> rc_ok {} (add_mset c R) m3 \<and>
    get_args c m3 = Inr (map Some ys) \<and> (refCounter v = 1 \<longrightarrow> c = sc \<and> brk m3 = brk m)"
proof -
  let ?k = "if refCounter v = 1 then sc else 0"
  have sc: "sc \<noteq> 0" using mem_wf_live [OF rc_okD(1) [OF assms(1)], of sc] assms(2) by auto
  have len: "length ys = length xs" using mset_eq_length [OF assms(5)] .
  have "obj_wf m v" using rc_okD(3) [OF assms(1)] assms(2) by (auto simp: objs_wf_def)
  then have tot: "int (length ys) = sint tot" using assms(3) len by (simp add: obj_wf_def)
  obtain m1 where m1: "match_constructor fuel code sc m = Inr (?k, xs, m1)"
    "rc_ok (if ?k = 0 then {} else {?k}) (mset xs + R) m1" "brk m1 = brk m" "lim m1 = lim m" "refCounter v = 1 \<Longrightarrow> m1 = m"
  proof -
    have "(if refCounter v = 1 then {sc} else {}) = (if ?k = 0 then {} else {?k})" using sc by simp
    from match_ok [OF assms(1-4), of code, unfolded this] show thesis by (elim exE conjE) (rule that, auto)
  qed
  have "\<exists>m2. idris2_removeReuseConstructor ?k m1 = Inr m2 \<and> rc_ok {} (mset xs + R) m2"
    using removeReuse_ok [of sc "mset xs + R" m v] m1(2,5) sc assms(2,3)
    by (cases "refCounter v = 1") (simp_all add: idris2_removeReuseConstructor_def)
  moreover have "\<exists>c m3. build_constructor ?k tot tg ys m1 = Inr (c, m3) \<and> rc_ok {} (add_mset c R) m3 \<and>
      get_args c m3 = Inr (map Some ys) \<and> (?k \<noteq> 0 \<longrightarrow> c = ?k \<and> brk m3 = brk m1)"
    by (rule build_ok [where v = v and nm = nm and args = "map Some xs"])
      (use m1 assms len tot in \<open>auto split: if_splits\<close>)
  ultimately show ?thesis using m1(1,3) sc by auto
qed

text \<open>A pair of characters in fresh memory.\<close>

abbreviation example_pair :: Idris2_Value where
  "example_pair \<equiv> \<lparr>refCounter = 1, tag = CONSTRUCTOR_TAG,
     payload = Idris2_Constructor 2 1 0 (map Some [idris2_mkChar 65, idris2_mkChar 66])\<rparr>"

lemma example_pair_ok: "rc_ok {} {#addr_of static_end#} (alloc_obj example_pair (init_mem 1000))"
proof -
  have "rc_ok {} {#} (init_mem 1000)" by (rule rc_ok_init) (simp_all add: static_end_def)
  moreover have "\<not> boxed (idris2_mkChar x)" for x by (simp add: boxed_def idris2_mkChar_def mk_is_unboxed)
  ultimately have "rc_ok {} (mset (refs_of (init_mem 1000) (payload example_pair)) + {#}) (init_mem 1000)"
    by (simp add: rc_ok_unboxed)
  from alloc_ok [OF this] show ?thesis by (simp add: static_end_def)
qed

theorem constructor_reuse_witness:
  "let m = alloc_obj example_pair (init_mem 1000); sc = addr_of static_end;
       xs = [idris2_mkChar 65, idris2_mkChar 66]; ys = [idris2_mkChar 66, idris2_mkChar 65] in
   \<exists>constr m1 m2 c m3. match_constructor 1000 (\<lambda>_ _ m. Inr (0, m)) sc m = Inr (constr, xs, m1) \<and>
    constr = (if refCounter example_pair = 1 then sc else 0) \<and>
    idris2_removeReuseConstructor constr m1 = Inr m2 \<and> rc_ok {} (mset xs + {#}) m2 \<and>
    build_constructor constr 2 1 ys m1 = Inr (c, m3) \<and> rc_ok {} (add_mset c {#}) m3 \<and>
    get_args c m3 = Inr (map Some ys) \<and> (refCounter example_pair = 1 \<longrightarrow> c = sc \<and> brk m3 = brk m)"
  unfolding Let_def
  by (rule constructor_reuse [where nm = 0]) (use example_pair_ok in \<open>simp_all add: static_end_def\<close>)

end
