(* ===== verification/Iterator_Correct.thy ===== *)
theory Iterator_Correct
  imports List_Conversion
begin

text \<open>
  String iterators of \<open>refc/stringOps.c\<close>: an iterator made from a string yields its characters in order and then
  the end, and its finaliser gives back exactly the blocks the iterator took. \<open>iter_mem\<close> is the memory with
  an iterator, for \<open>Iterator_Lifecycle\<close>.
\<close>

section \<open>Iterators in general\<close>

text \<open>What \<open>Data.String.Iterator\<close> does with an iterator: it calls \<open>next\<close> on the second field of each result until it
  gets the null pointer, and collects the first fields.\<close>

primrec walk :: "(addr \<Rightarrow> mem \<Rightarrow> (addr \<times> mem) res) \<Rightarrow> nat \<Rightarrow> addr \<Rightarrow> mem \<Rightarrow> (addr list \<times> mem) res" where
  "walk nxt 0 it m = Inl Out_of_fuel"
| "walk nxt (Suc n) it m =
     bindr (nxt it m) (\<lambda>(p, m1).
     if p = 0 then Inr ([], m1)
     else bindr (get_arg p 0 m1) (\<lambda>c.
          bindr (get_arg p 1 m1) (\<lambda>it1.
          bindr (walk nxt n it1 m1) (\<lambda>(cs, m2). Inr (c # cs, m2)))))"

text \<open>The interface: \<open>at it cs m\<close> says that the items \<open>cs\<close> are still to come.\<close>

locale iterator =
  fixes nxt :: "addr \<Rightarrow> mem \<Rightarrow> (addr \<times> mem) res"
    and still :: "addr \<Rightarrow> addr list \<Rightarrow> mem \<Rightarrow> bool"
  assumes at_end: "still it [] m \<Longrightarrow> nxt it m = Inr (0, m)"
    and at_item: "still it (c # cs) m \<Longrightarrow> brk m < lim m \<Longrightarrow>
      \<exists>p m'. nxt it m = Inr (p, m') \<and> p \<noteq> 0 \<and> get_arg p 0 m' = Inr c \<and> get_arg p 1 m' = Inr it \<and>
        still it cs m' \<and> brk m' = Suc (brk m) \<and> lim m' = lim m"
begin

text \<open>One more call than there are items reaches the end.\<close>

lemma walk_items:
  assumes "still it cs m" "brk m + length cs \<le> lim m"
  shows "\<exists>m'. walk nxt (Suc (length cs)) it m = Inr (cs, m') \<and> still it [] m'"
  using assms
proof (induction cs arbitrary: m)
  case Nil
  then show ?case by (auto simp: at_end)
next
  case (Cons c cs)
  then obtain p m1 where step: "nxt it m = Inr (p, m1)" "p \<noteq> 0" "get_arg p 0 m1 = Inr c" "get_arg p 1 m1 = Inr it"
    "still it cs m1" "brk m1 = Suc (brk m)" "lim m1 = lim m"
    using at_item [of it c cs m] by auto
  obtain m' where "walk nxt (Suc (length cs)) it m1 = Inr (cs, m')" "still it [] m'"
    using Cons.IH [OF step(5)] Cons.prems(2) step(6,7) by auto
  then show ?case using step(1-4) by simp
qed

end

section \<open>String iterators\<close>

text \<open>The parts of an iterator over \<open>s\<close> that has delivered \<open>i\<close> characters: the object \<open>p\<close>, the pointer object \<open>q\<close>
  behind it, the structure at \<open>it\<close> and the copy of the text at \<open>buf\<close>; \<open>B\<close> are the blocks of the rest of
  the program.\<close>

definition iter :: "addr \<Rightarrow> addr \<Rightarrow> addr \<Rightarrow> addr \<Rightarrow> (addr \<rightharpoonup> blk) \<Rightarrow> byte list \<Rightarrow> nat \<Rightarrow> mem \<Rightarrow> bool" where
  "iter p q it buf B s i m \<longleftrightarrow>
     (\<exists>v clo. objs m p = Some v \<and> payload v = Idris2_GCPointer q clo) \<and> dynamic m p \<and> p \<noteq> 0 \<and>
     get_pointer q m = Inr it \<and> dynamic m it \<and> it \<noteq> 0 \<and> buf \<noteq> 0 \<and> it \<noteq> buf \<and> B it = None \<and> B buf = None \<and>
     blks m = B(it \<mapsto> Ptrs [Some buf, Some (word_of_nat i)], buf \<mapsto> Bytes (map Some (s @ [0]))) \<and>
     0 \<notin> set s \<and> i \<le> length s \<and> length s < 2 ^ 31 - 1 \<and> rt_wf m"

lemma iter_read:
  assumes "iter p q it buf B s i m"
  shows "get_iterator p m = Inr it" "load_ptr it 0 m = Inr buf" "load_ptr it 1 m = Inr (word_of_nat i)"
    "load_byte buf (int i) m = Inr ((s @ [0]) ! i)"
    "c_conv Int32 (uint (word_of_nat i :: addr)) = int i"
proof -
  have i: "i \<le> length s" "length s < 2 ^ 31 - 1" using assms by (simp_all add: iter_def)
  have "map Some (s @ [0]) ! i = Some ((s @ [0]) ! i)" using i by (intro nth_map) simp
  with assms show "get_iterator p m = Inr it" "load_ptr it 0 m = Inr buf" "load_ptr it 1 m = Inr (word_of_nat i)"
    "load_byte buf (int i) m = Inr ((s @ [0]) ! i)"
    by (auto simp: iter_def get_iterator_def load_ptr_def load_byte_def get_ptrs_def get_bytes_def nth_res_def)
  have "uint (word_of_nat i :: addr) = int i" using i by (simp add: uint_nat unat_of_nat)
  then show "c_conv Int32 (uint (word_of_nat i :: addr)) = int i" using i by (simp add: in_range_code)
qed

lemma iter_end:
  assumes "iter p q it buf B s (length s) m"
  shows "stringIteratorNext p m = Inr (0, m)"
  using iter_read [OF assms] by (simp add: stringIteratorNext_def)

text \<open>Changing a block that is not static data keeps memory well-formed.\<close>

lemma rt_wf_upd_blk:
  assumes "rt_wf m" "blks m p \<noteq> None" "dynamic m p"
  shows "rt_wf (m\<lparr>blks := (blks m)(p \<mapsto> b)\<rparr>)"
proof -
  obtain k where k: "p = addr_of k" "static_end \<le> k" "k < 2 ^ 60"
    using assms(3) mem_wf_brk [OF rt_wf_mem_wf [OF assms(1)]] by (auto simp: dynamic_def)
  have "addr_of j \<noteq> p" if "j < static_end" for j
    using that k addr_of_inj [of j k] by (auto simp: static_end_def)
  then have "statics_ok (m\<lparr>blks := (blks m)(p \<mapsto> b)\<rparr>)"
    using assms(1) static_blk_bounds unfolding rt_wf_def statics_ok_def by auto
  moreover have "mem_wf (m\<lparr>blks := (blks m)(p \<mapsto> b)\<rparr>)"
    using rt_wf_mem_wf [OF assms(1)] assms(2) unfolding mem_wf_def by (auto simp: dom_def)
  ultimately show ?thesis by (simp add: rt_wf_def)
qed

text \<open>What \<open>idris2_newReference\<close> makes of an object.\<close>

definition referenced :: "Idris2_Value \<Rightarrow> Idris2_Value" where
  "referenced v = (if refCounter v \<noteq> IDRIS2_VP_REFCOUNTER_MAX then v\<lparr>refCounter := refCounter v + 1\<rparr> else v)"

lemma iter_next:
  assumes "iter p q it buf B s i m" "i < length s" "brk m < lim m"
  shows "\<exists>m'. stringIteratorNext p m = Inr (addr_of (brk m), m') \<and>
    objs m' (addr_of (brk m)) = Some (cell (Some (char_val (s ! i))) (Some p)) \<and>
    iter p q it buf B s (Suc i) m' \<and> brk m' = Suc (brk m) \<and> lim m' = lim m \<and>
    m' = put_obj p (referenced (the (objs m p))) (alloc_obj (cell (Some (char_val (s ! i))) (Some p))
      (m\<lparr>blks := (blks m)(it \<mapsto> Ptrs [Some buf, Some (word_of_nat (Suc i))])\<rparr>))"
proof -
  note rd = iter_read [OF assms(1)]
  obtain v clo where v: "objs m p = Some v" "payload v = Idris2_GCPointer q clo"
    and wf: "rt_wf m" and dyn: "dynamic m p" "dynamic m it" "p \<noteq> 0" "it \<noteq> 0" "it \<noteq> buf" and q: "get_pointer q m = Inr it"
    and b: "blks m = B(it \<mapsto> Ptrs [Some buf, Some (word_of_nat i)], buf \<mapsto> Bytes (map Some (s @ [0])))"
    and len: "length s < 2 ^ 31 - 1"
    using assms(1) by (auto simp: iter_def)
  let ?r = "addr_of (brk m)"
  define m1 where "m1 = m\<lparr>blks := (blks m)(it \<mapsto> Ptrs [Some buf, Some (word_of_nat (Suc i))])\<rparr>"
  define v' where "v' = referenced v"
  define m2 where "m2 = put_obj p v' (alloc_obj (cell (Some (char_val (s ! i))) (Some p)) m1)"
  have m1: "rt_wf m1" "brk m1 = brk m" "lim m1 = lim m" "objs m1 = objs m"
    unfolding m1_def using rt_wf_upd_blk [OF wf _ dyn(2)] b dyn(5) by simp_all
  have fresh: "?r \<noteq> 0" "?r \<noteq> p" "?r \<noteq> q" "q \<noteq> p" "\<not> idris2_vp_is_unboxed p"
    using mem_wf_fresh [OF rt_wf_mem_wf [OF wf]] v q dyn(1)
    by (auto simp: get_pointer_def bindr_eq_Inr get_obj_def dynamic_def split: if_splits option.splits)
  have "c_add Int32 (int i) 1 = Inr (int (Suc i))" "c_conv Bits32 (int (Suc i)) = int (Suc i)"
    using assms(2) len by (simp_all add: c_add_Int32 in_range_code)
  moreover have "store_ptr it 1 (word_of_int (int (Suc i))) m = Inr m1"
    using b dyn(4,5) by (simp add: store_ptr_def get_ptrs_def upd_res_def m1_def)
  moreover have "(s @ [0]) ! i = s ! i" "s ! i \<noteq> 0"
    using assms(1,2) nth_mem [of i s] by (auto simp: nth_append iter_def simp del: nth_mem)
  moreover have "idris2_newReference p (alloc_obj (cell (Some c) None) m1) = Inr (p, put_obj p v' (alloc_obj (cell (Some c) None) m1))" for c
    using v fresh dyn(3) m1 by (auto simp: idris2_newReference_def v'_def referenced_def put_obj_def fun_upd_idem)
  moreover have "set_arg ?r 1 p (put_obj p v' (alloc_obj (cell (Some c) None) m1)) =
      Inr (put_obj p v' (alloc_obj (cell (Some c) (Some p)) m1))" for c
  proof -
    have "objs (put_obj p v' (alloc_obj (cell (Some c) None) m1)) ?r = Some (cell (Some c) None)"
      using fresh m1 by simp
    then have "set_arg ?r 1 p (put_obj p v' (alloc_obj (cell (Some c) None) m1)) =
        Inr (put_obj ?r (cell (Some c) (Some p)) (put_obj p v' (alloc_obj (cell (Some c) None) m1)))"
      by (rule cell_fields(3)) (rule fresh(1))
    also have "put_obj ?r (cell (Some c) (Some p)) (put_obj p v' (alloc_obj (cell (Some c) None) m1)) =
        put_obj p v' (alloc_obj (cell (Some c) (Some p)) m1)"
      using fresh(2) m1 by (simp add: put_obj_def alloc_obj_def fun_upd_twist)
    finally show ?thesis .
  qed
  moreover have "bindr (idris2_newConstructor 2 1 m1) (\<lambda>(r, m2). bindr (set_arg r 0 c m2) (\<lambda>m3. k r m3)) =
      k ?r (alloc_obj (cell (Some c) None) m1)" for c and k :: "addr \<Rightarrow> mem \<Rightarrow> (addr \<times> mem) res"
    using new_cell [OF m1(1)] m1(2,3) assms(3) by simp
  ultimately have run: "stringIteratorNext p m = Inr (?r, m2)"
    using rd by (simp only: stringIteratorNext_def m2_def bindr_Inr if_False split_conv)
  have "rt_wf m2" unfolding m2_def
    using v m1 assms(3) dyn(1) dynamic_mono [of m p] by (intro rt_wf_put_obj) (simp_all add: rt_wf_alloc_obj)
  moreover have "get_pointer q m2 = Inr it"
    using q fresh m1 by (auto simp: get_pointer_def bindr_eq_Inr get_obj_def m2_def split: if_splits option.splits)
  moreover have "payload v' = payload v" by (simp add: v'_def referenced_def)
  moreover have "blks m2 = B(it \<mapsto> Ptrs [Some buf, Some (word_of_nat (Suc i))], buf \<mapsto> Bytes (map Some (s @ [0])))"
    using b dyn(5) by (simp add: m2_def m1_def fun_upd_twist)
  moreover have "dynamic m2 p" "dynamic m2 it" using dyn(1,2) dynamic_mono [of m _ m2] m1 by (simp_all add: m2_def)
  ultimately have "iter p q it buf B s (Suc i) m2"
    using assms(1,2) v unfolding iter_def by (auto simp: m2_def)
  then show ?thesis using run fresh(2) m1 v(1) by (auto simp: m2_def m1_def v'_def)
qed

interpretation str_iter: iterator stringIteratorNext
  "\<lambda>p cs m. \<exists>i. iter p q it buf B s i m \<and> cs = map char_val (drop i s)" for q it buf B s
proof unfold_locales
  fix p m assume "\<exists>i. iter p q it buf B s i m \<and> [] = map char_val (drop i s)"
  then obtain i where "iter p q it buf B s i m" "i = length s" by (auto simp: iter_def)
  then show "stringIteratorNext p m = Inr (0, m)" using iter_end by blast
next
  fix p c cs m assume "\<exists>i. iter p q it buf B s i m \<and> c # cs = map char_val (drop i s)" "brk m < lim m"
  then obtain i where i: "iter p q it buf B s i m" "c # cs = map char_val (drop i s)"
    by (elim exE conjE) (rule that)
  have lt: "i < length s" using i(2) by (cases "i < length s") simp_all
  then have "drop i s = s ! i # drop (Suc i) s" by (rule Cons_nth_drop_Suc [symmetric])
  with i(2) have d: "c = char_val (s ! i)" "cs = map char_val (drop (Suc i) s)" by (simp_all only: list.map list.inject)
  obtain m' where m': "stringIteratorNext p m = Inr (addr_of (brk m), m')"
    "objs m' (addr_of (brk m)) = Some (cell (Some (char_val (s ! i))) (Some p))"
    "iter p q it buf B s (Suc i) m'" "brk m' = Suc (brk m)" "lim m' = lim m"
    using iter_next [OF i(1) lt \<open>brk m < lim m\<close>] by blast
  have "rt_wf m" using i(1) by (simp add: iter_def)
  then have "addr_of (brk m) \<noteq> 0" by (rule mem_wf_fresh(3) [OF rt_wf_mem_wf])
  with m' d cell_get [OF m'(2)] show "\<exists>p' m'. stringIteratorNext p m = Inr (p', m') \<and> p' \<noteq> 0 \<and> get_arg p' 0 m' = Inr c \<and>
      get_arg p' 1 m' = Inr p \<and> (\<exists>i. iter p q it buf B s i m' \<and> cs = map char_val (drop i s)) \<and>
      brk m' = Suc (brk m) \<and> lim m' = lim m"
    by blast
qed

section \<open>Making and collecting an iterator\<close>

lemma fresh_run:
  assumes "mem_wf m" "brk m + n \<le> lim m"
  shows "j < n \<Longrightarrow> addr_of (brk m + j) \<noteq> 0 \<and> objs m (addr_of (brk m + j)) = None \<and> blks m (addr_of (brk m + j)) = None"
    "i < n \<Longrightarrow> j < n \<Longrightarrow> addr_of (brk m + i) = addr_of (brk m + j) \<longleftrightarrow> i = j"
proof -
  have lim: "lim m < 2 ^ 60" "0 < brk m" using assms by (auto simp: mem_wf_def static_end_def)
  show "addr_of (brk m + i) = addr_of (brk m + j) \<longleftrightarrow> i = j" if "i < n" "j < n"
    using addr_of_inj [of "brk m + i" "brk m + j"] that assms(2) lim by simp
  assume j: "j < n"
  have "addr_of (brk m + j) \<notin> addr_of ` {0<..<brk m}"
  proof
    assume "addr_of (brk m + j) \<in> addr_of ` {0<..<brk m}"
    then obtain x where "addr_of (brk m + j) = addr_of x" "x < brk m" by auto
    then show False using addr_of_inj [of "brk m + j" x] j assms(2) lim by simp
  qed
  then have "addr_of (brk m + j) \<notin> dom (objs m) \<union> dom (blks m)" using assms(1) by (auto simp: mem_wf_def)
  then show "addr_of (brk m + j) \<noteq> 0 \<and> objs m (addr_of (brk m + j)) = None \<and> blks m (addr_of (brk m + j)) = None"
    using addr_of_nonzero [of "brk m + j"] j assms(2) lim by auto
qed

lemma replicate_two: "replicate 2 x = [x, x]"
  by (simp add: numeral_2_eq_2)

text \<open>The memory with an iterator over \<open>s\<close> that was made in \<open>m\<close>, has delivered \<open>i\<close> characters, and is all that
  has been added to \<open>m\<close>; \<open>b\<close> is the allocation counter.\<close>

definition iter_closure :: "addr \<Rightarrow> Idris2_Value" where
  "iter_closure fp = \<lparr>refCounter = 1, tag = CLOSURE_TAG, payload = Idris2_Closure fp 2 0 []\<rparr>"

definition iter_object :: "mem \<Rightarrow> Idris2_Value" where
  "iter_object m = \<lparr>refCounter = 1, tag = GC_POINTER_TAG,
     payload = Idris2_GCPointer (addr_of (brk m + 4)) (addr_of (brk m + 2))\<rparr>"

definition iter_pointer :: "mem \<Rightarrow> Idris2_Value" where
  "iter_pointer m = \<lparr>refCounter = 1, tag = POINTER_TAG, payload = Idris2_Pointer (addr_of (brk m))\<rparr>"

definition iter_mem :: "addr \<Rightarrow> mem \<Rightarrow> byte list \<Rightarrow> nat \<Rightarrow> nat \<Rightarrow> mem" where
  "iter_mem fp m s i b = m\<lparr>
     objs := (objs m)(addr_of (brk m + 2) \<mapsto> iter_closure fp, addr_of (brk m + 3) \<mapsto> iter_object m,
       addr_of (brk m + 4) \<mapsto> iter_pointer m),
     blks := (blks m)(addr_of (brk m) \<mapsto> Ptrs [Some (addr_of (brk m + 1)), Some (word_of_nat i)],
       addr_of (brk m + 1) \<mapsto> Bytes (map Some (s @ [0]))),
     brk := b\<rparr>"

text \<open>The structure and the copy of the text.\<close>

lemma stringIteratorNew_blocks:
  fixes fp :: addr
  assumes "rt_wf m" "brk m + 5 \<le> lim m" "c_string str 0 m = Inr s" "length s < 2 ^ 31 - 1"
  shows "stringIteratorNew fp str m = bindr (idris2_mkClosure fp 2 0
      (alloc_blk (Bytes (map Some (s @ [0]))) (alloc_blk (Ptrs [Some (addr_of (brk m + 1)), Some 0]) m)))
    (\<lambda>(clo, m6). idris2_makeGCPointer (addr_of (brk m)) clo m6)"
proof -
  note wf = rt_wf_mem_wf [OF assms(1)]
  let ?a = "\<lambda>j. addr_of (brk m + j)"
  note fresh = fresh_run(1) [OF wf assms(2)] and inj = fresh_run(2) [OF wf assms(2)]
  obtain rest where str: "get_bytes str m = Inr (map Some s @ Some 0 # rest)" "0 \<notin> set s"
    using assms(3) until_nul_split until_nul_no_zero by (fastforce simp: c_string_def bindr_eq_Inr)
  have strlen: "int_strlen str m = Inr (int (length s))" "c_add Int32 (int (length s)) 1 = Inr (int (length s) + 1)"
    "c_size (int (length s) + 1) = Suc (length s)"
    using assms(3,4) by (simp_all add: int_strlen_def c_strlen_def c_add_Int32 in_range_code c_size_def nat_add_distrib)
  define m1 where "m1 = alloc_blk (Ptrs [None, None]) m"
  define m2 where "m2 = alloc_blk (Bytes (replicate (Suc (length s)) None)) m1"
  define m5 where "m5 = alloc_blk (Bytes (map Some (s @ [0]))) (alloc_blk (Ptrs [Some (?a 1), Some 0]) m)"
  have a0: "?a 0 = addr_of (brk m)" "?a 1 = addr_of (Suc (brk m))" by simp_all
  have "c_malloc_ptrs 2 m = (?a 0, m1)"
    using assms(2) by (simp add: c_malloc_ptrs_def can_alloc_def m1_def alloc_blk_def replicate_two)
  moreover have "c_malloc (Suc (length s)) m1 = (?a 1, m2)"
    using assms(2,4) by (simp add: c_malloc_def can_alloc_def m1_def m2_def alloc_blk_def)
  moreover obtain m3 m4 where m4: "store_ptr (?a 0) 0 (?a 1) m2 = Inr m3" "store_ptr (?a 0) 1 0 m3 = Inr m4"
    "m4 = alloc_blk (Bytes (replicate (Suc (length s)) None)) (alloc_blk (Ptrs [Some (?a 1), Some 0]) m)"
    using fresh [of 0] inj [of 0 1]
    by (simp add: store_ptr_def get_ptrs_def upd_res_def m1_def m2_def alloc_blk_def fun_upd_twist)
  moreover have "c_memcpy (?a 1) 0 str 0 (Suc (length s)) m4 = Inr m5"
  proof -
    have "str \<noteq> ?a 0" "str \<noteq> ?a 1" using str(1) fresh [of 0] fresh [of 1] by (auto simp: get_bytes_eq_Inr)
    then show ?thesis using str(1) fresh [of 1]
      by (auto simp: c_memcpy_def get_bytes_def m4(3) m5_def alloc_blk_def split: if_splits)
  qed
  ultimately show ?thesis using strlen fresh [of 0] by (simp add: stringIteratorNew_def m5_def)
qed

lemma stringIteratorNew_result:
  fixes fp :: addr
  assumes "rt_wf m" "brk m + 5 \<le> lim m" "c_string str 0 m = Inr s" "length s < 2 ^ 31 - 1"
  defines "p \<equiv> addr_of (brk m + 3)" and "m' \<equiv> iter_mem fp m s 0 (brk m + 5)"
  shows "stringIteratorNew fp str m = Inr (p, m') \<and>
    iter p (addr_of (brk m + 4)) (addr_of (brk m)) (addr_of (brk m + 1)) (blks m) s 0 m' \<and>
    brk m' = brk m + 5 \<and> lim m' = lim m"
proof -
  note wf = rt_wf_mem_wf [OF assms(1)]
  let ?a = "\<lambda>j. addr_of (brk m + j)"
  note fresh = fresh_run(1) [OF wf assms(2)] and inj = fresh_run(2) [OF wf assms(2)]
  define m5 where "m5 = alloc_blk (Bytes (map Some (s @ [0]))) (alloc_blk (Ptrs [Some (?a 1), Some 0]) m)"
  have nul: "0 \<notin> set s" using assms(3) until_nul_no_zero by (fastforce simp: c_string_def bindr_eq_Inr)
  have run: "stringIteratorNew fp str m = bindr (idris2_mkClosure fp 2 0 m5) (\<lambda>(clo, m6). idris2_makeGCPointer (?a 0) clo m6)"
    using stringIteratorNew_blocks [OF assms(1-4)] by (simp add: m5_def)
  define g where "g = \<lparr>refCounter = 1, tag = NO_TAG, payload = No_payload\<rparr>"
  define g' where "g' = \<lparr>refCounter = 1, tag = GC_POINTER_TAG, payload = Idris2_GCPointer (?a 4) (?a 2)\<rparr>"
  define m6 where "m6 = alloc_obj \<lparr>refCounter = 1, tag = CLOSURE_TAG, payload = Idris2_Closure fp 2 0 []\<rparr> m5"
  define m8 where "m8 = alloc_obj \<lparr>refCounter = 1, tag = POINTER_TAG, payload = Idris2_Pointer (?a 0)\<rparr> (alloc_obj g m6)"
  define m9 where "m9 = put_obj (?a 3) g' m8"
  have b: "brk m5 = brk m + 2" "brk m6 = brk m + 3" "brk m8 = brk m + 5" "lim m5 = lim m" "lim m6 = lim m" "lim m8 = lim m"
    by (simp_all add: m5_def m6_def m8_def)
  have wf5: "rt_wf m5" unfolding m5_def using assms(1,2) by (intro rt_wf_alloc_blk) simp_all
  have wf6: "rt_wf m6" unfolding m6_def using wf5 b assms(2) by (simp add: rt_wf_alloc_obj)
  have wf7: "rt_wf (alloc_obj g m6)" using wf6 b assms(2) by (simp add: rt_wf_alloc_obj)
  have wf8: "rt_wf m8" unfolding m8_def using wf7 b assms(2) by (simp add: rt_wf_alloc_obj)
  have dyn: "dynamic m8 (?a j)" if "j < 5" for j using that mem_wf_brk [OF wf] b by (auto simp: dynamic_def)
  have objs8: "objs m8 (?a 3) = Some g" "objs m8 (?a 4) = Some \<lparr>refCounter = 1, tag = POINTER_TAG, payload = Idris2_Pointer (?a 0)\<rparr>"
    using inj [of 3 4] b by (simp_all add: m8_def add.commute [of 4])
  have "idris2_mkClosure fp 2 0 m5 = Inr (?a 2, m6)"
    using b assms(2) by (simp add: idris2_mkClosure_def new_tagged_cases [OF rt_wf_mem_wf [OF wf5]] m6_def)
  moreover have "idris2_makeGCPointer (?a 0) (?a 2) m6 = Inr (?a 3, m9)"
  proof -
    have "idris2_newValue 24 m6 = Inr (?a 3, alloc_obj g m6)"
      using b assms(2) idris2_newValue_cases [OF rt_wf_mem_wf [OF wf6], of 24] by (simp add: g_def)
    moreover have "idris2_makePointer (?a 0) (alloc_obj g m6) = Inr (?a 4, m8)"
      using b assms(2) new_tagged_cases [OF rt_wf_mem_wf [OF wf7], of 16]
      by (simp add: idris2_makePointer_def m8_def add.commute [of 4])
    moreover have "set_payload (?a 3) GC_POINTER_TAG (Idris2_GCPointer (?a 4) (?a 2)) m8 = Inr m9"
      using objs8 fresh [of 3] by (simp add: set_payload_def get_obj_def m9_def g_def g'_def)
    ultimately show ?thesis by (simp add: idris2_makeGCPointer_def)
  qed
  moreover have "iter (?a 3) (?a 4) (?a 0) (?a 1) (blks m) s 0 m9"
  proof -
    have "blks m9 = (blks m)(?a 0 \<mapsto> Ptrs [Some (?a 1), Some 0], ?a 1 \<mapsto> Bytes (map Some (s @ [0])))"
      by (simp add: m9_def m8_def m6_def m5_def)
    moreover have "rt_wf m9" unfolding m9_def using wf8 objs8 dyn [of 3] by (intro rt_wf_put_obj) simp_all
    moreover have "dynamic m9 (?a 3)" "dynamic m9 (?a 0)" using dyn [of 3] dyn [of 0] dynamic_mono [of m8 _ m9] by (simp_all add: m9_def)
    moreover have "objs m9 (?a 3) = Some g'" "get_pointer (?a 4) m9 = Inr (?a 0)"
      using objs8 inj [of 3 4] fresh [of 4] by (simp_all add: m9_def get_pointer_def get_obj_def)
    ultimately show ?thesis using fresh [of 0] fresh [of 1] fresh [of 3] inj [of 0 1] nul assms(4)
      by (simp add: iter_def g'_def)
  qed
  moreover have "brk m9 = brk m + 5" "lim m9 = lim m" using b by (simp_all add: m9_def)
  moreover have "m9 = m'"
    using inj [of 3 4]
    by (intro mem.equality) (simp_all add: m'_def iter_mem_def m9_def m8_def m6_def m5_def put_obj_def alloc_obj_def
        alloc_blk_def g'_def iter_object_def iter_closure_def iter_pointer_def fun_upd_twist eval_nat_numeral)
  ultimately show ?thesis using run by (simp add: p_def)
qed

text \<open>The finaliser frees the copy and the structure, at whatever position the iterator is.\<close>

lemma onCollect_frees:
  assumes "iter p q it buf B s i m"
  shows "\<exists>m'. onCollectStringIterator q m = Inr (0, m') \<and> blks m' = B \<and> objs m' = objs m"
  using assms iter_read(2) [OF assms]
  by (auto simp: iter_def onCollectStringIterator_def c_free_def fun_upd_twist fun_upd_idem)

text \<open>String iterators: with room for five objects and one cell per character, \<open>stringIteratorNew\<close> followed by
  repeated \<open>stringIteratorNext\<close> yields exactly the characters of the string, in order, and then the end;
  the iterator's finaliser then frees both blocks the iterator owns, so that the blocks in memory are
  again those from before.\<close>

theorem stringIterator_unpacks:
  assumes "rt_wf m" "c_string str 0 m = Inr s" "length s < 2 ^ 31 - 1" "brk m + length s + 5 \<le> lim m"
  shows "\<exists>p q clo v m1 m2 m3. stringIteratorNew fp str m = Inr (p, m1) \<and>
    walk stringIteratorNext (Suc (length s)) p m1 = Inr (map char_val s, m2) \<and>
    objs m2 p = Some v \<and> payload v = Idris2_GCPointer q clo \<and>
    onCollectStringIterator q m2 = Inr (0, m3) \<and> blks m3 = blks m"
proof -
  obtain p q it buf m1 where new: "stringIteratorNew fp str m = Inr (p, m1)" "iter p q it buf (blks m) s 0 m1"
    "brk m1 = brk m + 5" "lim m1 = lim m"
    using stringIteratorNew_result [OF assms(1) _ assms(2,3), of fp] assms(4) by fastforce
  have "\<exists>i. iter p q it buf (blks m) s i m1 \<and> map char_val s = map char_val (drop i s)" using new(2) by auto
  from str_iter.walk_items [OF this] obtain m2 i where
    "walk stringIteratorNext (Suc (length s)) p m1 = Inr (map char_val s, m2)" "iter p q it buf (blks m) s i m2"
    using new(3,4) assms(4) by auto
  then show ?thesis using new(1) onCollect_frees [of p q it buf "blks m" s i m2] by (auto simp: iter_def)
qed

theorem stringIterator_unpacks_witness:
  "\<exists>p q clo v m1 m2 m3. stringIteratorNew 8 (addr_of 304) (init_mem 1000) = Inr (p, m1) \<and>
    walk stringIteratorNext (Suc (length [0x4C, 0x69, 0x6E, 0x75, 0x78 :: byte])) p m1 =
      Inr (map char_val [0x4C, 0x69, 0x6E, 0x75, 0x78], m2) \<and>
    objs m2 p = Some v \<and> payload v = Idris2_GCPointer q clo \<and>
    onCollectStringIterator q m2 = Inr (0, m3) \<and> blks m3 = blks (init_mem 1000)"
  by (rule stringIterator_unpacks [OF rt_wf_example])
    (simp_all add: init_mem_def unat_addr_of static_obj_def static_blk_def c_string_def get_bytes_def addr_of_nonzero static_end_def)

end
