(* ===== verification/Iterator_Lifecycle.thy ===== *)
theory Iterator_Lifecycle
  imports Iterator_Correct Remove_Reference
begin

text \<open>
  The whole life of a string iterator: it is made, asked for characters until the end, and collected, with
  every reference dropped the way the code that the compiler emits does it. The finaliser is reached
  through \<open>idris2_removeReference\<close> of the last reference, which applies the closure in the object to
  the pointer and to the world token. Nothing of the iterator is left in memory.
\<close>

text \<open>The emitted loop. The wrapper of a foreign function drops the references to its arguments after the
  call; a match on the result takes references to the fields and drops the one to the cell. \<open>fuel\<close> is for
  the recursion of \<open>idris2_removeReference\<close>, the number \<open>n\<close> bounds the calls.\<close>

primrec iterate :: "nat \<Rightarrow> code \<Rightarrow> nat \<Rightarrow> addr \<Rightarrow> mem \<Rightarrow> (addr list \<times> mem) res" where
  "iterate fuel code 0 it m = Inl Out_of_fuel"
| "iterate fuel code (Suc n) it m =
     bindr (stringIteratorNext it m) (\<lambda>(r, m1).
     bindr (idris2_removeReference fuel code it m1) (\<lambda>m2.
     if r = 0 then Inr ([], m2)
     else bindr (get_arg r 0 m2) (\<lambda>c.
          bindr (get_arg r 1 m2) (\<lambda>it1.
          bindr (idris2_newReference c m2) (\<lambda>(c', m3).
          bindr (idris2_newReference it1 m3) (\<lambda>(it2, m4).
          bindr (idris2_removeReference fuel code r m4) (\<lambda>m5.
          bindr (iterate fuel code n it2 m5) (\<lambda>(cs, m6). Inr (c' # cs, m6)))))))))"

section \<open>The memory with an iterator\<close>

lemma rt_wf_brk: "rt_wf m \<Longrightarrow> brk m \<le> b \<Longrightarrow> b \<le> lim m \<Longrightarrow> rt_wf (m\<lparr>brk := b\<rparr>)"
proof -
  assume "rt_wf m" "brk m \<le> b" "b \<le> lim m"
  moreover have "addr_of ` {0<..<brk m} \<subseteq> addr_of ` {0<..<b}" using \<open>brk m \<le> b\<close> by (intro image_mono) auto
  ultimately show ?thesis by (auto simp: rt_wf_def mem_wf_def statics_ok_def)
qed

lemma rt_wf_iter_mem:
  assumes "rt_wf m" "brk m + 5 \<le> b" "b \<le> lim m"
  shows "rt_wf (iter_mem fp m s i b)"
proof -
  let ?m1 = "alloc_blk (Ptrs [Some (addr_of (brk m + 1)), Some (word_of_nat i)]) m"
  let ?m2 = "alloc_blk (Bytes (map Some (s @ [0]))) ?m1"
  let ?m3 = "alloc_obj (iter_closure fp) ?m2"
  let ?m4 = "alloc_obj (iter_object m) ?m3"
  let ?m5 = "alloc_obj (iter_pointer m) ?m4"
  have "rt_wf ?m1" using assms by (intro rt_wf_alloc_blk) simp_all
  then have "rt_wf ?m2" using assms by (simp add: rt_wf_alloc_blk)
  then have "rt_wf ?m3" using assms by (simp add: rt_wf_alloc_obj)
  then have "rt_wf ?m4" using assms by (simp add: rt_wf_alloc_obj)
  then have "rt_wf ?m5" using assms by (simp add: rt_wf_alloc_obj)
  then have "rt_wf (?m5\<lparr>brk := b\<rparr>)" using assms by (intro rt_wf_brk) simp_all
  also have "?m5\<lparr>brk := b\<rparr> = iter_mem fp m s i b"
    by (intro mem.equality) (simp_all add: iter_mem_def alloc_obj_def alloc_blk_def eval_nat_numeral)
  finally show ?thesis .
qed

lemma iter_mem_iter:
  assumes "rt_wf m" "brk m + 5 \<le> b" "b \<le> lim m" "0 \<notin> set s" "i \<le> length s" "length s < 2 ^ 31 - 1"
  shows "iter (addr_of (brk m + 3)) (addr_of (brk m + 4)) (addr_of (brk m)) (addr_of (brk m + 1)) (blks m) s i
    (iter_mem fp m s i b)"
proof -
  have n: "brk m + (lim m - brk m) \<le> lim m" using assms(2,3) by simp
  note fresh = fresh_run(1) [OF rt_wf_mem_wf [OF assms(1)] n] and inj = fresh_run(2) [OF rt_wf_mem_wf [OF assms(1)] n]
  have "dynamic (iter_mem fp m s i b) (addr_of (brk m + 3))" "dynamic (iter_mem fp m s i b) (addr_of (brk m))"
    using mem_wf_brk [OF rt_wf_mem_wf [OF assms(1)]] assms(2) by (auto simp: dynamic_def iter_mem_def)
  then show ?thesis
    using assms rt_wf_iter_mem [OF assms(1-3), of fp s i] fresh [of 0] fresh [of 1] fresh [of 3] fresh [of 4] inj [of 0 1] inj [of 3 4]
    by (simp add: iter_def get_pointer_def get_obj_def) (simp add: iter_mem_def iter_object_def iter_pointer_def)
qed

section \<open>One turn of the loop\<close>

lemma char_val_unboxed [simp]: "idris2_vp_is_unboxed (char_val c)"
  by (simp add: idris2_mkChar_def mk_is_unboxed)

text \<open>Dropping and taking a reference to an object that others hold too.\<close>

lemma removeReference_shared:
  assumes "objs m p = Some v" "p \<noteq> 0" "\<not> idris2_vp_is_unboxed p" "refCounter v \<noteq> IDRIS2_VP_REFCOUNTER_MAX" "refCounter v \<noteq> 1"
  shows "idris2_removeReference (Suc fuel) code p m = Inr (put_obj p (v\<lparr>refCounter := refCounter v - 1\<rparr>) m)"
  using assms by (simp add: get_obj_def)

lemma newReference_shared:
  assumes "objs m p = Some v" "p \<noteq> 0" "\<not> idris2_vp_is_unboxed p" "refCounter v \<noteq> IDRIS2_VP_REFCOUNTER_MAX"
  shows "idris2_newReference p m = Inr (p, put_obj p (v\<lparr>refCounter := refCounter v + 1\<rparr>) m)"
  using assms by (simp add: idris2_newReference_def get_obj_def)

text \<open>Dropping the only reference to a result cell gives back the cell and the reference in its second field.\<close>

lemma removeReference_cell:
  assumes "objs m r = Some (cell (Some (char_val c)) (Some p))" "objs m p = Some v" "blks m r = None"
    and "r \<noteq> p" "r \<noteq> 0" "\<not> idris2_vp_is_unboxed r" "p \<noteq> 0" "\<not> idris2_vp_is_unboxed p"
    and "refCounter v \<noteq> IDRIS2_VP_REFCOUNTER_MAX" "refCounter v \<noteq> 1"
  shows "idris2_removeReference (Suc (Suc fuel)) code r m =
    Inr (m\<lparr>objs := (objs m)(r := None, p \<mapsto> v\<lparr>refCounter := refCounter v - 1\<rparr>)\<rparr>)"
proof -
  let ?m' = "put_obj p (v\<lparr>refCounter := refCounter v - 1\<rparr>) m"
  have two: "[0..<2] = [0, 1 :: nat]" by (simp add: upt_rec)
  have "idris2_removeReference (Suc fuel) code (char_val c) m = Inr m" by simp
  then have "release_fields (idris2_removeReference (Suc fuel) code) (idris2_apply_closure (Suc fuel) code) r
      (cell (Some (char_val c)) (Some p)) m = Inr ?m'"
    using assms cell_get [OF assms(1,5)] removeReference_shared [OF assms(2,7-10), of fuel code]
    by (simp add: release_fields_def cell_def tag_defs two del: idris2_removeReference.simps(2))
  moreover have "c_free r ?m' = Inr (m\<lparr>objs := (objs m)(r := None, p \<mapsto> v\<lparr>refCounter := refCounter v - 1\<rparr>)\<rparr>)"
    using assms(1,3,4,5) by (simp add: c_free_def put_obj_def fun_upd_twist)
  ultimately show ?thesis
    using assms(1,5,6) by (simp add: get_obj_def cell_def IDRIS2_VP_REFCOUNTER_MAX_def)
qed

lemma iterate_step:
  assumes "rt_wf m" "brk m + 5 \<le> b" "b < lim m" "0 \<notin> set s" "i < length s" "length s < 2 ^ 31 - 1" "2 \<le> fuel"
  shows "iterate fuel code (Suc n) (addr_of (brk m + 3)) (iter_mem fp m s i b) =
    bindr (iterate fuel code n (addr_of (brk m + 3)) (iter_mem fp m s (Suc i) (Suc b)))
      (\<lambda>(cs, m'). Inr (char_val (s ! i) # cs, m'))"
proof -
  let ?M = "iter_mem fp m s i b" and ?p = "addr_of (brk m + 3)" and ?r = "addr_of b" and ?o = "iter_object m"
  let ?C = "cell (Some (char_val (s ! i))) (Some ?p)"
  obtain f where "fuel = 2 + f" using le_Suc_ex [OF assms(7)] by blast
  then have f: "fuel = Suc (Suc f)" by simp
  have n: "brk m + (lim m - brk m) \<le> lim m" using assms(2,3) by simp
  note fresh = fresh_run(1) [OF rt_wf_mem_wf [OF assms(1)] n] and inj = fresh_run(2) [OF rt_wf_mem_wf [OF assms(1)] n]
  have b: "brk m + (b - brk m) = b" "b - brk m < lim m - brk m" "5 \<le> b - brk m" using assms(2,3) by simp_all
  have r: "?r \<noteq> 0" "objs m ?r = None" "blks m ?r = None" using fresh [OF b(2)] by (simp_all add: b(1))
  have rne: "?r \<noteq> addr_of (brk m + j)" if "j < 5" for j
    using inj [of j "b - brk m"] b(2,3) that by (auto simp: b(1))
  have p: "?p \<noteq> 0" "objs ?M ?p = Some ?o" "brk ?M = b" "lim ?M = lim m"
    using fresh [of 3] inj [of 3 4] assms(2,3) by (simp_all add: iter_mem_def)
  have o: "refCounter ?o = 1" by (simp add: iter_object_def)
  define M1 where "M1 = put_obj ?p (?o\<lparr>refCounter := 2\<rparr>) (alloc_obj ?C
      (?M\<lparr>blks := (blks ?M)(addr_of (brk m) \<mapsto> Ptrs [Some (addr_of (brk m + 1)), Some (word_of_nat (Suc i))])\<rparr>))"
  have "referenced ?o = ?o\<lparr>refCounter := 2\<rparr>" by (simp add: referenced_def o IDRIS2_VP_REFCOUNTER_MAX_def)
  then have nxt: "stringIteratorNext ?p ?M = Inr (?r, M1)"
    using iter_next [OF iter_mem_iter [OF assms(1,2) less_imp_le [OF assms(3)] assms(4) less_imp_le [OF assms(5)] assms(6)]
      assms(5), of fp] assms(3) p by (auto simp: M1_def)
  have M1: "objs M1 ?p = Some (?o\<lparr>refCounter := 2\<rparr>)" "objs M1 ?r = Some ?C"
    using rne [of 3] p by (simp_all add: M1_def)
  define M2 where "M2 = put_obj ?p ?o M1"
  have rm: "idris2_removeReference fuel code ?p M1 = Inr M2"
    using removeReference_shared [OF M1(1) p(1), of "Suc f" code] f o
    by (simp add: M2_def IDRIS2_VP_REFCOUNTER_MAX_def) (simp add: iter_object_def)
  have M2: "objs M2 ?p = Some ?o" "objs M2 ?r = Some ?C" using M1 rne [of 3] by (simp_all add: M2_def)
  have args: "get_arg ?r 0 M2 = Inr (char_val (s ! i))" "get_arg ?r 1 M2 = Inr ?p"
    using cell_get [OF M2(2) r(1)] by simp_all
  have ref: "idris2_newReference (char_val (s ! i)) M2 = Inr (char_val (s ! i), M2)" "idris2_newReference ?p M2 = Inr (?p, M1)"
    using newReference_shared [OF M2(1) p(1)] M1(1) o
    by (simp_all add: idris2_newReference_def IDRIS2_VP_REFCOUNTER_MAX_def) (simp add: M2_def put_obj_def fun_upd_idem)
  have "blks M1 ?r = None" using r rne [of 0] rne [of 1] by (simp add: M1_def iter_mem_def)
  then have "idris2_removeReference fuel code ?r M1 = Inr (M1\<lparr>objs := (objs M1)(?r := None, ?p \<mapsto> ?o)\<rparr>)"
    using removeReference_cell [OF M1(2,1), of f code] r rne [of 3] p(1) f o
    by (simp add: IDRIS2_VP_REFCOUNTER_MAX_def iter_object_def)
  also have "M1\<lparr>objs := (objs M1)(?r := None, ?p \<mapsto> ?o)\<rparr> = iter_mem fp m s (Suc i) (Suc b)"
    using r(2) rne [of 2] rne [of 3] rne [of 4] p inj [of 3 4] inj [of 0 1] assms(2,3)
    by (intro mem.equality) (auto simp: M1_def iter_mem_def put_obj_def alloc_obj_def fun_eq_iff)
  finally have "idris2_removeReference fuel code ?r M1 = Inr (iter_mem fp m s (Suc i) (Suc b))" .
  then show ?thesis using nxt rm args ref r(1) by simp
qed

section \<open>The finaliser\<close>

text \<open>Applying a closure nobody else holds: the new closure has one argument more, the old one is freed.\<close>

lemma tailcall_unique:
  assumes "mem_wf m" "brk m < lim m" "unat k < 255" "length args = unat k"
    and "objs m clo = Some \<lparr>refCounter = 1, tag = CLOSURE_TAG, payload = Idris2_Closure f ar k (map Some args)\<rparr>"
  shows "idris2_tailcall_apply_closure clo x m = Inr (addr_of (brk m), m\<lparr>
    objs := (objs m)(clo := None, addr_of (brk m) \<mapsto>
      \<lparr>refCounter = 1, tag = CLOSURE_TAG, payload = Idris2_Closure f ar (k + 1) (map Some (args @ [x]))\<rparr>),
    brk := Suc (brk m)\<rparr>)"
proof -
  let ?q = "addr_of (brk m)"
  let ?o = "\<lambda>as. \<lparr>refCounter = 1, tag = CLOSURE_TAG, payload = Idris2_Closure f ar (k + 1) as\<rparr>"
  note fresh = mem_wf_fresh [OF assms(1)]
  have k: "unat (k + 1) = Suc (unat k)" using assms(3) by (simp add: unat_add_lem [THEN iffD1])
  have clo: "clo \<noteq> 0" "clo \<noteq> ?q" "blks m clo = None"
    using mem_wf_live [OF assms(1), of clo] assms(1,5) by (auto simp: mem_wf_def)
  have "idris2_mkClosure f ar (k + 1) m = Inr (?q, alloc_obj (?o (replicate (Suc (unat k)) None)) m)"
    using assms(2,3) k by (simp add: idris2_mkClosure_def new_tagged_cases [OF assms(1)] del: replicate_Suc)
  moreover have "set_args ?q (map Some args @ [None]) (alloc_obj (?o (replicate (Suc (unat k)) None)) m) =
      Inr (alloc_obj (?o (map Some args @ [None])) m)"
    using fresh by (simp add: set_args_def get_obj_def put_obj_def alloc_obj_def)
  moreover have "drop (unat k) (replicate (Suc (unat k)) None) = [None :: addr option]" by (simp only: drop_replicate) simp
  moreover have "set_arg ?q (uint k) x (alloc_obj (?o (map Some args @ [None])) m) = Inr (alloc_obj (?o (map Some (args @ [x]))) m)"
  proof -
    have "uint k = int (length args)" using assms(4) by simp
    then show ?thesis
      using fresh
      by (simp add: set_arg_def set_args_def get_args_def upd_res_def get_obj_def put_obj_def alloc_obj_def list_update_append)
  qed
  moreover have "drop_closure clo (alloc_obj (?o (map Some (args @ [x]))) m) = Inr (m\<lparr>
      objs := (objs m)(clo := None, ?q \<mapsto> ?o (map Some (args @ [x]))), brk := Suc (brk m)\<rparr>)"
    using clo assms(5) by (simp add: drop_closure_def idris2_isUnique_def get_obj_def c_free_def alloc_obj_def fun_upd_twist)
  ultimately show ?thesis
    using clo fresh assms(4,5)
    by (simp add: idris2_tailcall_apply_closure_def get_closure_def get_obj_def get_args_def del: replicate_Suc)
qed

lemma mem_wf_freed: "mem_wf m \<Longrightarrow> mem_wf (m\<lparr>objs := (objs m)(p := None)\<rparr>)"
  unfolding mem_wf_def by auto

lemma mem_wf_tailcall:
  assumes "mem_wf m" "brk m < lim m" "clo \<noteq> addr_of (brk m)"
  shows "mem_wf (m\<lparr>objs := (objs m)(clo := None, addr_of (brk m) \<mapsto> v), brk := Suc (brk m)\<rparr>)"
  using mem_wf_freed [OF mem_wf_alloc_obj [OF assms(1,2), of v], of clo] assms(3)
  by (simp add: alloc_obj_def fun_upd_twist mem_wf_def)

text \<open>What happens to the closure of a pointer with a finaliser, which takes the pointer \<open>q\<close> and the world token: it is
  extended by one argument and then by the other, the finaliser is called once, and no closure is left.\<close>

lemma apply_finaliser:
  fixes q :: addr
  assumes "mem_wf m" "Suc (brk m) < lim m"
    and clo: "objs m clo = Some \<lparr>refCounter = 1, tag = CLOSURE_TAG, payload = Idris2_Closure fp 2 0 []\<rparr>"
  defines "c1 \<equiv> addr_of (brk m)" and "c2 \<equiv> addr_of (Suc (brk m))"
  defines "m2 \<equiv> m\<lparr>objs := (objs m)(clo := None, c2 \<mapsto> \<lparr>refCounter = 1, tag = CLOSURE_TAG,
      payload = Idris2_Closure fp 2 2 [Some q, Some 0]\<rparr>), brk := Suc (Suc (brk m))\<rparr>"
  assumes run: "code fp (Args [q, 0]) m2 = Inr (0, m3)" "objs m3 c2 = objs m2 c2" "blks m3 c2 = None"
  obtains m1 where "idris2_apply_closure (Suc (Suc g)) code clo q m = Inr (c1, m1)"
    "idris2_apply_closure (Suc (Suc g)) code c1 0 m1 = Inr (0, m3\<lparr>objs := (objs m3)(c2 := None)\<rparr>)"
proof -
  let ?o = "\<lambda>k as. \<lparr>refCounter = 1, tag = CLOSURE_TAG, payload = Idris2_Closure fp 2 k as\<rparr>"
  define m1 where "m1 = m\<lparr>objs := (objs m)(clo := None, c1 \<mapsto> ?o 1 [Some q]), brk := Suc (brk m)\<rparr>"
  note fresh = mem_wf_fresh [OF assms(1)]
  have "clo \<noteq> c1" using mem_wf_live [OF assms(1), of clo] clo by (simp add: c1_def)
  then have t1: "idris2_tailcall_apply_closure clo q m = Inr (c1, m1)" "mem_wf m1"
    using tailcall_unique [of m 0 "[]" clo fp 2 q] mem_wf_tailcall [OF assms(1), of clo] assms(1,2) clo
    by (simp_all add: m1_def c1_def)
  have o1: "objs m1 c1 = Some (?o 1 (map Some [q]))" by (simp add: m1_def)
  have "c1 \<noteq> c2" using addr_of_inj [of "brk m" "Suc (brk m)"] assms(1,2) by (simp add: c1_def c2_def mem_wf_def)
  then have "idris2_tailcall_apply_closure c1 0 m1 = Inr (c2, m2)"
    using tailcall_unique [OF t1(2) _ _ _ o1, of 0] assms(2) fresh(1) \<open>clo \<noteq> c1\<close>
    by (auto simp: m1_def m2_def c1_def c2_def fun_upd_twist fun_upd_idem)
  moreover have "c2 \<noteq> 0" "\<not> idris2_vp_is_unboxed c2" using mem_wf_fresh(3) [OF t1(2)] by (simp_all add: m1_def c2_def)
  moreover have o2: "objs m2 c2 = Some (?o 2 [Some q, Some 0])" by (simp add: m2_def)
  moreover have "read_args 2 [Some q, Some 0] = Inr [q, 0]" by (simp add: numeral_2_eq_2 nth_res_def)
  ultimately have "idris2_apply_closure (Suc (Suc g)) code c1 0 m1 = Inr (0, m3\<lparr>objs := (objs m3)(c2 := None)\<rparr>)"
    using run by (simp add: idris2_apply_closure_def idris2_dispatch_closure_def get_closure_def get_obj_def
        drop_closure_def idris2_isUnique_def c_free_def)
  moreover have "idris2_apply_closure (Suc (Suc g)) code clo q m = Inr (c1, m1)"
    using t1(1) o1 fresh(3) by (simp add: idris2_apply_closure_def get_obj_def get_closure_def c1_def)
  ultimately show thesis using that by simp
qed

text \<open>The last reference to the iterator.\<close>

lemma removeReference_iterator:
  assumes "rt_wf m" "brk m + 5 \<le> b" "b + 2 \<le> lim m"
    and code: "\<And>x m. code fp (Args [x, 0]) m = onCollectStringIterator x m"
  shows "idris2_removeReference (Suc (Suc (Suc g))) code (addr_of (brk m + 3)) (iter_mem fp m s i b) = Inr (m\<lparr>brk := b + 2\<rparr>)"
proof -
  let ?M = "iter_mem fp m s i b" and ?a = "\<lambda>j. addr_of (brk m + j)"
  have n: "brk m + (lim m - brk m) \<le> lim m" using assms(2,3) by simp
  note fresh = fresh_run(1) [OF rt_wf_mem_wf [OF assms(1)] n] and inj = fresh_run(2) [OF rt_wf_mem_wf [OF assms(1)] n]
  define c where "c = b - brk m"
  have b: "b = brk m + c" "5 \<le> c" "c + 2 \<le> lim m - brk m" using assms(2,3) by (simp_all add: c_def)
  have ne: "?a j \<noteq> ?a k" if "j \<noteq> k" "j < c + 2" "k < c + 2" for j k using inj [of j k] that b by simp
  have nz: "?a j \<noteq> 0" "objs m (?a j) = None" "blks m (?a j) = None" if "j < c + 2" for j using fresh [of j] that b by simp_all
  define m2 where "m2 = ?M\<lparr>objs := (objs ?M)(?a 2 := None, ?a (Suc c) \<mapsto> \<lparr>refCounter = 1, tag = CLOSURE_TAG,
      payload = Idris2_Closure fp 2 2 [Some (?a 4), Some 0]\<rparr>), brk := Suc (Suc b)\<rparr>"
  define m4 where "m4 = m\<lparr>objs := (objs m)(?a 3 \<mapsto> iter_object m, ?a 4 \<mapsto> iter_pointer m), brk := b + 2\<rparr>"
  have M: "mem_wf ?M" "brk ?M = b" "lim ?M = lim m" "objs ?M (?a 2) = Some (iter_closure fp)"
    using rt_wf_mem_wf [OF rt_wf_iter_mem [OF assms(1,2)]] assms(3) ne [of 2 3] ne [of 2 4] b by (simp_all add: iter_mem_def)
  have "get_pointer (?a 4) m2 = Inr (?a 0)" "blks m2 = (blks m)(?a 0 \<mapsto> Ptrs [Some (?a 1), Some (word_of_nat i)],
      ?a 1 \<mapsto> Bytes (map Some (s @ [0])))"
    using nz [of 4] ne [of 4 2] ne [of 4 3] ne [of 4 "Suc c"] b
    by (simp_all add: m2_def iter_mem_def get_pointer_def get_obj_def iter_pointer_def)
  then have "code fp (Args [?a 4, 0]) m2 = Inr (0, m2\<lparr>blks := blks m\<rparr>)"
    using nz [of 0] nz [of 1] ne [of 0 1] b code
    by (simp add: onCollectStringIterator_def load_ptr_def get_ptrs_def nth_res_def c_free_def fun_upd_twist fun_upd_idem)
  then obtain m1 where "idris2_apply_closure (Suc (Suc g)) code (?a 2) (?a 4) ?M = Inr (?a c, m1)"
    "idris2_apply_closure (Suc (Suc g)) code (?a c) 0 m1 = Inr (0, m2\<lparr>blks := blks m, objs := (objs m2)(?a (Suc c) := None)\<rparr>)"
    using apply_finaliser [of ?M "?a 2" fp code "?a 4" "m2\<lparr>blks := blks m\<rparr>" g] M assms(3) b nz [of "Suc c"]
    by (auto simp: m2_def iter_closure_def)
  moreover have "m2\<lparr>blks := blks m, objs := (objs m2)(?a (Suc c) := None)\<rparr> = m4"
    using nz [of 2] nz [of "Suc c"] ne [of 2 3] ne [of 2 4] ne [of "Suc c" 3] ne [of "Suc c" 4] b
    by (intro mem.equality) (auto simp: m4_def m2_def iter_mem_def fun_eq_iff)
  moreover have "idris2_removeReference (Suc (Suc g)) code (?a 4) m4 = Inr (m4\<lparr>objs := (objs m4)(?a 4 := None)\<rparr>)"
    using nz [of 4] b
    by (simp add: m4_def iter_pointer_def get_obj_def release_fields_def tag_defs c_free_def IDRIS2_VP_REFCOUNTER_MAX_def)
  moreover have "c_free (?a 3) (m4\<lparr>objs := (objs m4)(?a 4 := None)\<rparr>) = Inr (m\<lparr>brk := b + 2\<rparr>)"
    using nz [of 3] nz [of 4] ne [of 3 4] b by (simp add: m4_def c_free_def fun_upd_idem fun_upd_twist)
  moreover have "objs ?M (?a 3) = Some (iter_object m)" "objs m4 (?a 3) = Some (iter_object m)" "?a 3 \<noteq> 0"
    using nz [of 3] ne [of 3 4] b by (simp_all add: m4_def iter_mem_def)
  ultimately show ?thesis
    by (simp add: get_obj_def iter_object_def release_fields_def tag_defs IDRIS2_VP_REFCOUNTER_MAX_def)
qed

section \<open>From the first call to the last\<close>

lemma iterate_result:
  assumes "rt_wf m" "0 \<notin> set s" "length s < 2 ^ 31 - 1" "3 \<le> fuel"
    and code: "\<And>x m. code fp (Args [x, 0]) m = onCollectStringIterator x m"
    and "i + n = length s" "brk m + 5 \<le> b" "b + n + 2 \<le> lim m"
  shows "iterate fuel code (Suc n) (addr_of (brk m + 3)) (iter_mem fp m s i b) =
    Inr (map char_val (drop i s), m\<lparr>brk := b + n + 2\<rparr>)"
  using assms(6-8)
proof (induction n arbitrary: i b)
  case 0
  obtain g where "fuel = 3 + g" using le_Suc_ex [OF assms(4)] by blast
  then have g: "fuel = Suc (Suc (Suc g))" by simp
  have "iter (addr_of (brk m + 3)) (addr_of (brk m + 4)) (addr_of (brk m)) (addr_of (brk m + 1)) (blks m) s (length s)
      (iter_mem fp m s i b)"
    using iter_mem_iter [OF assms(1), of b s i fp] assms(2,3) 0 by simp
  then have "stringIteratorNext (addr_of (brk m + 3)) (iter_mem fp m s i b) = Inr (0, iter_mem fp m s i b)"
    by (rule iter_end)
  then show ?case
    using removeReference_iterator [of m b code fp g s i, OF assms(1) _ _ code] 0 g
    by (simp del: idris2_removeReference.simps)
next
  case (Suc n)
  then have i: "i < length s" "Suc i + n = length s" "b < lim m" "Suc b + n + 2 \<le> lim m" by simp_all
  have "iterate fuel code (Suc n) (addr_of (brk m + 3)) (iter_mem fp m s (Suc i) (Suc b)) =
      Inr (map char_val (drop (Suc i) s), m\<lparr>brk := Suc b + n + 2\<rparr>)"
    using Suc.IH [OF i(2) _ i(4)] Suc.prems(2) by simp
  then show ?case
    using iterate_step [OF assms(1) Suc.prems(2) i(3) assms(2) i(1) assms(3), of fuel code "Suc n" fp] assms(4)
      Cons_nth_drop_Suc [OF i(1)]
    by (simp del: iterate.simps(2)) (metis list.simps(9))
qed

text \<open>C9. The life of a string iterator. With room for seven objects and one cell per character,
  \<open>stringIteratorNew\<close> followed by the loop that the compiler emits (call \<open>stringIteratorNext\<close>, drop the
  iterator, take the fields of the result, drop the result) yields exactly the characters of the string,
  in order. When the end is reached the last reference is dropped, which runs the finaliser
  through the closure in the object, and every object and block in memory is as it was
  before the iterator was made: nothing is leaked, and nothing else is touched. (\<open>fp\<close> is the address of
  \<open>onCollectStringIterator\<close>.)\<close>

theorem stringIterator_lifecycle:
  assumes "rt_wf m" "c_string str 0 m = Inr s" "length s < 2 ^ 31 - 1" "brk m + length s + 7 \<le> lim m" "3 \<le> fuel"
    and "\<And>x m. code fp (Args [x, 0]) m = onCollectStringIterator x m"
  shows "\<exists>p m1 m2. stringIteratorNew fp str m = Inr (p, m1) \<and>
    iterate fuel code (Suc (length s)) p m1 = Inr (map char_val s, m2) \<and> objs m2 = objs m \<and> blks m2 = blks m"
proof -
  have "0 \<notin> set s" using assms(2) until_nul_no_zero by (fastforce simp: c_string_def bindr_eq_Inr)
  then show ?thesis
    using stringIteratorNew_result [OF assms(1) _ assms(2,3), of fp]
      iterate_result [of m s fuel code fp 0 "length s" "brk m + 5", OF assms(1) _ assms(3,5,6)] assms(4)
    by (simp del: iterate.simps)
qed

theorem stringIterator_lifecycle_witness:
  "\<exists>p m1 m2. stringIteratorNew 8 (addr_of 304) (init_mem 1000) = Inr (p, m1) \<and>
    iterate 3 (\<lambda>f xs m. case xs of Args (x # _) \<Rightarrow> onCollectStringIterator x m | _ \<Rightarrow> Inl (Exit 1))
      (Suc (length [0x4C, 0x69, 0x6E, 0x75, 0x78 :: byte])) p m1 = Inr (map char_val [0x4C, 0x69, 0x6E, 0x75, 0x78], m2) \<and>
    objs m2 = objs (init_mem 1000) \<and> blks m2 = blks (init_mem 1000)"
  by (rule stringIterator_lifecycle [OF rt_wf_example])
    (simp_all add: init_mem_def unat_addr_of static_obj_def static_blk_def c_string_def get_bytes_def addr_of_nonzero static_end_def)

end
