(* ===== verification/Concurrency_Correct.thy ===== *)
theory Concurrency_Correct
  imports Prim_Correct
begin

text \<open>
  The mutexes and condition variables of \<open>refc/prim.c\<close>: what is made, which POSIX object the operations act
  on, what dropping the last reference releases, and which deadline a wait with a timeout passes on.
\<close>

text \<open>\<open>pthread_mutex_init\<close> and \<open>pthread_cond_init\<close> write to the object they are given and to nothing else.\<close>

definition pthread_documented :: "pthread \<Rightarrow> bool" where
  "pthread_documented P \<longleftrightarrow> (\<forall>x m. blks m x \<noteq> None \<longrightarrow>
     (\<exists>b. snd (pthread_mutex_init P x m) = m\<lparr>blks := (blks m)(x \<mapsto> b)\<rparr>) \<and>
     (\<exists>b. snd (pthread_cond_init P x m) = m\<lparr>blks := (blks m)(x \<mapsto> b)\<rparr>))"

text \<open>Dropping the only reference to an object whose tag has no case in \<open>idris2_removeReference\<close>.\<close>

lemma removeReference_default:
  assumes "objs m p = Some \<lparr>refCounter = 1, tag = t, payload = pl\<rparr>" "blks m p = None" "p \<noteq> 0" "\<not> idris2_vp_is_unboxed p"
    and "t = MUTEX_TAG \<or> t = CONDITION_TAG"
  shows "idris2_removeReference (Suc fuel) code p m = Inr (m\<lparr>objs := (objs m)(p := None)\<rparr>)"
  using assms by (auto simp: get_obj_def release_fields_def tag_defs c_free_def IDRIS2_VP_REFCOUNTER_MAX_def)

text \<open>The memory in which the POSIX object is initialised: the new runtime object and its block.\<close>

definition sync_mem :: "8 word \<Rightarrow> payload \<Rightarrow> blk \<Rightarrow> mem \<Rightarrow> mem" where
  "sync_mem t pl b m = alloc_blk b (alloc_obj \<lparr>refCounter = 1, tag = t, payload = pl\<rparr> m)"

lemma sync_created:
  assumes "mem_wf m" "brk m + 2 \<le> lim m" "n < 2 ^ 63"
  defines "p \<equiv> addr_of (brk m)" and "x \<equiv> addr_of (Suc (brk m))"
  obtains m1 m2 where "idris2_newValue 16 m = Inr (p, m1)" "c_malloc n m1 = (x, m2)"
    "set_payload p t pl m2 = Inr (sync_mem t pl (Bytes (replicate n None)) m)"
    "p \<noteq> 0" "x \<noteq> 0" "objs m p = None" "blks m p = None" "blks m x = None" "p \<noteq> x"
proof -
  let ?o = "\<lambda>t pl. \<lparr>refCounter = 1, tag = t, payload = pl\<rparr>"
  let ?m1 = "alloc_obj (?o NO_TAG No_payload) m"
  have wf1: "mem_wf ?m1" using assms by (simp add: mem_wf_alloc_obj)
  note fresh = mem_wf_fresh [OF assms(1)] and fresh1 = mem_wf_fresh [OF wf1]
  have "x = addr_of (brk ?m1)" by (simp add: x_def)
  moreover have "p \<noteq> x" using fresh1(1) by (auto simp: p_def x_def alloc_obj_def)
  moreover have "idris2_newValue 16 m = Inr (p, ?m1)"
    using assms(2) idris2_newValue_cases [OF assms(1), of 16] by (simp add: p_def)
  moreover have "c_malloc n ?m1 = (x, alloc_blk (Bytes (replicate n None)) ?m1)"
    using assms(2,3) by (simp add: c_malloc_def can_alloc_def alloc_blk_def x_def)
  moreover have "set_payload p t pl (alloc_blk (Bytes (replicate n None)) ?m1) = Inr (sync_mem t pl (Bytes (replicate n None)) m)"
    using fresh by (simp add: set_payload_def get_obj_def put_obj_def sync_mem_def alloc_obj_def alloc_blk_def p_def)
  ultimately show thesis using that fresh fresh1 by (auto simp: p_def x_def)
qed


text \<open>POSIX threads that keep no state.\<close>

definition example_pthread :: pthread where
  "example_pthread =
     \<lparr>pthread_mutex_init = \<lambda>_ m. (0, m), pthread_mutex_lock = \<lambda>_ m. (0, m), pthread_mutex_unlock = \<lambda>_ m. (0, m),
      pthread_cond_init = \<lambda>_ m. (0, m), pthread_cond_wait = \<lambda>_ _ m. (0, m), pthread_cond_timedwait = \<lambda>_ _ _ m. (110, m),
      pthread_cond_signal = \<lambda>_ m. (0, m), pthread_cond_broadcast = \<lambda>_ m. (0, m)\<rparr>"

lemma example_pthread_documented: "pthread_documented example_pthread"
proof -
  have "\<exists>b. m = m\<lparr>blks := (blks m)(x \<mapsto> b)\<rparr>" if "blks m x \<noteq> None" for m x
    using that by (intro exI [of _ "the (blks m x)"] mem.equality) (auto simp: fun_eq_iff)
  then show ?thesis unfolding pthread_documented_def example_pthread_def by auto
qed


section \<open>Timeouts\<close>

text \<open>A timeout is in microseconds. The time passed to \<open>pthread_cond_timedwait\<close> has its whole seconds and, as
  nanoseconds, the microseconds that are left: it is the timeout only when that is a whole number of
  seconds. A time-out of the wait is a failed status, so it aborts the program.\<close>

lemma conditionWaitTimeout_deadline:
  assumes "idris2_vp_to_Int64 timeout m = Inr t" "0 \<le> t" "t < 2 ^ 63" "get_condition cond m = Inr c" "get_mutex mut m = Inr x"
  shows "System_Concurrency_Raw_prim__conditionWaitTimeout P cond mut timeout m =
      verify_status (pthread_cond_timedwait P c x (t div 1000000, t mod 1000000) m)"
    and "(t div 1000000) * 1000000000 + t mod 1000000 = t * 1000 \<longleftrightarrow> t mod 1000000 = 0"
    and "fst (pthread_cond_timedwait P c x (t div 1000000, t mod 1000000) m) \<noteq> 0 \<Longrightarrow>
      System_Concurrency_Raw_prim__conditionWaitTimeout P cond mut timeout m = Inl Verify_failed"
proof -
  have "0 \<le> t div 1000000" "t div 1000000 \<le> t"
    using assms(2) zdiv_mono2 [of t 1 1000000] by (simp_all add: pos_imp_zdiv_nonneg_iff)
  then have "c_div Int64 t 1000000 = Inr (t div 1000000)" "c_mod Int64 t 1000000 = Inr (t mod 1000000)"
    using assms(2,3)
    by (simp_all add: c_div_def c_mod_def sdiv_cases smod_cases c_promote_def c_fit_def in_range_code)
  then show run: "System_Concurrency_Raw_prim__conditionWaitTimeout P cond mut timeout m =
      verify_status (pthread_cond_timedwait P c x (t div 1000000, t mod 1000000) m)"
    using assms by (simp add: System_Concurrency_Raw_prim__conditionWaitTimeout_def)
  show "(t div 1000000) * 1000000000 + t mod 1000000 = t * 1000 \<longleftrightarrow> t mod 1000000 = 0"
    using div_mult_mod_eq [of t 1000000] by (intro iffI) linarith+
  show "System_Concurrency_Raw_prim__conditionWaitTimeout P cond mut timeout m = Inl Verify_failed"
    if "fst (pthread_cond_timedwait P c x (t div 1000000, t mod 1000000) m) \<noteq> 0"
    using that by (auto simp: run verify_status_def checkr_def split: prod.split)
qed

end
