(* ===== verification/C_Util.thy ===== *)
theory C_Util
  imports C_Memory
begin

text \<open>
  What the files under \<open>c/\<close> share: the VERIFY macro of \<open>c/idris_util.h\<close>, and \<open>c/idris_memory.c\<close>.
\<close>

text \<open>\<open>IDRIS2_VERIFY(cond, ...)\<close> reports the failure and calls \<open>abort\<close>, as the macro of the runtime does.\<close>

definition idris2_verify_failed :: "'a res" where
  "idris2_verify_failed = Inl Verify_failed"

definition IDRIS2_VERIFY :: "bool \<Rightarrow> unit res" where
  "IDRIS2_VERIFY cond = (if \<not> cond then idris2_verify_failed else Inr ())"

lemma IDRIS2_VERIFY_simps [simp]: "IDRIS2_VERIFY True = Inr ()" "IDRIS2_VERIFY False = Inl Verify_failed"
  by (simp_all add: IDRIS2_VERIFY_def idris2_verify_failed_def)

section \<open>Memory for foreign calls\<close>

definition idris2_malloc :: "int \<Rightarrow> mem \<Rightarrow> (addr \<times> mem) res" where
  "idris2_malloc n m =
     bindr (IDRIS2_VERIFY (n \<ge> 0)) (\<lambda>_.
     if n = 0 then Inr (0, m)
     else let (ptr, m1) = c_malloc (c_size n) m in
          bindr (IDRIS2_VERIFY (ptr \<noteq> 0)) (\<lambda>_. Inr (ptr, m1)))"

definition idris2_free :: "addr \<Rightarrow> mem \<Rightarrow> mem res" where
  "idris2_free ptr m = (if ptr = 0 then Inr m else c_free ptr m)"

definition idrnet_malloc :: "int \<Rightarrow> mem \<Rightarrow> (addr \<times> mem) res" where
  "idrnet_malloc n m = idris2_malloc n m"

definition idrnet_free :: "addr \<Rightarrow> mem \<Rightarrow> mem res" where
  "idrnet_free ptr m = idris2_free ptr m"

end
