(* ===== verification/Signals.thy ===== *)
theory Signals
  imports C_Util
begin

text \<open>
  \<open>c/idris_signal.c\<close> (the POSIX branches).

  The state of the component is the atomic word \<open>signals\<close>, one bit per pending signal, and the actions
  the process has installed. \<open>atomic_uint_fast32_t\<close> is 64 bits wide on the 64-bit targets, so the
  conversions between it and \<open>uint32_t\<close> are written out. \<open>sigaction\<close> succeeds for the signal numbers
  the system lets a program change, a parameter; \<open>raise\<close> and \<open>kill\<close> are parameters.
\<close>

definition N_SIGNALS :: nat where "N_SIGNALS = 32"

datatype handler = SIG_DFL | SIG_IGN | Collect_signal

record sigaction =
  sa_handler :: handler
  sa_mask :: "int set"
  sa_flags :: int

record process =
  signals :: "64 word"
  actions :: "int \<Rightarrow> sigaction"

definition collect_signal_handler :: "int \<Rightarrow> process \<Rightarrow> process res" where
  "collect_signal_handler signum s =
     bindr (IDRIS2_VERIFY (signum \<ge> 0 \<and> signum < int N_SIGNALS)) (\<lambda>_.
       Inr (s\<lparr>signals := signals s OR ucast (push_bit (nat signum) (1 :: 32 word))\<rparr>))"

definition simple_handler :: "handler \<Rightarrow> sigaction" where
  "simple_handler h = \<lparr>sa_handler = h, sa_mask = {}, sa_flags = 0\<rparr>"

text \<open>\<open>sigaction\<close>: installs the action, or fails with \<open>-1\<close>.\<close>

definition c_sigaction :: "(int \<Rightarrow> bool) \<Rightarrow> int \<Rightarrow> sigaction \<Rightarrow> process \<Rightarrow> int \<times> process" where
  "c_sigaction can signum act s =
     (if can signum then (0, s\<lparr>actions := (actions s)(signum := act)\<rparr>) else (-1, s))"

definition ignore_signal :: "(int \<Rightarrow> bool) \<Rightarrow> int \<Rightarrow> process \<Rightarrow> int \<times> process" where
  "ignore_signal can signum s = c_sigaction can signum (simple_handler SIG_IGN) s"

definition default_signal :: "(int \<Rightarrow> bool) \<Rightarrow> int \<Rightarrow> process \<Rightarrow> int \<times> process" where
  "default_signal can signum s = c_sigaction can signum (simple_handler SIG_DFL) s"

definition collect_signal :: "(int \<Rightarrow> bool) \<Rightarrow> int \<Rightarrow> process \<Rightarrow> int \<times> process" where
  "collect_signal can signum s = c_sigaction can signum (simple_handler Collect_signal) s"

text \<open>The loop of \<open>handle_next_collected_signal\<close> over the signal numbers left, and the \<open>abort\<close> after it.\<close>

primrec scan_signals :: "nat list \<Rightarrow> 32 word \<Rightarrow> process \<Rightarrow> (int \<times> process) res" where
  "scan_signals [] snapshot s = Inl Verify_failed"
| "scan_signals (signum # rest) snapshot s =
     (let mask = push_bit signum (1 :: 32 word) in
      if snapshot AND mask \<noteq> 0
      then Inr (int signum, s\<lparr>signals := signals s AND ucast (NOT mask)\<rparr>)
      else scan_signals rest snapshot s)"

definition handle_next_collected_signal :: "process \<Rightarrow> (int \<times> process) res" where
  "handle_next_collected_signal s =
     (let snapshot = ucast (signals s) :: 32 word in
      if snapshot = 0 then Inr (-1, s) else scan_signals [0..<N_SIGNALS] snapshot s)"

definition raise_signal :: "(int \<Rightarrow> 'os \<Rightarrow> int \<times> 'os) \<Rightarrow> int \<Rightarrow> 'os \<Rightarrow> int \<times> 'os" where
  "raise_signal c_raise signum s = c_raise signum s"

definition send_signal :: "(int \<Rightarrow> int \<Rightarrow> 'os \<Rightarrow> int \<times> 'os) \<Rightarrow> int \<Rightarrow> int \<Rightarrow> 'os \<Rightarrow> int \<times> 'os" where
  "send_signal c_kill pid signum s = c_kill pid signum s"

text \<open>The signal numbers of Linux.\<close>

definition sighup :: int where "sighup = 1"
definition sigint :: int where "sigint = 2"
definition sigquit :: int where "sigquit = 3"
definition sigill :: int where "sigill = 4"
definition sigtrap :: int where "sigtrap = 5"
definition sigabrt :: int where "sigabrt = 6"
definition sigfpe :: int where "sigfpe = 8"
definition sigusr1 :: int where "sigusr1 = 10"
definition sigsegv :: int where "sigsegv = 11"
definition sigusr2 :: int where "sigusr2 = 12"

lemmas signal_numbers = sighup_def sigint_def sigquit_def sigill_def sigtrap_def sigabrt_def sigfpe_def
  sigusr1_def sigsegv_def sigusr2_def

section \<open>The pending signals as a set\<close>

definition pending :: "process \<Rightarrow> nat set" where
  "pending s = {i. bit (signals s) i}"

text \<open>Only the low half of the word is ever used.\<close>

definition sig_wf :: "process \<Rightarrow> bool" where
  "sig_wf s \<longleftrightarrow> pending s \<subseteq> {..<N_SIGNALS}"

lemma finite_pending [simp]: "finite (pending s)"
  by (rule finite_subset [of _ "{..<64}"]) (auto simp: pending_def dest: bit_imp_le_length)

lemma signals_zero_iff: "signals s = 0 \<longleftrightarrow> pending s = {}"
proof
  assume "pending s = {}"
  then show "signals s = 0" by (intro bit_eqI) (auto simp: pending_def)
qed (simp add: pending_def)

lemma bit_mask: "i < 32 \<Longrightarrow> bit (push_bit i (1 :: 32 word)) k \<longleftrightarrow> k = i"
  by (auto simp: bit_push_bit_iff bit_1_iff simp del: push_bit_of_1)

lemma pending_collect:
  assumes "0 \<le> n" "n < 32"
  shows "\<exists>s'. collect_signal_handler n s = Inr s' \<and> pending s' = insert (nat n) (pending s) \<and> actions s' = actions s"
proof -
  let ?w = "ucast (push_bit (nat n) (1 :: 32 word)) :: 64 word"
  have "bit ?w i \<longleftrightarrow> i = nat n" for i
    using assms bit_mask [of "nat n" i] by (auto simp: bit_ucast_iff simp del: push_bit_of_1)
  then have "bit (signals s OR ?w) i \<longleftrightarrow> i = nat n \<or> bit (signals s) i" for i
    by (simp only: bit_or_iff disj_commute)
  then have "pending (s\<lparr>signals := signals s OR ?w\<rparr>) = insert (nat n) (pending s)"
    by (simp add: pending_def insert_compr del: push_bit_of_1)
  moreover have "collect_signal_handler n s = Inr (s\<lparr>signals := signals s OR ?w\<rparr>)"
    using assms by (simp only: collect_signal_handler_def N_SIGNALS_def) simp
  ultimately show ?thesis by (intro exI [of _ "s\<lparr>signals := signals s OR ?w\<rparr>"]) simp
qed

lemma mask_bit: "i < 32 \<Longrightarrow> (w :: 32 word) AND push_bit i 1 \<noteq> 0 \<longleftrightarrow> bit w i"
proof
  assume i: "i < 32" "w AND push_bit i 1 \<noteq> 0"
  then obtain k where "bit (w AND push_bit i 1) k" by (metis bit_0_eq bit_eqI bot_apply bot_bool_def)
  with i show "bit w i" by (auto simp: bit_and_iff bit_mask simp del: push_bit_of_1)
next
  assume "i < 32" "bit w i"
  then have "bit (w AND push_bit i 1) i" by (simp add: bit_and_iff bit_mask del: push_bit_of_1)
  then show "w AND push_bit i 1 \<noteq> 0" by (metis bit_0_eq bot_apply bot_bool_def)
qed

definition clear_signal :: "nat \<Rightarrow> process \<Rightarrow> process" where
  "clear_signal i s = s\<lparr>signals := signals s AND ucast (NOT (push_bit i (1 :: 32 word)))\<rparr>"

lemma pending_clear:
  assumes "sig_wf s" "i < 32"
  shows "pending (clear_signal i s) = pending s - {i}"
proof -
  have "bit (ucast (NOT (push_bit i (1 :: 32 word))) :: 64 word) k \<longleftrightarrow> k \<noteq> i" if "k < 32" for k
    using assms(2) that bit_mask [of i k] by (auto simp: bit_ucast_iff bit_not_iff simp del: push_bit_of_1)
  moreover have "k < 32" if "bit (signals s) k" for k
    using assms(1) that by (auto simp: sig_wf_def pending_def N_SIGNALS_def)
  ultimately show ?thesis
    by (auto simp: clear_signal_def pending_def bit_and_iff simp del: push_bit_of_1)
qed

lemma scan_finds:
  assumes "\<forall>i\<in>set is. i < 32"
  shows "scan_signals is w s =
    (case find (bit w) is of None \<Rightarrow> Inl Verify_failed | Some i \<Rightarrow> Inr (int i, clear_signal i s))"
  using assms
  by (induction "is") (auto simp: mask_bit Let_def clear_signal_def simp del: push_bit_of_1)

lemma find_upt: "P l \<Longrightarrow> l < n \<Longrightarrow> (\<And>j. j < l \<Longrightarrow> \<not> P j) \<Longrightarrow> find P [0..<n] = Some l"
  by (subst find_Some_iff, intro exI [of _ l]) simp

text \<open>The scan of a non-empty snapshot returns its lowest signal.\<close>

lemma scan_lowest:
  assumes "w \<noteq> 0"
  shows "scan_signals [0..<N_SIGNALS] w s = Inr (int (LEAST i. bit w i), clear_signal (LEAST i. bit w i) s)"
    and "(LEAST i. bit w i) < 32" "bit w (LEAST i. bit w i)"
proof -
  let ?l = "LEAST i. bit w i"
  obtain k where "bit w k" using assms by (metis bit_0_eq bit_eqI bot_apply bot_bool_def)
  then show l: "bit w ?l" by (rule LeastI)
  then show l32: "?l < 32" using bit_imp_le_length [of w ?l] by simp
  have "\<not> bit w j" if "j < ?l" for j using that by (rule not_less_Least)
  then have "find (bit w) [0..<n] = Some ?l" if "?l < n" for n
    using l that by (intro find_upt)
  then have scan: "scan_signals [0..<n] w s = Inr (int ?l, clear_signal ?l s)" if "?l < n" "n \<le> 32" for n
    using scan_finds [of "[0..<n]" w s] that by simp
  show "scan_signals [0..<N_SIGNALS] w s = Inr (int ?l, clear_signal ?l s)"
    unfolding N_SIGNALS_def by (rule scan [OF l32]) simp
qed

lemma snapshot_bit:
  assumes "sig_wf s"
  shows "bit (ucast (signals s) :: 32 word) = (\<lambda>i. i \<in> pending s)"
  using assms by (auto simp: fun_eq_iff bit_ucast_iff pending_def sig_wf_def N_SIGNALS_def)

lemma snapshot_zero: "sig_wf s \<Longrightarrow> (ucast (signals s) :: 32 word) = 0 \<longleftrightarrow> pending s = {}"
proof
  assume wf: "sig_wf s" and "pending s = {}"
  then show "(ucast (signals s) :: 32 word) = 0" by (intro bit_eqI) (simp add: snapshot_bit)
next
  assume "sig_wf s" "(ucast (signals s) :: 32 word) = 0"
  then show "pending s = {}" using snapshot_bit by (metis bit_0_eq bot_apply bot_bool_def ex_in_conv)
qed

lemma handle_next_result:
  assumes "sig_wf s"
  shows "handle_next_collected_signal s =
    (if pending s = {} then Inr (-1, s) else Inr (int (Min (pending s)), clear_signal (Min (pending s)) s))"
proof (cases "pending s = {}")
  case False
  then have "(LEAST i. i \<in> pending s) = Min (pending s)"
    by (intro Least_equality Min_in Min_le) auto
  then show ?thesis
    using False scan_lowest(1) [of "ucast (signals s)" s] snapshot_zero [OF assms] snapshot_bit [OF assms]
    by (simp add: handle_next_collected_signal_def Let_def)
qed (simp add: handle_next_collected_signal_def snapshot_zero [OF assms])

end
