(* ===== verification/Signals_Correct.thy ===== *)
theory Signals_Correct
  imports Signals
begin

text \<open>
  Correctness of the signal queue. Its specification is a set of outstanding signals: a delivery adds a
  signal, a handled signal is removed. The implementation is a transition system: signal handlers run
  between any two atomic operations of \<open>handle_next_collected_signal\<close>, on any thread, and a set of
  threads calls that function concurrently. The sequential behaviour, draining the queue in
  ascending order, is shown for the whole function.
\<close>

section \<open>Sequential behaviour\<close>

text \<open>The contract of the queue towards a sequential client: a state stands for a set of pending numbers,
  \<open>add\<close> inserts one, \<open>fetch\<close> removes and returns the smallest, or returns \<open>-1\<close>.\<close>

locale pending_set =
  fixes pend :: "'s \<Rightarrow> nat set" and wf :: "'s \<Rightarrow> bool" and bound :: nat
    and add :: "int \<Rightarrow> 's \<Rightarrow> 's res" and fetch :: "'s \<Rightarrow> (int \<times> 's) res"
  assumes finite_pend: "wf s \<Longrightarrow> finite (pend s)"
    and add_ok: "wf s \<Longrightarrow> i < bound \<Longrightarrow> \<exists>s'. add (int i) s = Inr s' \<and> wf s' \<and> pend s' = insert i (pend s)"
    and fetch_none: "wf s \<Longrightarrow> pend s = {} \<Longrightarrow> fetch s = Inr (-1, s)"
    and fetch_some: "wf s \<Longrightarrow> pend s \<noteq> {} \<Longrightarrow>
      \<exists>s'. fetch s = Inr (int (Min (pend s)), s') \<and> wf s' \<and> pend s' = pend s - {Min (pend s)}"

text \<open>A number of calls to a function that fetches the next signal, with the values returned.\<close>

primrec drain :: "('s \<Rightarrow> (int \<times> 's) res) \<Rightarrow> nat \<Rightarrow> 's \<Rightarrow> (int list \<times> 's) res" where
  "drain fetch 0 s = Inr ([], s)"
| "drain fetch (Suc n) s = bindr (fetch s) (\<lambda>(r, s1). bindr (drain fetch n s1) (\<lambda>(rs, s2). Inr (r # rs, s2)))"

context pending_set
begin

lemma drain_empty: "wf s \<Longrightarrow> pend s = {} \<Longrightarrow> drain fetch k s = Inr (replicate k (-1), s)"
  by (induction k) (simp_all add: fetch_none)

lemma drain_sorted:
  assumes "wf s"
  shows "\<exists>s'. drain fetch (card (pend s) + k) s =
      Inr (map int (sorted_list_of_set (pend s)) @ replicate k (-1), s') \<and> pend s' = {}"
  using assms
proof (induction "card (pend s)" arbitrary: s)
  case 0
  then show ?case using drain_empty finite_pend by simp
next
  case (Suc n)
  have ne: "pend s \<noteq> {}" using Suc.hyps(2) by auto
  obtain s1 where s1: "fetch s = Inr (int (Min (pend s)), s1)" "wf s1" "pend s1 = pend s - {Min (pend s)}"
    using fetch_some [OF Suc.prems ne] by blast
  have n: "n = card (pend s1)" using Suc.hyps(2) s1(3) ne finite_pend [OF Suc.prems] by simp
  obtain s' where "drain fetch (n + k) s1 = Inr (map int (sorted_list_of_set (pend s1)) @ replicate k (-1), s')"
      "pend s' = {}"
    using Suc.hyps(1) [OF n s1(2)] n by metis
  moreover have "sorted_list_of_set (pend s) = Min (pend s) # sorted_list_of_set (pend s1)"
    using ne s1(3) finite_pend [OF Suc.prems] by (simp add: sorted_list_of_set_nonempty)
  ultimately show ?case
    using s1(1) Suc.hyps(2) [symmetric] by simp
qed

end

lemma clear_signal_wf: "sig_wf s \<Longrightarrow> i < 32 \<Longrightarrow> sig_wf (clear_signal i s)"
  by (auto simp: sig_wf_def pending_clear)

lemma min_pending: "sig_wf s \<Longrightarrow> pending s \<noteq> {} \<Longrightarrow> Min (pending s) < 32"
  using subsetD [of "pending s" "{..<32}", OF _ Min_in] by (simp add: sig_wf_def N_SIGNALS_def)

interpretation sigq: pending_set pending sig_wf 32 collect_signal_handler handle_next_collected_signal
proof unfold_locales
  show "\<exists>s'. collect_signal_handler (int i) s = Inr s' \<and> sig_wf s' \<and> pending s' = insert i (pending s)"
    if "sig_wf s" "i < 32" for s i
    using pending_collect [of "int i" s] that by (auto simp: sig_wf_def N_SIGNALS_def)
  show "\<exists>s'. handle_next_collected_signal s = Inr (int (Min (pending s)), s') \<and> sig_wf s' \<and>
      pending s' = pending s - {Min (pending s)}" if "sig_wf s" "pending s \<noteq> {}" for s
    using that min_pending [OF that] by (simp add: handle_next_result pending_clear clear_signal_wf)
qed (simp_all add: handle_next_result)

text \<open>C6. Calls to \<open>handle_next_collected_signal\<close> return every collected signal exactly once, in
  ascending order of the signal numbers, and \<open>-1\<close> from then on; the \<open>abort\<close> after the loop is never
  reached.\<close>

theorem handle_next_drains:
  assumes "sig_wf s"
  shows "\<exists>s'. drain handle_next_collected_signal (card (pending s) + k) s =
      Inr (map int (sorted_list_of_set (pending s)) @ replicate k (-1), s') \<and> pending s' = {}"
  using assms by (rule sigq.drain_sorted)

theorem handle_next_drains_witness:
  "\<exists>s'. drain handle_next_collected_signal (card (pending \<lparr>signals = 12, actions = (\<lambda>_. simple_handler Collect_signal)\<rparr>) + 1)
      \<lparr>signals = 12, actions = (\<lambda>_. simple_handler Collect_signal)\<rparr> =
    Inr (map int (sorted_list_of_set (pending \<lparr>signals = 12, actions = (\<lambda>_. simple_handler Collect_signal)\<rparr>)) @
      replicate 1 (-1), s') \<and> pending s' = {}"
proof (rule handle_next_drains)
  have "i < 32" if "bit (12 :: 64 word) i" for i
  proof (rule ccontr)
    assume "\<not> i < 32"
    then have "bit (12 :: 64 word) (4 + (i - 4))" using that by simp
    then have "bit (drop_bit 4 (12 :: 64 word)) (i - 4)" by (simp only: bit_drop_bit_eq comp_def)
    then show False by simp
  qed
  then show "sig_wf \<lparr>signals = 12, actions = (\<lambda>_. simple_handler Collect_signal)\<rparr>"
    by (auto simp: sig_wf_def pending_def N_SIGNALS_def)
qed

section \<open>Concurrent deliveries and callers\<close>

datatype sig_event = Delivered nat | Handled nat

text \<open>A running program: the process, the snapshot of each thread that is inside
  \<open>handle_next_collected_signal\<close> between its load and its update, and the history of deliveries and of
  signals returned to callers.\<close>

record sig_run =
  proc :: process
  callers :: "nat \<rightharpoonup> 32 word"
  history :: "sig_event list"

text \<open>The atomic steps, with \<open>T\<close> the threads that call \<open>handle_next_collected_signal\<close>. (A call that loads
  zero returns \<open>-1\<close> and changes nothing.)\<close>

inductive sig_step :: "nat set \<Rightarrow> sig_run \<Rightarrow> sig_run \<Rightarrow> bool" for T where
  deliver: "sa_handler (actions (proc r) n) = Collect_signal \<Longrightarrow> collect_signal_handler n (proc r) = Inr p \<Longrightarrow>
    sig_step T r (r\<lparr>proc := p, history := history r @ [Delivered (nat n)]\<rparr>)"
| load: "t \<in> T \<Longrightarrow> callers r t = None \<Longrightarrow> ucast (signals (proc r)) = w \<Longrightarrow> w \<noteq> 0 \<Longrightarrow>
    sig_step T r (r\<lparr>callers := (callers r)(t \<mapsto> w)\<rparr>)"
| take: "callers r t = Some w \<Longrightarrow> scan_signals [0..<N_SIGNALS] w (proc r) = Inr (n, p) \<Longrightarrow>
    sig_step T r (r\<lparr>proc := p, callers := (callers r)(t := None), history := history r @ [Handled (nat n)]\<rparr>)"
| ignore: "ignore_signal can n (proc r) = (e, p) \<Longrightarrow> sig_step T r (r\<lparr>proc := p\<rparr>)"
| default: "default_signal can n (proc r) = (e, p) \<Longrightarrow> sig_step T r (r\<lparr>proc := p\<rparr>)"
| collect: "collect_signal can n (proc r) = (e, p) \<Longrightarrow> sig_step T r (r\<lparr>proc := p\<rparr>)"

definition sig_init :: "sig_run \<Rightarrow> bool" where
  "sig_init r \<longleftrightarrow> signals (proc r) = 0 \<and> callers r = Map.empty \<and> history r = []"

definition sig_reach :: "nat set \<Rightarrow> sig_run \<Rightarrow> bool" where
  "sig_reach T r \<longleftrightarrow> (\<exists>r0. sig_init r0 \<and> (sig_step T)\<^sup>*\<^sup>* r0 r)"

interpretation sig: transitions sig_init "sig_step T" for T .

lemma sig_reach_eq: "sig_reach T r \<longleftrightarrow> sig.reachable T r"
  by (simp add: sig_reach_def sig.reachable_def)

text \<open>The specification: the set of signals delivered and not handled since.\<close>

fun spec_step :: "nat set \<Rightarrow> sig_event \<Rightarrow> nat set" where
  "spec_step P (Delivered i) = insert i P"
| "spec_step P (Handled i) = P - {i}"

definition outstanding :: "sig_event list \<Rightarrow> nat set" where
  "outstanding h = foldl spec_step {} h"

lemma outstanding_simps [simp]:
  "outstanding [] = {}" "outstanding (h @ [e]) = spec_step (outstanding h) e"
  by (simp_all add: outstanding_def)

lemma install_pending:
  "ignore_signal can n s = (e, p) \<Longrightarrow> pending p = pending s"
  "default_signal can n s = (e, p) \<Longrightarrow> pending p = pending s"
  "collect_signal can n s = (e, p) \<Longrightarrow> pending p = pending s"
  by (auto simp: ignore_signal_def default_signal_def collect_signal_def c_sigaction_def pending_def split: if_splits)

lemma collect_cases:
  "collect_signal_handler n s = Inr p \<Longrightarrow> 0 \<le> n \<and> n < 32 \<and> pending p = insert (nat n) (pending s)"
  using pending_collect [of n s]
  by (cases "0 \<le> n \<and> n < 32") (auto simp: collect_signal_handler_def N_SIGNALS_def simp del: push_bit_of_1)

lemma scan_cases:
  assumes "scan_signals [0..<N_SIGNALS] w s = Inr (n, p)" "w \<noteq> 0" "sig_wf s"
  shows "\<exists>i<32. n = int i \<and> bit w i \<and> pending p = pending s - {i}"
  using assms scan_lowest [OF assms(2)] pending_clear [OF assms(3) scan_lowest(2) [OF assms(2)]] by auto

definition run_inv :: "sig_run \<Rightarrow> bool" where
  "run_inv r \<longleftrightarrow> sig_wf (proc r) \<and> pending (proc r) = outstanding (history r) \<and> (\<forall>t. callers r t \<noteq> Some 0)"

lemma run_inv_step: "sig_step T r r' \<Longrightarrow> run_inv r \<Longrightarrow> run_inv r'"
proof (induction rule: sig_step.induct)
  case (deliver r n p)
  then show ?case using collect_cases [OF deliver(2)] by (auto simp: run_inv_def sig_wf_def N_SIGNALS_def)
next
  case (take r t w n p)
  then have "w \<noteq> 0" "sig_wf (proc r)" by (auto simp: run_inv_def)
  from scan_cases [OF take(2) this] show ?case using take(3) by (auto simp: run_inv_def sig_wf_def)
qed (auto simp: run_inv_def sig_wf_def install_pending)

lemma run_inv_init: "sig_init r \<Longrightarrow> run_inv r"
  by (simp add: sig_init_def run_inv_def sig_wf_def signals_zero_iff)

lemma run_inv_reach: "sig.reachable T r \<Longrightarrow> run_inv r"
  by (erule sig.invariant) (auto intro: run_inv_init run_inv_step)

text \<open>C5. The atomic word implements the set of outstanding signals, whatever the interleaving of
  deliveries, callers and changes of action: in every reachable state a signal is pending exactly when it
  was delivered and not returned to a caller since. No delivery is lost.\<close>

theorem signals_refine_outstanding:
  assumes "sig_reach T r"
  shows "pending (proc r) = outstanding (history r)"
  using run_inv_reach [of T r] assms by (simp add: run_inv_def sig_reach_eq)

text \<open>A small run: signal 2 is delivered to a process that collects it, and thread 0 handles it.\<close>

definition run_at :: "64 word \<Rightarrow> (nat \<rightharpoonup> 32 word) \<Rightarrow> sig_event list \<Rightarrow> sig_run" where
  "run_at w c h = \<lparr>proc = \<lparr>signals = w, actions = (\<lambda>_. simple_handler Collect_signal)\<rparr>, callers = c, history = h\<rparr>"

lemma run_at_start: "sig_reach T (run_at 0 Map.empty [])"
  unfolding sig_reach_eq by (rule sig.reachable_start) (simp add: sig_init_def run_at_def)

lemma reach_continue: "sig_reach T r \<Longrightarrow> sig_step T r r' \<Longrightarrow> sig_reach T r'"
  unfolding sig_reach_eq by (rule sig.reachable_step)

lemma run_at_deliver: "sig_reach T (run_at w c h) \<Longrightarrow> sig_reach T (run_at (w OR 4) c (h @ [Delivered 2]))"
  using reach_continue [OF _ deliver [of "run_at w c h" 2 "\<lparr>signals = w OR 4, actions = (\<lambda>_. simple_handler Collect_signal)\<rparr>"]]
  by (simp add: run_at_def simple_handler_def collect_signal_handler_def N_SIGNALS_def)

lemma run_at_load:
  "sig_reach T (run_at 4 c h) \<Longrightarrow> t \<in> T \<Longrightarrow> c t = None \<Longrightarrow> sig_reach T (run_at 4 (c(t \<mapsto> 4)) h)"
  using reach_continue [OF _ load [of t T "run_at 4 c h" 4]] by (simp add: run_at_def)

lemma run_at_take:
  assumes "sig_reach T (run_at w c h)" "c t = Some 4"
  shows "sig_reach T (run_at (w AND 4294967291) (c(t := None)) (h @ [Handled 2]))"
proof -
  have "(LEAST i. bit (4 :: 32 word) i) = 2"
  proof (rule Least_equality)
    show "2 \<le> i" if "bit (4 :: 32 word) i" for i
      using that by (cases "i < 2") (auto simp: less_2_cases_iff)
  qed simp
  then have "scan_signals [0..<N_SIGNALS] 4 (proc (run_at w c h)) =
      Inr (2, \<lparr>signals = w AND 4294967291, actions = (\<lambda>_. simple_handler Collect_signal)\<rparr>)"
    using scan_lowest(1) [of 4] by (simp add: clear_signal_def run_at_def)
  from reach_continue [OF assms(1) take [OF _ this]] show ?thesis
    using assms(2) by (simp add: run_at_def)
qed

theorem signals_refine_outstanding_witness:
  "pending (proc (run_at (4 AND 4294967291) Map.empty [Delivered 2, Handled 2])) =
    outstanding (history (run_at (4 AND 4294967291) Map.empty [Delivered 2, Handled 2]))"
proof (rule signals_refine_outstanding)
  have "sig_reach {0} (run_at 4 Map.empty [Delivered 2])" using run_at_deliver [OF run_at_start] by simp
  from run_at_load [OF this, of 0] have "sig_reach {0} (run_at 4 [0 \<mapsto> 4] [Delivered 2])" by simp
  from run_at_take [OF this, of 0] show "sig_reach {0} (run_at (4 AND 4294967291) Map.empty [Delivered 2, Handled 2])"
    by simp
qed

text \<open>A history in which every signal handed to a caller was outstanding at that moment.\<close>

fun exact_from :: "nat set \<Rightarrow> sig_event list \<Rightarrow> bool" where
  "exact_from P [] \<longleftrightarrow> True"
| "exact_from P (Delivered i # h) \<longleftrightarrow> exact_from (spec_step P (Delivered i)) h"
| "exact_from P (Handled i # h) \<longleftrightarrow> i \<in> P \<and> exact_from (spec_step P (Handled i)) h"

definition exact :: "sig_event list \<Rightarrow> bool" where
  "exact h \<longleftrightarrow> exact_from {} h"

lemma exact_from_append:
  "exact_from P (h @ h') \<longleftrightarrow> exact_from P h \<and> exact_from (foldl spec_step P h) h'"
  by (induction P h rule: exact_from.induct) auto

lemma exact_snoc: "exact (h @ [e]) \<longleftrightarrow> exact h \<and> exact_from (outstanding h) [e]"
  by (simp add: exact_def exact_from_append outstanding_def)

definition single_inv :: "nat \<Rightarrow> sig_run \<Rightarrow> bool" where
  "single_inv t r \<longleftrightarrow> exact (history r) \<and> (\<forall>u w. callers r u = Some w \<longrightarrow> u = t \<and> (\<forall>i. bit w i \<longrightarrow> i \<in> pending (proc r)))"

lemma single_inv_step: "sig_step {t} r r' \<Longrightarrow> run_inv r \<Longrightarrow> single_inv t r \<Longrightarrow> single_inv t r'"
proof (induction rule: sig_step.induct)
  case (deliver r n p)
  then show ?case using collect_cases [OF deliver(2)] by (auto simp: single_inv_def exact_snoc)
next
  case (load u r w)
  then show ?case by (auto simp: single_inv_def run_inv_def snapshot_bit)
next
  case (take r u w n p)
  then have "w \<noteq> 0" "sig_wf (proc r)" by (auto simp: run_inv_def)
  moreover have "callers r u' = None" if "u' \<noteq> u" for u'
    using take(1,4) that unfolding single_inv_def by (metis option.exhaust)
  ultimately show ?case
    using scan_cases [OF take(2)] take by (auto simp: single_inv_def exact_snoc run_inv_def)
qed (auto simp: single_inv_def install_pending)

lemma single_inv_reach: "sig.reachable {t} r \<Longrightarrow> single_inv t r"
proof (erule sig.invariant)
  show "single_inv t r" if "sig_init r" for r
    using that by (simp add: sig_init_def single_inv_def exact_def)
qed (auto intro: single_inv_step run_inv_reach)

text \<open>C26. With one thread calling \<open>handle_next_collected_signal\<close>, a signal is returned only when it was
  delivered and not returned since: each run of deliveries of a signal is handled once, although
  deliveries arrive between the load and the update of the word.\<close>

theorem single_caller_exact:
  assumes "sig_reach {t} r"
  shows "exact (history r)"
  using single_inv_reach [of t r] assms by (simp add: single_inv_def sig_reach_eq)

theorem single_caller_exact_witness: "exact (history (run_at 4 [0 \<mapsto> 4] [Delivered 2]))"
proof (rule single_caller_exact)
  have "sig_reach {0} (run_at 4 Map.empty [Delivered 2])" using run_at_deliver [OF run_at_start] by simp
  from run_at_load [OF this, of 0] show "sig_reach {0} (run_at 4 [0 \<mapsto> 4] [Delivered 2])" by simp
qed

text \<open>With two threads calling \<open>handle_next_collected_signal\<close> that guarantee is lost: both can take a
  snapshot before either clears the bit, and one delivery is then handled twice.\<close>

theorem two_callers_handle_twice:
  "\<exists>r. sig_reach {0, 1} r \<and> history r = [Delivered 2, Handled 2, Handled 2] \<and> \<not> exact (history r)"
proof -
  have "sig_reach {0, 1} (run_at 4 Map.empty [Delivered 2])" using run_at_deliver [OF run_at_start] by simp
  from run_at_load [OF this, of 0] have "sig_reach {0, 1} (run_at 4 [0 \<mapsto> 4] [Delivered 2])" by simp
  from run_at_load [OF this, of 1] have "sig_reach {0, 1} (run_at 4 [0 \<mapsto> 4, 1 \<mapsto> 4] [Delivered 2])" by simp
  from run_at_take [OF this, of 0]
  have "sig_reach {0, 1} (run_at 0 [1 \<mapsto> 4] [Delivered 2, Handled 2])" by (simp add: fun_upd_twist)
  from run_at_take [OF this, of 1]
  have "sig_reach {0, 1} (run_at 0 Map.empty [Delivered 2, Handled 2, Handled 2])" by simp
  then show ?thesis
    by (intro exI [of _ "run_at 0 Map.empty [Delivered 2, Handled 2, Handled 2]"])
      (simp add: exact_def run_at_def)
qed

end
