(* ===== verification/C_Stdio.thy ===== *)
theory C_Stdio
  imports C_Strings C_Util
begin

text \<open>
  The part of \<open><stdio.h>\<close>, \<open><errno.h>\<close> and of the POSIX interface that the files under \<open>c/\<close> use.

  A stream is the bytes still to be read, a flag that says whether reading past them is an error or the
  end of the file, the bytes written so far, a flag that makes writing fail, and the two status flags.
  The state of the process outside its memory is the table of open streams and \<open>errno\<close>; everything
  else about the operating system is the extension part of the record \<open>io\<close>.

  The system calls that are not modelled here are the fields of the record \<open>os\<close>, an argument of the
  definitions that use them. They act on the whole \<open>io\<close> state, so any of them may open or change
  streams and set \<open>errno\<close>.
\<close>

record FILE =
  input :: "byte list"
  read_fails :: bool
  written :: "byte list"
  write_fails :: bool
  eof_flag :: bool
  err_flag :: bool
  file_no :: int

record io =
  streams :: "addr \<rightharpoonup> FILE"
  errno :: int

record stat =
  st_size :: int
  st_atime :: int
  st_mtime :: int
  st_ctime :: int
  st_atim_nsec :: int
  st_mtim_nsec :: int
  st_ctim_nsec :: int

definition get_file :: "addr \<Rightarrow> 'w io_scheme \<Rightarrow> FILE res" where
  "get_file fp w =
     (if fp = 0 then Inl (Undefined Null_deref)
      else case streams w fp of None \<Rightarrow> Inl (Undefined Dangling) | Some f \<Rightarrow> Inr f)"

definition put_file :: "addr \<Rightarrow> FILE \<Rightarrow> 'w io_scheme \<Rightarrow> 'w io_scheme" where
  "put_file fp f w = w\<lparr>streams := (streams w)(fp \<mapsto> f)\<rparr>"

text \<open>What the end of the input does to the status flags.\<close>

definition at_end :: "FILE \<Rightarrow> FILE" where
  "at_end f = (if read_fails f then f\<lparr>err_flag := True\<rparr> else f\<lparr>eof_flag := True\<rparr>)"

text \<open>\<open>fgetc\<close>: the next byte as an \<open>unsigned char\<close>, or \<open>EOF\<close>.\<close>

definition c_fgetc :: "addr \<Rightarrow> 'w io_scheme \<Rightarrow> (int \<times> 'w io_scheme) res" where
  "c_fgetc fp w =
     bindr (get_file fp w) (\<lambda>f.
       case input f of
         [] \<Rightarrow> Inr (-1, put_file fp (at_end f) w)
       | b # bs \<Rightarrow> Inr (uint b, put_file fp (f\<lparr>input := bs\<rparr>) w))"

definition c_feof :: "addr \<Rightarrow> 'w io_scheme \<Rightarrow> int res" where
  "c_feof fp w = bindr (get_file fp w) (\<lambda>f. Inr (if eof_flag f then 1 else 0))"

definition c_ferror :: "addr \<Rightarrow> 'w io_scheme \<Rightarrow> int res" where
  "c_ferror fp w = bindr (get_file fp w) (\<lambda>f. Inr (if err_flag f then 1 else 0))"

definition c_fileno :: "addr \<Rightarrow> 'w io_scheme \<Rightarrow> int res" where
  "c_fileno fp w = bindr (get_file fp w) (\<lambda>f. Inr (file_no f))"

text \<open>\<open>fread(buf + off, 1, n, fp)\<close>.\<close>

definition c_fread :: "addr \<Rightarrow> int \<Rightarrow> nat \<Rightarrow> addr \<Rightarrow> mem \<Rightarrow> 'w io_scheme \<Rightarrow> (nat \<times> mem \<times> 'w io_scheme) res" where
  "c_fread buf off n fp m w =
     bindr (get_file fp w) (\<lambda>f.
     let got = take n (input f);
         f1 = f\<lparr>input := drop n (input f)\<rparr>;
         f2 = (if length got < n then at_end f1 else f1)
     in bindr (c_store_bytes buf off got m) (\<lambda>m1. Inr (length got, m1, put_file fp f2 w)))"

text \<open>Writing bytes to a stream: \<open>fputs\<close> and \<open>fwrite\<close>.\<close>

definition c_fputs :: "byte list \<Rightarrow> addr \<Rightarrow> 'w io_scheme \<Rightarrow> (int \<times> 'w io_scheme) res" where
  "c_fputs s fp w =
     bindr (get_file fp w) (\<lambda>f.
       if write_fails f then Inr (-1, put_file fp (f\<lparr>err_flag := True\<rparr>) w)
       else Inr (0, put_file fp (f\<lparr>written := written f @ s\<rparr>) w))"

definition c_fwrite :: "addr \<Rightarrow> int \<Rightarrow> nat \<Rightarrow> addr \<Rightarrow> mem \<Rightarrow> 'w io_scheme \<Rightarrow> (nat \<times> 'w io_scheme) res" where
  "c_fwrite buf off n fp m w =
     bindr (get_file fp w) (\<lambda>f. bindr (get_bytes buf m) (\<lambda>bs.
       if \<not> (0 \<le> off \<and> off + int n \<le> int (length bs)) then Inl (Undefined Out_of_bounds)
       else if None \<in> set (take n (drop (nat off) bs)) then Inl (Undefined Uninitialised)
       else if write_fails f then Inr (0, put_file fp (f\<lparr>err_flag := True\<rparr>) w)
       else Inr (n, put_file fp (f\<lparr>written := written f @ map the (take n (drop (nat off) bs))\<rparr>) w)))"

text \<open>\<open>realloc\<close>: a new block with the old content, the old one freed; or a null pointer and no change.\<close>

definition c_realloc :: "addr \<Rightarrow> nat \<Rightarrow> mem \<Rightarrow> (addr \<times> mem) res" where
  "c_realloc p n m =
     (if p = 0 then Inr (c_malloc n m)
      else bindr (get_bytes p m) (\<lambda>bs.
        let (q, m1) = c_malloc n m in
        if q = 0 then Inr (0, m)
        else Inr (q, m1\<lparr>blks := (blks m1)(p := None,
               q \<mapsto> Bytes (take n bs @ replicate (n - length bs) None))\<rparr>)))"

record 'w os =
  os_stdin :: addr
  os_stdout :: addr
  os_stderr :: addr
  os_fopen :: "byte list \<Rightarrow> byte list \<Rightarrow> 'w io_scheme \<Rightarrow> addr \<times> 'w io_scheme"
  os_fclose :: "addr \<Rightarrow> 'w io_scheme \<Rightarrow> int \<times> 'w io_scheme"
  os_chmod :: "byte list \<Rightarrow> int \<Rightarrow> 'w io_scheme \<Rightarrow> int \<times> 'w io_scheme"
  os_remove :: "byte list \<Rightarrow> 'w io_scheme \<Rightarrow> int \<times> 'w io_scheme"
  os_fstat :: "int \<Rightarrow> 'w io_scheme \<Rightarrow> stat option \<times> 'w io_scheme"
  os_select_read :: "int \<Rightarrow> int \<Rightarrow> 'w io_scheme \<Rightarrow> int \<times> 'w io_scheme" \<comment> \<open>one descriptor, timeout in seconds\<close>
  os_popen :: "byte list \<Rightarrow> byte list \<Rightarrow> 'w io_scheme \<Rightarrow> addr \<times> 'w io_scheme"
  os_pclose :: "addr \<Rightarrow> 'w io_scheme \<Rightarrow> int \<times> 'w io_scheme"
  os_isatty :: "int \<Rightarrow> 'w io_scheme \<Rightarrow> int"
  os_pipe :: "'w io_scheme \<Rightarrow> (int \<times> int) option \<times> 'w io_scheme"
  os_close :: "int \<Rightarrow> 'w io_scheme \<Rightarrow> int \<times> 'w io_scheme"
  os_dup2 :: "int \<Rightarrow> int \<Rightarrow> 'w io_scheme \<Rightarrow> int \<times> 'w io_scheme"
  os_fflush :: "addr \<Rightarrow> 'w io_scheme \<Rightarrow> 'w io_scheme"
  os_fork :: "'w io_scheme \<Rightarrow> int \<times> 'w io_scheme"
  os_execlp :: "byte list list \<Rightarrow> 'w io_scheme \<Rightarrow> (int \<times> 'w io_scheme) res" \<comment> \<open>returns only on failure\<close>
  os_fdopen :: "int \<Rightarrow> byte list \<Rightarrow> 'w io_scheme \<Rightarrow> addr \<times> 'w io_scheme"
  os_waitpid :: "int \<Rightarrow> int \<Rightarrow> 'w io_scheme \<Rightarrow> int \<times> int \<times> 'w io_scheme" \<comment> \<open>pid, old status: result, status\<close>
  os_perror :: "byte list \<Rightarrow> 'w io_scheme \<Rightarrow> 'w io_scheme"
  os_system :: "byte list \<Rightarrow> 'w io_scheme \<Rightarrow> int \<times> 'w io_scheme"
  os_getcwd :: "nat \<Rightarrow> 'w io_scheme \<Rightarrow> byte list option \<times> 'w io_scheme"
  os_chdir :: "byte list \<Rightarrow> 'w io_scheme \<Rightarrow> int \<times> 'w io_scheme"
  os_mkdir :: "byte list \<Rightarrow> int \<Rightarrow> 'w io_scheme \<Rightarrow> int \<times> 'w io_scheme"
  os_rmdir :: "byte list \<Rightarrow> 'w io_scheme \<Rightarrow> int \<times> 'w io_scheme"
  os_opendir :: "byte list \<Rightarrow> 'w io_scheme \<Rightarrow> addr \<times> 'w io_scheme"
  os_closedir :: "addr \<Rightarrow> 'w io_scheme \<Rightarrow> int \<times> 'w io_scheme"
  os_readdir :: "addr \<Rightarrow> 'w io_scheme \<Rightarrow> byte list option \<times> 'w io_scheme"
  os_strerror :: "int \<Rightarrow> byte list"
  os_nanosleep :: "int \<Rightarrow> int \<Rightarrow> 'w io_scheme \<Rightarrow> 'w io_scheme"
  os_time :: "'w io_scheme \<Rightarrow> int"
  os_setenv :: "byte list \<Rightarrow> byte list \<Rightarrow> int \<Rightarrow> 'w io_scheme \<Rightarrow> int \<times> 'w io_scheme"
  os_unsetenv :: "byte list \<Rightarrow> 'w io_scheme \<Rightarrow> int \<times> 'w io_scheme"
  os_getpid :: "'w io_scheme \<Rightarrow> int"
  os_nprocs :: "'w io_scheme \<Rightarrow> int"
  os_winsize :: "int \<Rightarrow> 'w io_scheme \<Rightarrow> (int \<times> int) option" \<comment> \<open>\<open>TIOCGWINSZ\<close>: columns and rows\<close>

text \<open>The \<open>int\<close> members of the structures that are kept on the heap; a structure is a block of
  machine words, one per member.\<close>

definition store_field :: "addr \<Rightarrow> int \<Rightarrow> int \<Rightarrow> mem \<Rightarrow> mem res" where
  "store_field p i v m = store_ptr p i (word_of_int (c_conv Int32 v)) m"

definition load_field :: "addr \<Rightarrow> int \<Rightarrow> mem \<Rightarrow> int res" where
  "load_field p i m = bindr (load_ptr p i m) (\<lambda>v. Inr (c_conv Int32 (uint v)))"

section \<open>Exit statuses\<close>

text \<open>\<open><sys/wait.h>\<close>: \<open>WIFEXITED\<close> and \<open>WEXITSTATUS\<close> of Linux.\<close>

definition WIFEXITED :: "int \<Rightarrow> bool" where
  "WIFEXITED status \<longleftrightarrow> status AND 0x7f = 0"

definition WEXITSTATUS :: "int \<Rightarrow> int" where
  "WEXITSTATUS status = drop_bit 8 (status AND 0xff00)"

section \<open>Lemmas\<close>

lemma get_file_Some [simp]: "fp \<noteq> 0 \<Longrightarrow> streams w fp = Some f \<Longrightarrow> get_file fp w = Inr f"
  by (simp add: get_file_def)

lemma put_file_sel [simp]: "streams (put_file fp f w) = (streams w)(fp \<mapsto> f)" "errno (put_file fp f w) = errno w"
  by (simp_all add: put_file_def)

lemma c_fgetc_result:
  assumes "fp \<noteq> 0" "streams w fp = Some f"
  shows "c_fgetc fp w = (case input f of [] \<Rightarrow> Inr (-1, put_file fp (at_end f) w)
    | b # bs \<Rightarrow> Inr (uint b, put_file fp (f\<lparr>input := bs\<rparr>) w))"
  using assms by (simp add: c_fgetc_def)

end
