(* ===== verification/File_Support.thy ===== *)
theory File_Support
  imports C_Stdio
begin

text \<open>
  \<open>c/getline.c\<close> and \<open>c/idris_file.c\<close> (the POSIX branches).

  A \<open>char *\<close> result is the address of a block; a \<open>char *\<close> argument that the system reads is taken from
  memory as a C string. Loops that read a stream take fuel; one more than the bytes left in the stream
  is enough.
\<close>

section \<open>getline.c\<close>

definition BUFSIZ :: nat where "BUFSIZ = 8192"

text \<open>The loop of \<open>getdelim\<close>, with \<open>ptr\<close> as an offset in \<open>*buf\<close>. The result is the value returned, \<open>*buf\<close>,
  \<open>*bufsiz\<close>, and the state.\<close>

primrec getdelim_loop :: "nat \<Rightarrow> int \<Rightarrow> addr \<Rightarrow> addr \<Rightarrow> nat \<Rightarrow> nat \<Rightarrow> mem \<Rightarrow> 'w io_scheme \<Rightarrow>
    (int \<times> addr \<times> nat \<times> mem \<times> 'w io_scheme) res" where
  "getdelim_loop 0 delimiter fp buf bufsiz ptr m w = Inl Out_of_fuel"
| "getdelim_loop (Suc fuel) delimiter fp buf bufsiz ptr m w =
     bindr (c_fgetc fp w) (\<lambda>(c, w1).
     if c = -1
     then bindr (c_feof fp w1) (\<lambda>e.
       if e \<noteq> 0 then bindr (store_byte buf (int ptr) 0 m) (\<lambda>m1. Inr (int ptr, buf, bufsiz, m1, w1))
       else Inr (-1, buf, bufsiz, m, w1))
     else bindr (store_byte buf (int ptr) (word_of_int c) m) (\<lambda>m1.
       let ptr1 = ptr + 1 in
       if c = delimiter
       then bindr (store_byte buf (int ptr1) 0 m1) (\<lambda>m2. Inr (int ptr1, buf, bufsiz, m2, w1))
       else if ptr1 + 2 \<ge> bufsiz
       then let nbufsiz = bufsiz * 2 mod 2 ^ 64 in
            bindr (c_realloc buf nbufsiz m1) (\<lambda>(nbuf, m2).
              if nbuf = 0 then Inr (-1, buf, bufsiz, m2, w1)
              else getdelim_loop fuel delimiter fp nbuf nbufsiz ptr1 m2 w1)
       else getdelim_loop fuel delimiter fp buf bufsiz ptr1 m1 w1))"

definition getdelim :: "nat \<Rightarrow> addr \<Rightarrow> nat \<Rightarrow> int \<Rightarrow> addr \<Rightarrow> mem \<Rightarrow> 'w io_scheme \<Rightarrow>
    (int \<times> addr \<times> nat \<times> mem \<times> 'w io_scheme) res" where
  "getdelim fuel buf bufsiz delimiter fp m w =
     (if buf = 0 \<or> bufsiz = 0
      then let (p, m1) = c_malloc BUFSIZ m in
           if p = 0 then Inr (-1, 0, BUFSIZ, m1, w)
           else getdelim_loop fuel delimiter fp p BUFSIZ 0 m1 w
      else getdelim_loop fuel delimiter fp buf bufsiz 0 m w)"

definition getline :: "nat \<Rightarrow> addr \<Rightarrow> nat \<Rightarrow> addr \<Rightarrow> mem \<Rightarrow> 'w io_scheme \<Rightarrow>
    (int \<times> addr \<times> nat \<times> mem \<times> 'w io_scheme) res" where
  "getline fuel buf bufsiz fp m w = getdelim fuel buf bufsiz 10 fp m w"

section \<open>Opening, closing and status\<close>

definition idris2_openFile :: "'w os \<Rightarrow> addr \<Rightarrow> addr \<Rightarrow> mem \<Rightarrow> 'w io_scheme \<Rightarrow> (addr \<times> 'w io_scheme) res" where
  "idris2_openFile os name mode m w =
     bindr (c_string name 0 m) (\<lambda>n. bindr (c_string mode 0 m) (\<lambda>md. Inr (os_fopen os n md w)))"

definition idris2_closeFile :: "'w os \<Rightarrow> addr \<Rightarrow> 'w io_scheme \<Rightarrow> 'w io_scheme res" where
  "idris2_closeFile os f w =
     (let (r, w1) = os_fclose os f w in bindr (IDRIS2_VERIFY (r = 0)) (\<lambda>_. Inr w1))"

definition idris2_getFileNo :: "addr \<Rightarrow> 'w io_scheme \<Rightarrow> int res" where
  "idris2_getFileNo f w = c_fileno f w"

definition idris2_fileError :: "addr \<Rightarrow> 'w io_scheme \<Rightarrow> int res" where
  "idris2_fileError f w = c_ferror f w"

text \<open>The error numbers of Linux.\<close>

definition ENOENT :: int where "ENOENT = 2"
definition EACCES :: int where "EACCES = 13"
definition EEXIST :: int where "EEXIST = 17"

definition idris2_fileErrno :: "'w io_scheme \<Rightarrow> int res" where
  "idris2_fileErrno w =
     (if errno w = ENOENT then Inr 2
      else if errno w = EACCES then Inr 3
      else if errno w = EEXIST then Inr 4
      else c_add Int32 (errno w) 5)"

definition idris2_chmod :: "'w os \<Rightarrow> addr \<Rightarrow> int \<Rightarrow> mem \<Rightarrow> 'w io_scheme \<Rightarrow> (int \<times> 'w io_scheme) res" where
  "idris2_chmod os path mode m w = bindr (c_string path 0 m) (\<lambda>p. Inr (os_chmod os p mode w))"

definition idris2_removeFile :: "'w os \<Rightarrow> addr \<Rightarrow> mem \<Rightarrow> 'w io_scheme \<Rightarrow> (int \<times> 'w io_scheme) res" where
  "idris2_removeFile os filename m w = bindr (c_string filename 0 m) (\<lambda>p. Inr (os_remove os p w))"

definition idris2_fileSize :: "'w os \<Rightarrow> addr \<Rightarrow> 'w io_scheme \<Rightarrow> (int \<times> 'w io_scheme) res" where
  "idris2_fileSize os f w =
     bindr (idris2_getFileNo f w) (\<lambda>fd.
     case os_fstat os fd w of
       (Some buf, w1) \<Rightarrow> Inr (c_conv Int32 (st_size buf), w1)
     | (None, w1) \<Rightarrow> Inr (-1, w1))"

text \<open>\<open>FD_SET\<close> outside \<open>FD_SETSIZE\<close> writes outside the set.\<close>

definition FD_SETSIZE :: int where "FD_SETSIZE = 1024"

definition idris2_fpoll :: "'w os \<Rightarrow> addr \<Rightarrow> 'w io_scheme \<Rightarrow> (int \<times> 'w io_scheme) res" where
  "idris2_fpoll os f w =
     bindr (idris2_getFileNo f w) (\<lambda>fd.
     if 0 \<le> fd \<and> fd < FD_SETSIZE then Inr (os_select_read os fd 1 w) else Inl (Undefined Out_of_bounds))"

section \<open>Processes behind a pipe\<close>

definition idris2_popen :: "'w os \<Rightarrow> addr \<Rightarrow> addr \<Rightarrow> mem \<Rightarrow> 'w io_scheme \<Rightarrow> (addr \<times> 'w io_scheme) res" where
  "idris2_popen os cmd mode m w =
     bindr (c_string cmd 0 m) (\<lambda>c. bindr (c_string mode 0 m) (\<lambda>md. Inr (os_popen os c md w)))"

definition idris2_pclose :: "'w os \<Rightarrow> addr \<Rightarrow> 'w io_scheme \<Rightarrow> (int \<times> 'w io_scheme) res" where
  "idris2_pclose os stream w =
     (let (r, w1) = os_pclose os stream w in
      bindr (IDRIS2_VERIFY (WIFEXITED r)) (\<lambda>_. Inr (WEXITSTATUS r, w1)))"

section \<open>Reading and writing\<close>

primrec idris2_seekLine :: "nat \<Rightarrow> addr \<Rightarrow> 'w io_scheme \<Rightarrow> (int \<times> 'w io_scheme) res" where
  "idris2_seekLine 0 f w = Inl Out_of_fuel"
| "idris2_seekLine (Suc fuel) f w =
     bindr (c_fgetc f w) (\<lambda>(c, w1).
     if c = -1 then bindr (c_feof f w1) (\<lambda>e. if e \<noteq> 0 then Inr (0, w1) else Inr (-1, w1))
     else if c = 10 then Inr (0, w1)
     else idris2_seekLine fuel f w1)"

definition idris2_readLine :: "nat \<Rightarrow> addr \<Rightarrow> mem \<Rightarrow> 'w io_scheme \<Rightarrow> (addr \<times> mem \<times> 'w io_scheme) res" where
  "idris2_readLine fuel f m w =
     bindr (getline fuel 0 0 f m w) (\<lambda>(len, buffer, n, m1, w1).
     if len < 0 \<and> buffer \<noteq> 0
     then bindr (store_byte buffer 0 0 m1) (\<lambda>m2. Inr (buffer, m2, w1))
     else Inr (buffer, m1, w1))"

definition idris2_readChars :: "int \<Rightarrow> addr \<Rightarrow> mem \<Rightarrow> 'w io_scheme \<Rightarrow> (addr \<times> mem \<times> 'w io_scheme) res" where
  "idris2_readChars num f m w =
     bindr (c_add Int32 num 1) (\<lambda>num1.
     let (buffer, m1) = c_malloc (c_size num1) m in
     bindr (c_fread buffer 0 (c_size num) f m1 w) (\<lambda>(len, m2, w1).
     bindr (store_byte buffer (int len) 0 m2) (\<lambda>m3.
     if len = 0 then bindr (c_free buffer m3) (\<lambda>m4. Inr (0, m4, w1))
     else Inr (buffer, m3, w1))))"

definition idris2_readBufferData :: "addr \<Rightarrow> addr \<Rightarrow> nat \<Rightarrow> nat \<Rightarrow> mem \<Rightarrow> 'w io_scheme \<Rightarrow>
    (nat \<times> mem \<times> 'w io_scheme) res" where
  "idris2_readBufferData h buffer loc max_len m w = c_fread buffer (int loc) max_len h m w"

definition idris2_writeLine :: "addr \<Rightarrow> addr \<Rightarrow> mem \<Rightarrow> 'w io_scheme \<Rightarrow> (int \<times> 'w io_scheme) res" where
  "idris2_writeLine f str m w =
     bindr (c_string str 0 m) (\<lambda>s. bindr (c_fputs s f w) (\<lambda>(r, w1).
     if r = -1 then Inr (0, w1) else Inr (1, w1)))"

definition idris2_writeBufferData :: "addr \<Rightarrow> addr \<Rightarrow> nat \<Rightarrow> nat \<Rightarrow> mem \<Rightarrow> 'w io_scheme \<Rightarrow> (nat \<times> 'w io_scheme) res" where
  "idris2_writeBufferData h buffer loc len m w = c_fwrite buffer (int loc) len h m w"

definition idris2_eof :: "addr \<Rightarrow> 'w io_scheme \<Rightarrow> int res" where
  "idris2_eof f w = c_feof f w"

section \<open>File times\<close>

text \<open>The members of \<open>struct filetime\<close>, in order.\<close>

definition filetime_atime_sec :: int where "filetime_atime_sec = 0"
definition filetime_atime_nsec :: int where "filetime_atime_nsec = 1"
definition filetime_mtime_sec :: int where "filetime_mtime_sec = 2"
definition filetime_mtime_nsec :: int where "filetime_mtime_nsec = 3"
definition filetime_ctime_sec :: int where "filetime_ctime_sec = 4"
definition filetime_ctime_nsec :: int where "filetime_ctime_nsec = 5"

definition idris2_fileTime :: "'w os \<Rightarrow> addr \<Rightarrow> mem \<Rightarrow> 'w io_scheme \<Rightarrow> (addr \<times> mem \<times> 'w io_scheme) res" where
  "idris2_fileTime os f m w =
     (let (ft, m1) = c_malloc_ptrs 6 m in
      bindr (idris2_getFileNo f w) (\<lambda>fd.
      case os_fstat os fd w of
        (None, w1) \<Rightarrow> bindr (store_field ft filetime_atime_sec (-1) m1) (\<lambda>m2. Inr (ft, m2, w1))
      | (Some buf, w1) \<Rightarrow>
          bindr (store_field ft filetime_atime_sec (st_atime buf) m1) (\<lambda>m2.
          bindr (store_field ft filetime_mtime_sec (st_mtime buf) m2) (\<lambda>m3.
          bindr (store_field ft filetime_ctime_sec (st_ctime buf) m3) (\<lambda>m4.
          bindr (store_field ft filetime_atime_nsec (st_atim_nsec buf) m4) (\<lambda>m5.
          bindr (store_field ft filetime_mtime_nsec (st_mtim_nsec buf) m5) (\<lambda>m6.
          bindr (store_field ft filetime_ctime_nsec (st_ctim_nsec buf) m6) (\<lambda>m7.
          Inr (ft, m7, w1)))))))))"

definition idris2_fileModifiedTime :: "'w os \<Rightarrow> addr \<Rightarrow> 'w io_scheme \<Rightarrow> (int \<times> 'w io_scheme) res" where
  "idris2_fileModifiedTime os f w =
     bindr (idris2_getFileNo f w) (\<lambda>fd.
     case os_fstat os fd w of
       (Some buf, w1) \<Rightarrow> Inr (c_conv Int32 (st_mtime buf), w1)
     | (None, w1) \<Rightarrow> Inr (-1, w1))"

definition idris2_filetimeAccessTimeSec :: "addr \<Rightarrow> mem \<Rightarrow> int res" where
  "idris2_filetimeAccessTimeSec ft m = load_field ft filetime_atime_sec m"

definition idris2_filetimeAccessTimeNsec :: "addr \<Rightarrow> mem \<Rightarrow> int res" where
  "idris2_filetimeAccessTimeNsec ft m = load_field ft filetime_atime_nsec m"

definition idris2_filetimeModifiedTimeSec :: "addr \<Rightarrow> mem \<Rightarrow> int res" where
  "idris2_filetimeModifiedTimeSec ft m = load_field ft filetime_mtime_sec m"

definition idris2_filetimeModifiedTimeNsec :: "addr \<Rightarrow> mem \<Rightarrow> int res" where
  "idris2_filetimeModifiedTimeNsec ft m = load_field ft filetime_mtime_nsec m"

definition idris2_filetimeStatusTimeSec :: "addr \<Rightarrow> mem \<Rightarrow> int res" where
  "idris2_filetimeStatusTimeSec ft m = load_field ft filetime_ctime_sec m"

definition idris2_filetimeStatusTimeNsec :: "addr \<Rightarrow> mem \<Rightarrow> int res" where
  "idris2_filetimeStatusTimeNsec ft m = load_field ft filetime_ctime_nsec m"

definition idris2_fileIsTTY :: "'w os \<Rightarrow> addr \<Rightarrow> 'w io_scheme \<Rightarrow> int res" where
  "idris2_fileIsTTY os f w = bindr (idris2_getFileNo f w) (\<lambda>fd. Inr (os_isatty os fd w))"

definition idris2_stdin :: "'w os \<Rightarrow> addr" where "idris2_stdin os = os_stdin os"
definition idris2_stdout :: "'w os \<Rightarrow> addr" where "idris2_stdout os = os_stdout os"
definition idris2_stderr :: "'w os \<Rightarrow> addr" where "idris2_stderr os = os_stderr os"

section \<open>popen2\<close>

text \<open>The members of \<open>struct child_process\<close>.\<close>

definition child_pid :: int where "child_pid = 0"
definition child_in :: int where "child_in = 1"
definition child_out :: int where "child_out = 2"

text \<open>The parent's side of \<open>idris2_popen2\<close> after the fork.\<close>

definition popen2_parent :: "'w os \<Rightarrow> int \<times> int \<Rightarrow> int \<times> int \<Rightarrow> int \<Rightarrow> mem \<Rightarrow> 'w io_scheme \<Rightarrow>
    (addr \<times> mem \<times> 'w io_scheme) res" where
  "popen2_parent os p01 p23 pid m w =
     (let (rval, m1) = c_malloc_ptrs 3 m;
          (_, w1) = os_close os (snd p01) w;
          (_, w2) = os_close os (fst p23) w1;
          (fin, w3) = os_fdopen os (snd p23) (chars ''w'') w2
      in bindr (store_ptr rval child_in fin m1) (\<lambda>m2.
         let (fout, w4) = os_fdopen os (fst p01) (chars ''r'') w3
         in bindr (store_ptr rval child_out fout m2) (\<lambda>m3.
            bindr (store_field rval child_pid pid m3) (\<lambda>m4. Inr (rval, m4, w4)))))"

text \<open>The child's side: redirect the standard streams and run the shell. \<open>execlp\<close> returns only on an
  error; then the result is the status the child passes to \<open>exit\<close> and the state it leaves.\<close>

definition popen2_child :: "'w os \<Rightarrow> int \<times> int \<Rightarrow> int \<times> int \<Rightarrow> byte list \<Rightarrow> 'w io_scheme \<Rightarrow> (int \<times> 'w io_scheme) res" where
  "popen2_child os p01 p23 cmd w =
     (let (_, w1) = os_close os 1 w;
          (_, w2) = os_dup2 os (snd p01) 1 w1;
          (_, w3) = os_close os (fst p01) w2;
          (_, w4) = os_close os (snd p01) w3;
          (_, w5) = os_close os 0 w4;
          (_, w6) = os_dup2 os (fst p23) 0 w5;
          (_, w7) = os_close os (fst p23) w6;
          (_, w8) = os_close os (snd p23) w7
      in bindr (os_execlp os [chars ''/bin/sh'', chars ''sh'', chars ''-c'', cmd] w8) (\<lambda>(err, w9).
         Inr (err, os_perror os (chars ''execl'') w9)))"

definition idris2_popen2 :: "'w os \<Rightarrow> addr \<Rightarrow> mem \<Rightarrow> 'w io_scheme \<Rightarrow> (addr \<times> mem \<times> 'w io_scheme) res" where
  "idris2_popen2 os cmd m w =
     (case os_pipe os w of
        (None, w1) \<Rightarrow> Inr (0, m, w1)
      | (Some p01, w1) \<Rightarrow>
          (case os_pipe os w1 of
             (None, w2) \<Rightarrow>
               let (_, w3) = os_close os (fst p01) w2; (_, w4) = os_close os (snd p01) w3 in Inr (0, m, w4)
           | (Some p23, w2) \<Rightarrow>
               let w3 = os_fflush os (os_stdout os) w2;
                   w4 = os_fflush os (os_stderr os) w3;
                   (pid, w5) = os_fork os w4
               in if pid < 0 then Inr (0, m, os_perror os (chars ''fork'') w5)
                  else if pid > 0 then popen2_parent os p01 p23 pid m w5
                  else bindr (c_string cmd 0 m) (\<lambda>c.
                       bindr (popen2_child os p01 p23 c w5) (\<lambda>(err, _). Inl (Exit err)))))"

definition idris2_popen2ChildPid :: "addr \<Rightarrow> mem \<Rightarrow> int res" where
  "idris2_popen2ChildPid ptr m = (if ptr = 0 then Inr 0 else load_field ptr child_pid m)"

definition idris2_popen2ChildHandler :: "addr \<Rightarrow> addr" where
  "idris2_popen2ChildHandler ptr = 0"

definition idris2_popen2FileIn :: "addr \<Rightarrow> mem \<Rightarrow> addr res" where
  "idris2_popen2FileIn ptr m = (if ptr = 0 then Inr 0 else load_ptr ptr child_in m)"

definition idris2_popen2FileOut :: "addr \<Rightarrow> mem \<Rightarrow> addr res" where
  "idris2_popen2FileOut ptr m = (if ptr = 0 then Inr 0 else load_ptr ptr child_out m)"

definition idris2_popen2WaitByHandler :: "'w os \<Rightarrow> addr \<Rightarrow> 'w io_scheme \<Rightarrow> int \<times> 'w io_scheme" where
  "idris2_popen2WaitByHandler os hProcess w =
     (-1, os_perror os (chars ''cannot wait by handler in POSIX system'') w)"

definition idris2_popen2WaitByPid :: "'w os \<Rightarrow> int \<Rightarrow> 'w io_scheme \<Rightarrow> (int \<times> 'w io_scheme) res" where
  "idris2_popen2WaitByPid os pid w =
     (let (res, r, w1) = os_waitpid os pid (-1) w in
      bindr (IDRIS2_VERIFY (res \<noteq> -1)) (\<lambda>_.
      bindr (IDRIS2_VERIFY (WIFEXITED r)) (\<lambda>_. Inr (WEXITSTATUS r, w1))))"

end
