(* ===== verification/Support.thy ===== *)
theory Support
  imports File_Support
begin

text \<open>
  \<open>c/idris_support.c\<close>, \<open>c/idris_directory.c\<close>, \<open>c/idris_system.c\<close> and \<open>c/idris_term.c\<close> (the POSIX
  branches).

  The globals of \<open>idris_support.c\<close> are the record \<open>support\<close>: the program arguments, the environment and
  the terminal settings saved by \<open>idris2_enableRawMode\<close>. The terminal behind standard input is its
  current settings, or \<open>None\<close> when standard input is not a terminal.
\<close>

record termios =
  c_iflag :: "32 word"
  c_oflag :: "32 word"
  c_cflag :: "32 word"
  c_lflag :: "32 word"
  c_cc :: "byte list"

record support =
  argc :: int
  argv :: addr
  environ :: addr
  initial_termios :: "termios option"
  terminal :: "termios option"

section \<open>idris_support.c\<close>

definition idris2_isNull :: "addr \<Rightarrow> int" where
  "idris2_isNull ptr = (if ptr = 0 then 1 else 0)"

definition idris2_getNull :: addr where "idris2_getNull = 0"

definition idris2_getString :: "addr \<Rightarrow> addr" where "idris2_getString p = p"

definition idris2_getErrno :: "'w io_scheme \<Rightarrow> int" where "idris2_getErrno w = errno w"

definition idris2_strerror :: "'w os \<Rightarrow> int \<Rightarrow> byte list" where
  "idris2_strerror os errnum = os_strerror os errnum"

text \<open>The loop of \<open>idris2_getStr\<close> from position \<open>i\<close>: every newline and carriage return up to the
  terminating zero becomes a zero.\<close>

primrec strip_newlines :: "nat \<Rightarrow> addr \<Rightarrow> int \<Rightarrow> mem \<Rightarrow> mem res" where
  "strip_newlines 0 inp i m = Inl Out_of_fuel"
| "strip_newlines (Suc fuel) inp i m =
     bindr (load_byte inp i m) (\<lambda>c.
     if c = 0 then Inr m
     else bindr (if c = 10 \<or> c = 13 then store_byte inp i 0 m else Inr m) (strip_newlines fuel inp (i + 1)))"

definition idris2_getStr :: "nat \<Rightarrow> 'w os \<Rightarrow> mem \<Rightarrow> 'w io_scheme \<Rightarrow> (addr \<times> mem \<times> 'w io_scheme) res" where
  "idris2_getStr fuel os m w =
     bindr (idris2_readLine fuel (os_stdin os) m w) (\<lambda>(inp, m1, w1).
     bindr (strip_newlines fuel inp 0 m1) (\<lambda>m2. Inr (inp, m2, w1)))"

definition idris2_putStr :: "'w os \<Rightarrow> addr \<Rightarrow> mem \<Rightarrow> 'w io_scheme \<Rightarrow> 'w io_scheme res" where
  "idris2_putStr os f m w = bindr (idris2_writeLine (os_stdout os) f m w) (\<lambda>(_, w1). Inr w1)"

definition idris2_sleep :: "'w os \<Rightarrow> int \<Rightarrow> 'w io_scheme \<Rightarrow> 'w io_scheme" where
  "idris2_sleep os sec w = os_nanosleep os sec 0 w"

definition idris2_usleep :: "'w os \<Rightarrow> int \<Rightarrow> 'w io_scheme \<Rightarrow> 'w io_scheme res" where
  "idris2_usleep os usec w =
     bindr (c_div Int32 usec 1000000) (\<lambda>sec.
     bindr (c_mod Int32 usec 1000000) (\<lambda>frac.
     bindr (c_mul Int32 frac 1000) (\<lambda>nsec. Inr (os_nanosleep os sec nsec w))))"

definition idris2_time :: "'w os \<Rightarrow> 'w io_scheme \<Rightarrow> int" where
  "idris2_time os w = c_conv Int32 (os_time os w)"

definition idris2_setArgs :: "int \<Rightarrow> addr \<Rightarrow> support \<Rightarrow> support" where
  "idris2_setArgs ac av s = s\<lparr>argc := ac, argv := av\<rparr>"

definition idris2_getArgCount :: "support \<Rightarrow> int" where
  "idris2_getArgCount s = argc s"

definition idris2_getArg :: "int \<Rightarrow> mem \<Rightarrow> support \<Rightarrow> addr res" where
  "idris2_getArg n m s = load_ptr (argv s) n m"

definition idris2_getEnvPair :: "int \<Rightarrow> mem \<Rightarrow> support \<Rightarrow> addr res" where
  "idris2_getEnvPair i m s = load_ptr (environ s) i m"

definition idris2_setenv :: "'w os \<Rightarrow> addr \<Rightarrow> addr \<Rightarrow> int \<Rightarrow> mem \<Rightarrow> 'w io_scheme \<Rightarrow> (int \<times> 'w io_scheme) res" where
  "idris2_setenv os name val overwrite m w =
     bindr (c_string name 0 m) (\<lambda>n. bindr (c_string val 0 m) (\<lambda>v. Inr (os_setenv os n v overwrite w)))"

text \<open>\<open>tcgetattr\<close> and \<open>tcsetattr\<close> on standard input.\<close>

definition c_tcgetattr :: "support \<Rightarrow> int \<times> termios option" where
  "c_tcgetattr s = (case terminal s of None \<Rightarrow> (-1, None) | Some t \<Rightarrow> (0, Some t))"

definition c_tcsetattr :: "termios \<Rightarrow> support \<Rightarrow> int \<times> support" where
  "c_tcsetattr t s = (if terminal s = None then (-1, s) else (0, s\<lparr>terminal := Some t\<rparr>))"

definition ECHO :: "32 word" where "ECHO = 8"
definition ICANON :: "32 word" where "ICANON = 2"

text \<open>The saved settings live in a block of their own that is never freed; its allocation is not
  checked.\<close>

definition idris2_enableRawMode :: "mem \<Rightarrow> support \<Rightarrow> (int \<times> mem \<times> support) res" where
  "idris2_enableRawMode m s =
     (case c_tcgetattr s of
        (rval, None) \<Rightarrow> Inr (rval, m, s)
      | (rval, Some ti) \<Rightarrow>
          if rval \<noteq> 0 then Inr (rval, m, s)
          else bindr (if initial_termios s = None
                      then let (p, m1) = c_malloc 60 m in
                           if p = 0 then Inl (Undefined Null_deref) else Inr (m1, s\<lparr>initial_termios := Some ti\<rparr>)
                      else Inr (m, s)) (\<lambda>(m1, s1).
               let (r, s2) = c_tcsetattr (ti\<lparr>c_lflag := c_lflag ti AND NOT (ECHO OR ICANON)\<rparr>) s1
               in Inr (r, m1, s2)))"

definition idris2_resetRawMode :: "support \<Rightarrow> support" where
  "idris2_resetRawMode s =
     (case initial_termios s of None \<Rightarrow> s | Some t \<Rightarrow> snd (c_tcsetattr t s))"

definition idris2_unsetenv :: "'w os \<Rightarrow> addr \<Rightarrow> mem \<Rightarrow> 'w io_scheme \<Rightarrow> (int \<times> 'w io_scheme) res" where
  "idris2_unsetenv os name m w = bindr (c_string name 0 m) (\<lambda>n. Inr (os_unsetenv os n w))"

definition idris2_getPID :: "'w os \<Rightarrow> 'w io_scheme \<Rightarrow> int" where
  "idris2_getPID os w = os_getpid os w"

definition idris2_getNProcessors :: "'w os \<Rightarrow> 'w io_scheme \<Rightarrow> int" where
  "idris2_getNProcessors os w = os_nprocs os w"

section \<open>idris_directory.c\<close>

definition idris2_currentDirectory :: "'w os \<Rightarrow> mem \<Rightarrow> 'w io_scheme \<Rightarrow> (addr \<times> mem \<times> 'w io_scheme) res" where
  "idris2_currentDirectory os m w =
     (let (cwd, m1) = c_malloc 1024 m in
      bindr (IDRIS2_VERIFY (cwd \<noteq> 0)) (\<lambda>_.
      case os_getcwd os 1024 w of
        (None, w1) \<Rightarrow> Inr (0, m1, w1)
      | (Some path, w1) \<Rightarrow> bindr (c_sprintf cwd path m1) (\<lambda>m2. Inr (cwd, m2, w1))))"

definition idris2_changeDir :: "'w os \<Rightarrow> addr \<Rightarrow> mem \<Rightarrow> 'w io_scheme \<Rightarrow> (int \<times> 'w io_scheme) res" where
  "idris2_changeDir os dir m w = bindr (c_string dir 0 m) (\<lambda>d. Inr (os_chdir os d w))"

text \<open>\<open>S_IRWXU | S_IRWXG | S_IRWXO\<close> is octal 777.\<close>

definition idris2_createDir :: "'w os \<Rightarrow> addr \<Rightarrow> mem \<Rightarrow> 'w io_scheme \<Rightarrow> (int \<times> 'w io_scheme) res" where
  "idris2_createDir os dir m w = bindr (c_string dir 0 m) (\<lambda>d. Inr (os_mkdir os d 511 w))"

text \<open>\<open>DirInfo\<close> has one member, the \<open>DIR *\<close>.\<close>

definition idris2_openDir :: "'w os \<Rightarrow> addr \<Rightarrow> mem \<Rightarrow> 'w io_scheme \<Rightarrow> (addr \<times> mem \<times> 'w io_scheme) res" where
  "idris2_openDir os dir m w =
     bindr (c_string dir 0 m) (\<lambda>name.
     let (d, w1) = os_opendir os name w in
     if d = 0 then Inr (0, m, w1)
     else let (di, m1) = c_malloc_ptrs 1 m in
          bindr (IDRIS2_VERIFY (di \<noteq> 0)) (\<lambda>_.
          bindr (store_ptr di 0 d m1) (\<lambda>m2. Inr (di, m2, w1))))"

definition idris2_closeDir :: "'w os \<Rightarrow> addr \<Rightarrow> mem \<Rightarrow> 'w io_scheme \<Rightarrow> (mem \<times> 'w io_scheme) res" where
  "idris2_closeDir os di m w =
     bindr (load_ptr di 0 m) (\<lambda>d.
     let (r, w1) = os_closedir os d w in
     bindr (IDRIS2_VERIFY (r = 0)) (\<lambda>_. bindr (c_free di m) (\<lambda>m1. Inr (m1, w1))))"

definition idris2_removeDir :: "'w os \<Rightarrow> addr \<Rightarrow> mem \<Rightarrow> 'w io_scheme \<Rightarrow> (int \<times> 'w io_scheme) res" where
  "idris2_removeDir os path m w = bindr (c_string path 0 m) (\<lambda>p. Inr (os_rmdir os p w))"

text \<open>The name returned belongs to the directory stream; \<open>None\<close> stands for a null pointer.\<close>

definition idris2_nextDirEntry :: "'w os \<Rightarrow> addr \<Rightarrow> mem \<Rightarrow> 'w io_scheme \<Rightarrow> (byte list option \<times> 'w io_scheme) res" where
  "idris2_nextDirEntry os di m w =
     bindr (load_ptr di 0 m) (\<lambda>d. Inr (os_readdir os d (w\<lparr>errno := 0\<rparr>)))"

section \<open>idris_system.c\<close>

definition idris2_system :: "'w os \<Rightarrow> addr \<Rightarrow> mem \<Rightarrow> 'w io_scheme \<Rightarrow> (int \<times> 'w io_scheme) res" where
  "idris2_system os command m w =
     bindr (c_string command 0 m) (\<lambda>c.
     let (status, w1) = os_system os c w in
     Inr (if WIFEXITED status then WEXITSTATUS status else -1, w1))"

section \<open>idris_term.c\<close>

definition idris2_setupTerm :: "'w io_scheme \<Rightarrow> 'w io_scheme" where
  "idris2_setupTerm w = w"

definition idris2_getTermCols :: "'w os \<Rightarrow> 'w io_scheme \<Rightarrow> int" where
  "idris2_getTermCols os w =
     (case os_winsize os 0 w of
        Some (cols, rows) \<Rightarrow> cols
      | None \<Rightarrow> (case os_winsize os 1 w of Some (cols, rows) \<Rightarrow> cols | None \<Rightarrow> 0))"

definition idris2_getTermLines :: "'w os \<Rightarrow> 'w io_scheme \<Rightarrow> int" where
  "idris2_getTermLines os w =
     (case os_winsize os 0 w of
        Some (cols, rows) \<Rightarrow> rows
      | None \<Rightarrow> (case os_winsize os 1 w of Some (cols, rows) \<Rightarrow> rows | None \<Rightarrow> 0))"

end
