(* ===== verification/File_Correct.thy ===== *)
theory File_Correct
  imports Support
begin

text \<open>
  Correctness of line and character input: \<open>getdelim\<close> grows its buffer and never writes outside it,
  \<open>idris2_readLine\<close> and \<open>idris2_getStr\<close> return the next line, \<open>idris2_readChars\<close> the next characters; and
  the decoding of exit statuses and error numbers, and the saved terminal settings.
\<close>

section \<open>A buffer that is being filled\<close>

text \<open>The block \<open>p\<close> of \<open>n\<close> bytes starts with the bytes \<open>bs\<close>.\<close>

definition filled_buf :: "addr \<Rightarrow> byte list \<Rightarrow> nat \<Rightarrow> mem \<Rightarrow> bool" where
  "filled_buf p bs n m \<longleftrightarrow> p \<noteq> 0 \<and>
     (\<exists>rest. blks m p = Some (Bytes (map Some bs @ rest)) \<and> length bs + length rest = n)"

text \<open>Everything but the block \<open>p\<close> is still there.\<close>

definition keeps_but :: "addr \<Rightarrow> mem \<Rightarrow> mem \<Rightarrow> bool" where
  "keeps_but p m m' \<longleftrightarrow> objs m' = objs m \<and> (\<forall>a b. a \<noteq> p \<longrightarrow> blks m a = Some b \<longrightarrow> blks m' a = Some b)"

lemma keeps_but_refl [simp]: "keeps_but p m m"
  by (simp add: keeps_but_def)

definition put_bytes :: "addr \<Rightarrow> byte option list \<Rightarrow> mem \<Rightarrow> mem" where
  "put_bytes p bs m = m\<lparr>blks := (blks m)(p \<mapsto> Bytes bs)\<rparr>"

lemma put_bytes_sel [simp]:
  "objs (put_bytes p bs m) = objs m" "blks (put_bytes p bs m) = (blks m)(p \<mapsto> Bytes bs)"
  "brk (put_bytes p bs m) = brk m" "lim (put_bytes p bs m) = lim m"
  by (simp_all add: put_bytes_def)

lemma mem_wf_put_bytes: "mem_wf m \<Longrightarrow> blks m p \<noteq> None \<Longrightarrow> mem_wf (put_bytes p bs m)"
  unfolding mem_wf_def by (auto simp: insert_absorb domI)

lemma store_next:
  assumes "filled_buf p bs n m" "length bs < n" "mem_wf m"
  shows "\<exists>m'. store_byte p (int (length bs)) v m = Inr m' \<and> filled_buf p (bs @ [v]) n m' \<and>
    mem_wf m' \<and> keeps_but p m m' \<and> brk m' = brk m \<and> lim m' = lim m"
proof -
  obtain rs where rs: "p \<noteq> 0" "blks m p = Some (Bytes (map Some bs @ rs))" "length bs + length rs = n"
    using assms(1) unfolding filled_buf_def by blast
  then obtain r rest where "rs = r # rest" using assms(2) by (cases rs) auto
  with rs have r: "p \<noteq> 0" "blks m p = Some (Bytes (map Some bs @ r # rest))" "length bs + Suc (length rest) = n"
    by simp_all
  let ?m = "put_bytes p (map Some (bs @ [v]) @ rest) m"
  have "store_byte p (int (length bs)) v m = Inr ?m"
    using r by (simp add: store_byte_def get_bytes_def upd_res_def put_bytes_def list_update_append)
  moreover have "filled_buf p (bs @ [v]) n ?m" using r by (simp add: filled_buf_def)
  moreover have "mem_wf ?m" using mem_wf_put_bytes [OF assms(3)] r(2) by simp
  ultimately show ?thesis by (auto simp: keeps_but_def)
qed

lemma realloc_grow:
  assumes "filled_buf p bs n m" "mem_wf m" "brk m < lim m" "n \<le> k" "k < 2 ^ 63"
  shows "\<exists>q m'. c_realloc p k m = Inr (q, m') \<and> q \<noteq> 0 \<and> filled_buf q bs k m' \<and> mem_wf m' \<and> brk m' = Suc (brk m) \<and>
    lim m' = lim m \<and> keeps_but p m m' \<and> (\<forall>a b. blks m a = Some b \<longrightarrow> a \<noteq> q)"
proof -
  let ?q = "addr_of (brk m)"
  obtain rest where r: "p \<noteq> 0" "blks m p = Some (Bytes (map Some bs @ rest))" "length bs + length rest = n"
    using assms(1) unfolding filled_buf_def by blast
  have fresh: "?q \<noteq> p" "?q \<noteq> 0" "blks m ?q = None"
    using mem_wf_fresh [OF assms(2)] r(2) by auto
  let ?bs = "map Some bs @ rest @ replicate (k - n) None"
  let ?m1 = "alloc_blk (Bytes ?bs) m"
  let ?m = "?m1\<lparr>blks := (blks ?m1)(p := None)\<rparr>"
  have run: "c_realloc p k m = Inr (?q, ?m)"
    using r fresh assms(3-5)
    by (simp add: c_realloc_def get_bytes_def c_malloc_cases alloc_blk_def fun_upd_twist)
  have wf1: "mem_wf ?m1" using mem_wf_alloc_blk [OF assms(2,3)] .
  have "dom (blks ?m) \<subseteq> dom (blks ?m1)" by auto
  then have "mem_wf ?m" using wf1 unfolding mem_wf_def by (auto intro: finite_subset)
  moreover have "filled_buf ?q bs k ?m" using r fresh assms(4) by (simp add: filled_buf_def)
  moreover have "keeps_but p m ?m" using fresh by (auto simp: keeps_but_def)
  ultimately show ?thesis using run fresh by auto
qed

lemma store_first:
  assumes "filled_buf p bs n m" "0 < n" "mem_wf m"
  shows "\<exists>m'. store_byte p 0 v m = Inr m' \<and> filled_buf p [v] n m' \<and> mem_wf m' \<and> keeps_but p m m'"
proof -
  obtain rs where "p \<noteq> 0" "blks m p = Some (Bytes rs)" "length rs = n"
    using assms(1) unfolding filled_buf_def by auto
  then have "filled_buf p [] n m" by (simp add: filled_buf_def)
  from store_next [OF this _ assms(3), of v] assms(2) show ?thesis by auto
qed

section \<open>getdelim\<close>

text \<open>The bytes up to and including the first delimiter.\<close>

fun line_of :: "byte \<Rightarrow> byte list \<Rightarrow> byte list" where
  "line_of d [] = []"
| "line_of d (b # bs) = (if b = d then [b] else b # line_of d bs)"

text \<open>The stream after a line was read from it.\<close>

definition after_line :: "byte \<Rightarrow> FILE \<Rightarrow> FILE" where
  "after_line d f =
     (let f1 = f\<lparr>input := drop (length (line_of d (input f))) (input f)\<rparr>
      in if d \<in> set (input f) then f1 else at_end f1)"

lemma after_line_Cons:
  assumes "input f = b # bs"
  shows "after_line d f = (if b = d then f\<lparr>input := bs\<rparr> else after_line d (f\<lparr>input := bs\<rparr>))"
  using assms by (simp add: after_line_def at_end_def)

lemma put_file_twice [simp]: "put_file fp f (put_file fp g w) = put_file fp f w"
  by (simp add: put_file_def)

definition line_found :: "byte \<Rightarrow> FILE \<Rightarrow> bool" where
  "line_found d f \<longleftrightarrow> d \<in> set (input f) \<or> \<not> read_fails f \<or> eof_flag f"

lemma feof_at_end:
  "fp \<noteq> 0 \<Longrightarrow> c_feof fp (put_file fp (at_end f) w) = Inr (if \<not> read_fails f \<or> eof_flag f then 1 else 0)"
  by (simp add: c_feof_def at_end_def)

lemma keeps_but_trans:
  assumes "keeps_but p m m1" "keeps_but q m1 m2" "\<forall>a b. blks m a = Some b \<longrightarrow> a \<noteq> q \<or> a = p"
  shows "keeps_but p m m2"
  using assms unfolding keeps_but_def by metis

text \<open>What a call that has stored \<open>bs\<close> in \<open>buf\<close> and still has to read from \<open>f\<close> returns: the number of
  bytes up to the delimiter or the end of the file, with a buffer that holds them and a zero; \<open>-1\<close> when
  reading failed before either.\<close>

definition reads_line :: "byte \<Rightarrow> addr \<Rightarrow> addr \<Rightarrow> byte list \<Rightarrow> FILE \<Rightarrow> mem \<Rightarrow> 'w io_scheme \<Rightarrow>
    (int \<times> addr \<times> nat \<times> mem \<times> 'w io_scheme) res \<Rightarrow> bool" where
  "reads_line d fp buf bs f m w r \<longleftrightarrow> (\<exists>p n m'.
     r = Inr (if line_found d f then int (length bs + length (line_of d (input f))) else -1, p, n, m',
           put_file fp (after_line d f) w) \<and>
     filled_buf p (bs @ line_of d (input f) @ (if line_found d f then [0] else [])) n m' \<and>
     2 \<le> n \<and> mem_wf m' \<and> keeps_but buf m m' \<and> (p = buf \<or> blks m p = None))"

lemma reads_line_step:
  assumes "reads_line d fp q (bs @ [b]) (f\<lparr>input := rest\<rparr>) m2 (put_file fp (f\<lparr>input := rest\<rparr>) w) r"
    and "input f = b # rest" "b \<noteq> d" "keeps_but buf m m2" "\<forall>a b. blks m a = Some b \<longrightarrow> a \<noteq> q \<or> a = buf"
  shows "reads_line d fp buf bs f m w r"
proof -
  have "line_found d f = line_found d (f\<lparr>input := rest\<rparr>)" "after_line d f = after_line d (f\<lparr>input := rest\<rparr>)"
    using assms(2,3) by (auto simp: line_found_def after_line_Cons)
  moreover have "p = buf \<or> blks m p = None" if "p = q \<or> blks m2 p = None" for p
    using that assms(4,5) unfolding keeps_but_def by (metis option.exhaust option.simps(3))
  ultimately show ?thesis
    using assms(1-3) keeps_but_trans [OF assms(4) _ assms(5)] unfolding reads_line_def by fastforce
qed

lemma getdelim_at_eof:
  assumes "fp \<noteq> 0" "streams w fp = Some f" "mem_wf m" "filled_buf buf bs n m" "length bs + 2 \<le> n" "input f = []"
  shows "reads_line d fp buf bs f m w (getdelim_loop (Suc k) (uint d) fp buf n (length bs) m w)"
proof -
  obtain m1 where "store_byte buf (int (length bs)) 0 m = Inr m1" "filled_buf buf (bs @ [0]) n m1"
    "mem_wf m1" "keeps_but buf m m1"
    using store_next [OF assms(4) _ assms(3), of 0] assms(5) by auto
  moreover have "after_line d f = at_end f" using assms(6) by (cases f) (simp add: after_line_def)
  ultimately show ?thesis
    using assms by (simp add: reads_line_def c_fgetc_result feof_at_end line_found_def)
qed

lemma fgetc_byte:
  assumes "fp \<noteq> 0" "streams w fp = Some f" "input f = b # rest"
  shows "c_fgetc fp w = Inr (uint b, put_file fp (f\<lparr>input := rest\<rparr>) w)" "uint b \<noteq> -1"
    "word_of_int (uint b) = b" "uint b = uint d \<longleftrightarrow> b = d"
proof -
  show "uint b \<noteq> -1" using uint_ge_0 [of b] by linarith
qed (use assms in \<open>simp_all add: c_fgetc_result word_uint_eq_iff\<close>)

lemma getdelim_found:
  assumes "fp \<noteq> 0" "streams w fp = Some f" "mem_wf m" "filled_buf buf bs n m" "length bs + 2 \<le> n" "input f = d # rest"
  shows "reads_line d fp buf bs f m w (getdelim_loop (Suc k) (uint d) fp buf n (length bs) m w)"
proof -
  obtain m1 where m1: "store_byte buf (int (length bs)) d m = Inr m1" "filled_buf buf (bs @ [d]) n m1"
    "mem_wf m1" "keeps_but buf m m1"
    using store_next [OF assms(4) _ assms(3), of d] assms(5) by auto
  obtain m2 where m2: "store_byte buf (int (length (bs @ [d]))) 0 m1 = Inr m2" "filled_buf buf ((bs @ [d]) @ [0]) n m2"
    "mem_wf m2" "keeps_but buf m1 m2"
    using store_next [OF m1(2) _ m1(3), of 0] assms(5) by auto
  moreover have "keeps_but buf m m2" using keeps_but_trans [OF m1(4) m2(4)] by blast
  ultimately show ?thesis
    using fgetc_byte [OF assms(1,2,6)] m1(1) assms(5,6)
    by (simp add: reads_line_def after_line_Cons line_found_def add.commute)
qed

text \<open>Any other byte is stored and leaves a buffer with room for two more, if need be a larger one.\<close>

lemma getdelim_other:
  assumes "fp \<noteq> 0" "streams w fp = Some f" "mem_wf m" "filled_buf buf bs n m" "length bs + 2 \<le> n"
    and "input f = b # rest" "b \<noteq> d" "n < 2 ^ 62" "length bs < 2 ^ 60" "brk m < lim m"
  shows "\<exists>q n' m2. getdelim_loop (Suc k) (uint d) fp buf n (length bs) m w =
      getdelim_loop k (uint d) fp q n' (length (bs @ [b])) m2 (put_file fp (f\<lparr>input := rest\<rparr>) w) \<and>
    mem_wf m2 \<and> filled_buf q (bs @ [b]) n' m2 \<and> length (bs @ [b]) + 2 \<le> n' \<and> n' < 2 ^ 62 \<and>
    brk m2 \<le> Suc (brk m) \<and> lim m2 = lim m \<and> keeps_but buf m m2 \<and> (\<forall>a b. blks m a = Some b \<longrightarrow> a \<noteq> q \<or> a = buf)"
proof -
  note get = fgetc_byte [OF assms(1,2,6)]
  obtain m1 where m1: "store_byte buf (int (length bs)) b m = Inr m1" "filled_buf buf (bs @ [b]) n m1"
    "mem_wf m1" "keeps_but buf m m1" "brk m1 = brk m" "lim m1 = lim m"
    using store_next [OF assms(4) _ assms(3), of b] assms(5) by auto
  show ?thesis
  proof (cases "length bs + 3 < n")
    case True
    then show ?thesis
      using get m1 assms(7,8) by (intro exI [of _ buf] exI [of _ n] exI [of _ m1]) simp
  next
    case False
    have n2: "n * 2 mod 2 ^ 64 = n * 2" "n * 2 < 2 ^ 63" "n * 2 < 2 ^ 62" using False assms(8,9) by simp_all
    obtain q m2 where m2: "c_realloc buf (n * 2) m1 = Inr (q, m2)" "q \<noteq> 0" "filled_buf q (bs @ [b]) (n * 2) m2"
      "mem_wf m2" "brk m2 = Suc (brk m1)" "lim m2 = lim m1" "keeps_but buf m1 m2"
      "\<forall>a b. blks m1 a = Some b \<longrightarrow> a \<noteq> q"
      using realloc_grow [OF m1(2,3), of "n * 2"] n2 assms(10) m1(5,6) by auto
    have "keeps_but buf m m2" using keeps_but_trans [OF m1(4) m2(7)] by blast
    moreover have "\<forall>a b. blks m a = Some b \<longrightarrow> a \<noteq> q \<or> a = buf"
      using m1(4) m2(8) unfolding keeps_but_def by metis
    moreover have "getdelim_loop (Suc k) (uint d) fp buf n (length bs) m w =
        getdelim_loop k (uint d) fp q (n * 2) (length (bs @ [b])) m2 (put_file fp (f\<lparr>input := rest\<rparr>) w)"
      using get m1(1) m2(1,2) False assms(7) n2(1) by simp
    ultimately show ?thesis
      using m1(5,6) m2(3-6) n2(3) assms(5) by (intro exI [of _ q] exI [of _ "n * 2"] exI [of _ m2]) simp
  qed
qed

lemma getdelim_loop_correct:
  assumes "fp \<noteq> 0" "streams w fp = Some f" "mem_wf m" "filled_buf buf bs n m" "length bs + 2 \<le> n"
    and "n < 2 ^ 62" "length bs + length (input f) < 2 ^ 60" "length (input f) < fuel"
    and "brk m + length (input f) \<le> lim m"
  shows "reads_line d fp buf bs f m w (getdelim_loop fuel (uint d) fp buf n (length bs) m w)"
  using assms
proof (induction "input f" arbitrary: f w m buf bs n fuel)
  case Nil
  then obtain k where k: "fuel = Suc k" by (cases fuel) auto
  show ?case unfolding k using getdelim_at_eof [OF Nil.prems(1-5) Nil.hyps [symmetric]] .
next
  case (Cons b rest)
  obtain k where k: "fuel = Suc k" using Cons.prems(8) by (cases fuel) auto
  note inp = Cons.hyps(2) [symmetric]
  let ?f = "f\<lparr>input := rest\<rparr>"
  let ?w = "put_file fp ?f w"
  show ?case
  proof (cases "b = d")
    case True
    then show ?thesis unfolding k using getdelim_found [OF Cons.prems(1-5)] inp by simp
  next
    case False
    have "length bs < 2 ^ 60" "brk m < lim m" using Cons.prems(7,9) inp by simp_all
    note other = getdelim_other [OF Cons.prems(1-5) inp False Cons.prems(6) this, of k]
    obtain q n' m2 where s: "getdelim_loop (Suc k) (uint d) fp buf n (length bs) m w =
        getdelim_loop k (uint d) fp q n' (length (bs @ [b])) m2 ?w"
      "mem_wf m2" "filled_buf q (bs @ [b]) n' m2" "length (bs @ [b]) + 2 \<le> n'" "n' < 2 ^ 62"
      "brk m2 \<le> Suc (brk m)" "lim m2 = lim m" "keeps_but buf m m2" "\<forall>a b. blks m a = Some b \<longrightarrow> a \<noteq> q \<or> a = buf"
      using other by (elim exE conjE) (rule that)
    have "reads_line d fp q (bs @ [b]) ?f m2 ?w (getdelim_loop k (uint d) fp q n' (length (bs @ [b])) m2 ?w)"
      using Cons.hyps(1) [of ?f ?w m2 q "bs @ [b]" n' k] Cons.prems s(2-7) k inp by simp
    then show ?thesis unfolding k s(1) using reads_line_step [OF _ inp False s(8,9)] by blast
  qed
qed

lemma malloc_filled:
  assumes "mem_wf m" "brk m < lim m" "n < 2 ^ 63"
  shows "\<exists>p m'. c_malloc n m = (p, m') \<and> filled_buf p [] n m' \<and> mem_wf m' \<and> brk m' = Suc (brk m) \<and> lim m' = lim m \<and>
    keeps_but p m m' \<and> blks m p = None"
  using assms mem_wf_fresh [OF assms(1)] mem_wf_alloc_blk [OF assms(1,2)]
  by (auto simp: c_malloc_cases filled_buf_def keeps_but_def)

lemma readLine_result:
  assumes "mem_wf m" "fp \<noteq> 0" "streams w fp = Some f" "length (input f) < 2 ^ 60" "length (input f) < fuel"
    and "brk m + length (input f) < lim m"
  shows "\<exists>p n m'. idris2_readLine fuel fp m w = Inr (p, m', put_file fp (after_line 10 f) w) \<and>
    filled_buf p (if line_found 10 f then line_of 10 (input f) @ [0] else [0]) n m' \<and>
    mem_wf m' \<and> blks m \<subseteq>\<^sub>m blks m' \<and> objs m' = objs m"
proof -
  obtain q m1 where m1: "c_malloc BUFSIZ m = (q, m1)" "filled_buf q [] BUFSIZ m1" "mem_wf m1"
      "brk m1 = Suc (brk m)" "lim m1 = lim m" "keeps_but q m m1" "blks m q = None"
    using malloc_filled [OF assms(1), of BUFSIZ] assms(6) by (auto simp: BUFSIZ_def)
  have "reads_line 10 fp q [] f m1 w (getdelim_loop fuel (uint (10 :: byte)) fp q BUFSIZ (length ([] :: byte list)) m1 w)"
    using assms m1 by (intro getdelim_loop_correct) (simp_all add: BUFSIZ_def)
  then obtain p n m' where loop: "getdelim_loop fuel 10 fp q BUFSIZ 0 m1 w =
      Inr (if line_found 10 f then int (length (line_of 10 (input f))) else -1, p, n, m', put_file fp (after_line 10 f) w)"
      "filled_buf p (line_of 10 (input f) @ (if line_found 10 f then [0] else [])) n m'"
      "2 \<le> n" "mem_wf m'" "keeps_but q m1 m'" "p = q \<or> blks m1 p = None"
    unfolding reads_line_def by auto
  have "blks m p = None" using loop(6) m1(6,7) unfolding keeps_but_def by (metis option.exhaust option.simps(3))
  then have kept: "blks m \<subseteq>\<^sub>m blks m2 \<and> objs m2 = objs m" if "keeps_but p m' m2" for m2
    using that m1(6,7) loop(5) unfolding keeps_but_def map_le_def by (metis domD option.simps(3))
  show ?thesis
  proof (cases "line_found 10 f")
    case True
    then show ?thesis
      using m1(1,2) loop kept [of m'] by (auto simp: idris2_readLine_def getline_def getdelim_def filled_buf_def)
  next
    case False
    obtain m2 where "store_byte p 0 0 m' = Inr m2" "filled_buf p [0] n m2" "mem_wf m2" "keeps_but p m' m2"
      using store_first [OF loop(2) _ loop(4), of 0] loop(3) by auto
    then show ?thesis
      using False m1(1,2) loop kept [of m2]
      by (auto simp: idris2_readLine_def getline_def getdelim_def filled_buf_def)
  qed
qed

text \<open>C7. \<open>idris2_readLine\<close> returns the next line of a stream, of any length: the block returned starts with
  the bytes up to and including the newline (or the end of the file) and a zero, and the stream has
  advanced past them; when reading fails first, the block holds the empty string. The buffer of
  \<open>getdelim\<close> grows as needed and every write stays inside it, the loop ends (fuel of one more than
  the input is enough), and nothing else in memory changes.\<close>

theorem readLine_correct:
  assumes "mem_wf m" "fp \<noteq> 0" "streams w fp = Some f" "length (input f) < 2 ^ 60" "length (input f) < fuel"
    and "brk m + length (input f) < lim m"
  shows "\<exists>p n m'. idris2_readLine fuel fp m w = Inr (p, m', put_file fp (after_line 10 f) w) \<and>
    filled_buf p (if line_found 10 f then line_of 10 (input f) @ [0] else [0]) n m' \<and>
    mem_wf m' \<and> blks m \<subseteq>\<^sub>m blks m' \<and> objs m' = objs m"
  by (rule readLine_result [OF assms])

text \<open>A stream with a line and a half, in fresh memory.\<close>

definition example_file :: FILE where
  "example_file = \<lparr>input = [72, 105, 13, 10, 63], read_fails = False, written = [], write_fails = False,
     eof_flag = False, err_flag = False, file_no = 0\<rparr>"

definition example_io :: io where
  "example_io = \<lparr>streams = [16 \<mapsto> example_file], errno = 0\<rparr>"

theorem readLine_correct_witness:
  "\<exists>p n m'. idris2_readLine 6 16 (init_mem 1000) example_io =
      Inr (p, m', put_file 16 (after_line 10 example_file) example_io) \<and>
    filled_buf p (if line_found 10 example_file then line_of 10 (input example_file) @ [0] else [0]) n m' \<and>
    mem_wf m' \<and> blks (init_mem 1000) \<subseteq>\<^sub>m blks m' \<and> objs m' = objs (init_mem 1000)"
  using rt_wf_mem_wf [OF rt_wf_example]
  by (rule readLine_correct) (simp_all add: example_io_def example_file_def)

section \<open>getStr\<close>

fun stripped :: "byte list \<Rightarrow> byte list" where
  "stripped [] = []"
| "stripped (b # bs) = (if b = 0 then b # bs else (if b = 10 \<or> b = 13 then 0 else b) # stripped bs)"

lemma strip_newlines_correct:
  assumes "p \<noteq> 0" "blks m p = Some (Bytes (map Some pre @ map Some bs @ Some 0 # rest))" "length bs < fuel"
  shows "strip_newlines fuel p (int (length pre)) m =
    Inr (put_bytes p (map Some pre @ map Some (stripped bs) @ Some 0 # rest) m)"
  using assms
proof (induction bs arbitrary: pre m fuel)
  case Nil
  then obtain k where k: "fuel = Suc k" by (cases fuel) auto
  have "put_bytes p (map Some pre @ Some 0 # rest) m = m"
    using Nil.prems(2) by (simp add: put_bytes_def map_upd_triv)
  then show ?case
    using Nil.prems k by (simp add: load_byte_def get_bytes_def nth_res_def nth_append)
next
  case (Cons b bs)
  then obtain k where k: "fuel = Suc k" by (cases fuel) auto
  have load: "load_byte p (int (length pre)) m = Inr b"
    using Cons.prems by (simp add: load_byte_def get_bytes_def nth_res_def nth_append)
  let ?b = "if b = 10 \<or> b = 13 then 0 else b"
  let ?m = "put_bytes p (map Some (pre @ [?b]) @ map Some bs @ Some 0 # rest) m"
  have store: "(if b = 10 \<or> b = 13 then store_byte p (int (length pre)) 0 m else Inr m) = Inr ?m"
    using Cons.prems
    by (auto simp: store_byte_def get_bytes_def upd_res_def put_bytes_def list_update_append map_upd_triv)
  have same: "put_bytes p (map Some pre @ Some b # map Some bs @ Some 0 # rest) m = m"
    using Cons.prems(2) by (simp add: put_bytes_def map_upd_triv)
  show ?case
  proof (cases "b = 0")
    case True
    then show ?thesis using k load same by simp
  next
    case False
    have "strip_newlines k p (int (length (pre @ [?b]))) ?m =
        Inr (put_bytes p (map Some (pre @ [?b]) @ map Some (stripped bs) @ Some 0 # rest) ?m)"
      using Cons.prems k by (intro Cons.IH) simp_all
    then show ?thesis
      using k load store False by (simp add: put_bytes_def add.commute)
  qed
qed

definition line_end :: "byte \<Rightarrow> bool" where
  "line_end b \<longleftrightarrow> b = 0 \<or> b = 10 \<or> b = 13"

lemma until_nul_stripped:
  "until_nul (map Some (stripped bs) @ Some 0 # rest) = Inr (takeWhile (\<lambda>b. \<not> line_end b) bs)"
  by (induction bs) (auto simp: line_end_def)

lemma takeWhile_line: "takeWhile (\<lambda>b. \<not> line_end b) (line_of 10 bs) = takeWhile (\<lambda>b. \<not> line_end b) bs"
  by (induction bs) (auto simp: line_end_def)

lemma length_line_of: "length (line_of d bs) \<le> length bs"
  by (induction bs) auto

text \<open>\<open>idris2_getStr\<close> returns the next line of standard input without its line end: the C string returned is
  the input up to the first newline, carriage return or zero byte, or the empty string when reading
  failed; the stream has advanced past the newline.\<close>

theorem getStr_correct:
  assumes "mem_wf m" "os_stdin os \<noteq> 0" "streams w (os_stdin os) = Some f" "length (input f) < 2 ^ 60"
    and "length (input f) < fuel" "brk m + length (input f) < lim m"
  shows "\<exists>p m'. idris2_getStr fuel os m w = Inr (p, m', put_file (os_stdin os) (after_line 10 f) w) \<and>
    c_string p 0 m' = Inr (if line_found 10 f then takeWhile (\<lambda>b. \<not> line_end b) (input f) else [])"
proof -
  let ?l = "if line_found 10 f then line_of 10 (input f) else []"
  obtain p n m1 where m1: "idris2_readLine fuel (os_stdin os) m w = Inr (p, m1, put_file (os_stdin os) (after_line 10 f) w)"
      "filled_buf p (if line_found 10 f then line_of 10 (input f) @ [0] else [0]) n m1"
    using readLine_result [OF assms] by metis
  have "(if line_found 10 f then line_of 10 (input f) @ [0] else [0]) = ?l @ [0]" by simp
  with m1(2) obtain rest where p: "p \<noteq> 0" "blks m1 p = Some (Bytes (map Some [] @ map Some ?l @ Some 0 # rest))"
    unfolding filled_buf_def by auto
  have "length ?l < fuel" using length_line_of [of 10 "input f"] assms(5) by simp
  from strip_newlines_correct [OF p this]
  have strip: "strip_newlines fuel p 0 m1 = Inr (put_bytes p (map Some (stripped ?l) @ Some 0 # rest) m1)" by simp
  have "c_string p 0 (put_bytes p (map Some (stripped ?l) @ Some 0 # rest) m1) = Inr (takeWhile (\<lambda>b. \<not> line_end b) ?l)"
    using p(1) until_nul_stripped [of ?l rest] by (simp add: c_string_def get_bytes_def)
  then show ?thesis
    using m1(1) strip takeWhile_line [of "input f"] by (auto simp: idris2_getStr_def)
qed

theorem getStr_correct_witness:
  "\<exists>os :: unit os. \<exists>p m'. idris2_getStr 6 os (init_mem 1000) example_io =
      Inr (p, m', put_file (os_stdin os) (after_line 10 example_file) example_io) \<and>
    c_string p 0 m' =
      Inr (if line_found 10 example_file then takeWhile (\<lambda>b. \<not> line_end b) (input example_file) else [])"
proof -
  obtain os :: "unit os" where os: "os_stdin os = 16" by (metis os.select_convs(1))
  show ?thesis
    by (intro exI [of _ os] getStr_correct)
      (use os rt_wf_mem_wf [OF rt_wf_example] in \<open>simp_all add: example_io_def example_file_def\<close>)
qed

section \<open>readChars\<close>

lemma store_bytes_new:
  assumes "mem_wf m" "length s \<le> n"
  shows "c_store_bytes (addr_of (brk m)) 0 s (alloc_blk (Bytes (replicate n None)) m) =
    Inr (put_bytes (addr_of (brk m)) (map Some s @ replicate (n - length s) None) (alloc_blk (Bytes (replicate n None)) m))"
  using assms(2) mem_wf_fresh(3) [OF assms(1)] by (simp add: c_store_bytes_def get_bytes_def put_bytes_def)

text \<open>\<open>idris2_readChars\<close> with a non-negative count returns a new C string with the next characters of the stream,
  at most as many as asked for and as there are, and a null pointer (the block freed) at the end of
  the input; the stream advances by the characters returned, and nothing else in memory changes.\<close>

theorem readChars_correct:
  assumes "mem_wf m" "0 \<le> num" "num < 2 ^ 31 - 1" "brk m < lim m" "fp \<noteq> 0" "streams w fp = Some f"
  shows "\<exists>p m' f'. idris2_readChars num fp m w = Inr (p, m', put_file fp f' w) \<and>
    input f' = drop (nat num) (input f) \<and> blks m \<subseteq>\<^sub>m blks m' \<and> objs m' = objs m \<and>
    (if take (nat num) (input f) = [] then p = 0 \<and> blks m' = blks m
     else filled_buf p (take (nat num) (input f) @ [0]) (nat num + 1) m')"
proof -
  let ?p = "addr_of (brk m)"
  define n where "n = nat num"
  define g where "g = take n (input f)"
  define f' where "f' = (let f1 = f\<lparr>input := drop n (input f)\<rparr> in if length g < n then at_end f1 else f1)"
  define m1 where "m1 = alloc_blk (Bytes (replicate (n + 1) None)) m"
  define m3 where "m3 = put_bytes ?p (map Some (g @ [0]) @ replicate (n - length g) None) m1"
  have len: "length g \<le> n" "min (length (input f)) n = length g" by (simp_all add: g_def)
  have size: "c_add Int32 num 1 = Inr (num + 1)" "c_size (num + 1) = n + 1" "c_size num = n"
    using assms(2,3)
    by (simp_all add: c_add_def c_promote_def c_fit_def in_range_code c_size_def nat_add_distrib n_def)
  note fresh = mem_wf_fresh [OF assms(1)]
  have run: "c_malloc (n + 1) m = (?p, m1)" using assms(3,4) by (simp add: c_malloc_cases m1_def n_def)
  have "c_store_bytes ?p 0 g m1 = Inr (put_bytes ?p (map Some g @ replicate (n + 1 - length g) None) m1)"
    unfolding m1_def using len by (intro store_bytes_new [OF assms(1)]) simp
  moreover have "replicate (n + 1 - length g) None = None # replicate (n - length g) (None :: byte option)"
    using len by (simp add: Suc_diff_le flip: replicate_Suc)
  ultimately have fill: "c_fread ?p 0 n fp m1 w = Inr (length g,
      put_bytes ?p (map Some g @ None # replicate (n - length g) None) m1, put_file fp f' w)"
    using assms(5,6) len(2) by (simp add: c_fread_def Let_def f'_def flip: g_def)
  have last: "store_byte ?p (int (length g)) 0 (put_bytes ?p (map Some g @ None # replicate (n - length g) None) m1) = Inr m3"
    using fresh(3) by (simp add: store_byte_def get_bytes_def upd_res_def put_bytes_def list_update_append m3_def)
  have inp: "input f' = drop n (input f)" by (simp add: f'_def Let_def at_end_def)
  have kept: "blks m \<subseteq>\<^sub>m blks m3" "objs m3 = objs m" using fresh(2) by (auto simp: map_le_def m3_def m1_def)
  have "c_free ?p m3 = Inr (m3\<lparr>blks := blks m\<rparr>)"
    using fresh by (simp add: c_free_def fun_upd_idem m3_def m1_def)
  then have "idris2_readChars num fp m w =
      (if g = [] then Inr (0, m3\<lparr>blks := blks m\<rparr>, put_file fp f' w) else Inr (?p, m3, put_file fp f' w))"
    using size run fill last by (simp add: idris2_readChars_def)
  moreover have "filled_buf ?p (g @ [0]) (n + 1) m3"
    using fresh(3) len by (simp add: filled_buf_def m3_def)
  ultimately show ?thesis
    unfolding n_def [symmetric] g_def [symmetric] using inp kept by (cases "g = []") auto
qed

theorem readChars_correct_witness:
  "\<exists>p m' f'. idris2_readChars 3 16 (init_mem 1000) example_io = Inr (p, m', put_file 16 f' example_io) \<and>
    input f' = drop (nat 3) (input example_file) \<and> blks (init_mem 1000) \<subseteq>\<^sub>m blks m' \<and> objs m' = objs (init_mem 1000) \<and>
    (if take (nat 3) (input example_file) = [] then p = 0 \<and> blks m' = blks (init_mem 1000)
     else filled_buf p (take (nat 3) (input example_file) @ [0]) (nat 3 + 1) m')"
  using rt_wf_mem_wf [OF rt_wf_example] by (rule readChars_correct) (simp_all add: example_io_def)

end
