(* ===== verification/Support_Correct.thy ===== *)
theory Support_Correct
  imports File_Correct
begin

text \<open>
  Error numbers, exit statuses and the saved terminal settings.
\<close>

section \<open>Error numbers\<close>

text \<open>The Idris side of \<open>idris2_fileErrno\<close>: \<open>System.File.Error\<close>.\<close>

datatype FileError =
    GenericFileError int
  | FileReadError
  | FileWriteError
  | FileNotFound
  | PermissionDenied
  | FileExists

definition returnError :: "int \<Rightarrow> FileError" where
  "returnError err =
     (if err = 0 then FileReadError
      else if err = 1 then FileWriteError
      else if err = 2 then FileNotFound
      else if err = 3 then PermissionDenied
      else if err = 4 then FileExists
      else GenericFileError (err - 5))"

text \<open>C32. An error number that a file operation left in \<open>errno\<close> reaches the Idris program unharmed: the code
  computed by \<open>idris2_fileErrno\<close> is decoded by \<open>System.File.Error\<close> to the three named errors for their
  numbers, and for every other positive error number to the generic error with that number.\<close>

theorem fileErrno_roundtrip:
  assumes "0 < errno w" "errno w < 2 ^ 31 - 5"
  shows "\<exists>c. idris2_fileErrno w = Inr c \<and> returnError c =
    (if errno w = ENOENT then FileNotFound
     else if errno w = EACCES then PermissionDenied
     else if errno w = EEXIST then FileExists
     else GenericFileError (errno w))"
  using assms
  by (auto simp: idris2_fileErrno_def returnError_def ENOENT_def EACCES_def EEXIST_def c_add_def c_promote_def
      c_fit_def in_range_code)

theorem fileErrno_roundtrip_witness:
  "\<exists>c. idris2_fileErrno \<lparr>streams = Map.empty, errno = 28\<rparr> = Inr c \<and> returnError c =
    (if errno \<lparr>streams = Map.empty, errno = 28\<rparr> = ENOENT then FileNotFound
     else if errno \<lparr>streams = Map.empty, errno = 28\<rparr> = EACCES then PermissionDenied
     else if errno \<lparr>streams = Map.empty, errno = 28\<rparr> = EEXIST then FileExists
     else GenericFileError (errno \<lparr>streams = Map.empty, errno = 28\<rparr>))"
  by (rule fileErrno_roundtrip) simp_all

section \<open>Exit statuses\<close>

text \<open>A wait status: the exit code in the second byte, the terminating signal in the low seven bits.\<close>

definition wait_status :: "int \<Rightarrow> int \<Rightarrow> int" where
  "wait_status code sig = 256 * code + sig"

lemma wait_status_decoded:
  assumes "0 \<le> c" "c < 256" "0 \<le> s" "s < 128"
  shows "WIFEXITED (wait_status c s) \<longleftrightarrow> s = 0" "WEXITSTATUS (wait_status c s) = c"
proof -
  have "wait_status c s AND 0x7f = take_bit 7 (wait_status c s)"
    by (simp add: take_bit_eq_mask mask_eq_exp_minus_1)
  also have "\<dots> = (s + 128 * (2 * c)) mod 128" by (simp add: take_bit_eq_mod wait_status_def add.commute)
  also have "\<dots> = s" using assms by (simp only: mod_mult_self2) simp
  finally show "WIFEXITED (wait_status c s) \<longleftrightarrow> s = 0" by (simp add: WIFEXITED_def)
  have "(0xff00 :: int) = push_bit 8 (mask 8)" by (simp add: mask_eq_exp_minus_1 push_bit_eq_mult)
  then have "WEXITSTATUS (wait_status c s) = drop_bit 8 (wait_status c s) AND mask 8"
    by (simp only: WEXITSTATUS_def drop_bit_and) (simp add: mask_eq_exp_minus_1)
  also have "\<dots> = take_bit 8 (drop_bit 8 (wait_status c s))" by (simp add: take_bit_eq_mask)
  also have "\<dots> = c" using assms by (simp add: take_bit_eq_mod drop_bit_eq_div wait_status_def)
  finally show "WEXITSTATUS (wait_status c s) = c" .
qed

text \<open>A child that exits with a code has that code returned by all three callers; a child ended by a
  signal gives \<open>-1\<close> from \<open>idris2_system\<close> and aborts the program in the other two.\<close>

lemma exit_code_returned:
  assumes "0 \<le> c" "c < 256" "0 \<le> s" "s < 128"
  shows "c_string cmd 0 m = Inr txt \<Longrightarrow> os_system os txt w = (wait_status c s, w') \<Longrightarrow>
      idris2_system os cmd m w = Inr (if s = 0 then c else -1, w')"
    and "os_pclose os f w = (wait_status c s, w') \<Longrightarrow>
      idris2_pclose os f w = (if s = 0 then Inr (c, w') else Inl Verify_failed)"
    and "os_waitpid os pid (-1) w = (pid, wait_status c s, w') \<Longrightarrow> pid \<noteq> -1 \<Longrightarrow>
      idris2_popen2WaitByPid os pid w = (if s = 0 then Inr (c, w') else Inl Verify_failed)"
  by (simp_all add: idris2_system_def idris2_pclose_def idris2_popen2WaitByPid_def wait_status_decoded [OF assms] wait_status_decoded [OF assms(1,2), of 0])

section \<open>Raw mode\<close>

datatype term_op = Enable | Reset

text \<open>A sequence of calls to \<open>idris2_enableRawMode\<close> and \<open>idris2_resetRawMode\<close>.\<close>

primrec run_term :: "term_op list \<Rightarrow> mem \<Rightarrow> support \<Rightarrow> (mem \<times> support) res" where
  "run_term [] m s = Inr (m, s)"
| "run_term (p # ps) m s =
     (case p of
        Enable \<Rightarrow> bindr (idris2_enableRawMode m s) (\<lambda>(r, m1, s1). run_term ps m1 s1)
      | Reset \<Rightarrow> run_term ps m (idris2_resetRawMode s))"

definition raw :: "termios \<Rightarrow> termios" where
  "raw t = t\<lparr>c_lflag := c_lflag t AND NOT (ECHO OR ICANON)\<rparr>"

lemma raw_raw [simp]: "raw (raw t) = raw t"
  by (simp add: raw_def and.assoc)

text \<open>The terminal has its original settings \<open>t\<close>, or raw ones and \<open>t\<close> is saved.\<close>

definition term_inv :: "termios \<Rightarrow> mem \<Rightarrow> support \<Rightarrow> bool" where
  "term_inv t m s \<longleftrightarrow>
     initial_termios s = None \<and> terminal s = Some t \<and> mem_wf m \<and> brk m < lim m \<or>
     initial_termios s = Some t \<and> (terminal s = Some t \<or> terminal s = Some (raw t))"

lemma enable_inv:
  assumes "term_inv t m s"
  shows "\<exists>m' s'. idris2_enableRawMode m s = Inr (0, m', s') \<and> term_inv t m' s' \<and> terminal s' = Some (raw t)"
proof -
  have "c_malloc 60 m = (addr_of (brk m), alloc_blk (Bytes (replicate 60 None)) m) \<and> addr_of (brk m) \<noteq> 0"
    if "initial_termios s = None"
    using assms that mem_wf_fresh(3) [of m] by (auto simp: term_inv_def c_malloc_cases)
  then show ?thesis
    using assms raw_raw [of t]
    by (auto simp: term_inv_def idris2_enableRawMode_def c_tcgetattr_def c_tcsetattr_def raw_def)
qed

lemma reset_inv:
  assumes "term_inv t m s"
  shows "term_inv t m (idris2_resetRawMode s) \<and> terminal (idris2_resetRawMode s) = Some t"
  using assms by (auto simp: term_inv_def idris2_resetRawMode_def c_tcsetattr_def)



end
