(* ===== verification/Process_Correct.thy ===== *)
theory Process_Correct
  imports Support_Correct
begin

text \<open>
  \<open>idris2_popen2\<close> of \<open>c/idris_file.c\<close> connects two pipes to a shell. The table of open file descriptors
  belongs to the operating system: it is an arbitrary function \<open>tab\<close> of the state, and \<open>fd_documented\<close>
  states what POSIX says the system calls do to it. A descriptor refers to the reading or the writing
  end of a pipe, or to something else.
\<close>

datatype desc = Read_end nat | Write_end nat | Other nat

definition new_pipe :: "nat \<Rightarrow> (int \<rightharpoonup> desc) \<Rightarrow> bool" where
  "new_pipe k t \<longleftrightarrow> Some (Read_end k) \<notin> range t \<and> Some (Write_end k) \<notin> range t"

text \<open>\<open>fdopen\<close> makes a new stream for a descriptor, or returns a null pointer.\<close>

definition stream_opened :: "int \<Rightarrow> 'w io_scheme \<Rightarrow> addr \<Rightarrow> 'w io_scheme \<Rightarrow> bool" where
  "stream_opened fd w f w' \<longleftrightarrow>
     (if f = 0 then streams w' = streams w
      else streams w f = None \<and> (\<exists>s. streams w' = (streams w)(f \<mapsto> s) \<and> file_no s = fd))"

text \<open>\<open>pipe\<close> opens two unused descriptors on a new pipe or changes nothing; \<open>close\<close> closes; \<open>dup2\<close> makes
  the new descriptor refer to what the old one does; \<open>fork\<close> gives both processes the same table and
  returns a number in the range of \<open>pid_t\<close>; \<open>fdopen\<close>, \<open>fflush\<close> and \<open>perror\<close> leave the table alone.\<close>

definition fd_documented :: "'w os \<Rightarrow> ('w io_scheme \<Rightarrow> int \<rightharpoonup> desc) \<Rightarrow> bool" where
  "fd_documented os tab \<longleftrightarrow>
     (\<forall>w. case os_pipe os w of
        (None, w') \<Rightarrow> tab w' = tab w
      | (Some (a, b), w') \<Rightarrow> a \<noteq> b \<and> tab w a = None \<and> tab w b = None \<and>
          (\<exists>k. new_pipe k (tab w) \<and> tab w' = (tab w)(a \<mapsto> Read_end k, b \<mapsto> Write_end k))) \<and>
     (\<forall>fd w. tab (snd (os_close os fd w)) = (tab w)(fd := None)) \<and>
     (\<forall>old fd w d. tab w old = Some d \<longrightarrow> tab (snd (os_dup2 os old fd w)) = (tab w)(fd \<mapsto> d)) \<and>
     (\<forall>w. tab (snd (os_fork os w)) = tab w \<and> in_range Int32 (fst (os_fork os w))) \<and>
     (\<forall>fd mode w f w'. os_fdopen os fd mode w = (f, w') \<longrightarrow> tab w' = tab w \<and> stream_opened fd w f w') \<and>
     (\<forall>f w. tab (os_fflush os f w) = tab w) \<and>
     (\<forall>s w. tab (os_perror os s w) = tab w)"

lemma fd_pipe_None: "fd_documented os tab \<Longrightarrow> os_pipe os w = (None, w') \<Longrightarrow> tab w' = tab w"
  unfolding fd_documented_def by (auto dest!: spec [of _ w])

lemma fd_pipe_Some:
  assumes "fd_documented os tab" "os_pipe os w = (Some (a, b), w')"
  obtains k where "a \<noteq> b" "tab w a = None" "tab w b = None" "new_pipe k (tab w)"
    "tab w' = (tab w)(a \<mapsto> Read_end k, b \<mapsto> Write_end k)"
  using assms unfolding fd_documented_def by (auto dest!: spec [of _ w])

lemma fd_table:
  assumes "fd_documented os tab"
  shows "os_close os fd w = (r, w') \<Longrightarrow> tab w' = (tab w)(fd := None)"
    and "os_dup2 os old fd w = (r, w') \<Longrightarrow> tab w old = Some d \<Longrightarrow> tab w' = (tab w)(fd \<mapsto> d)"
    and "os_fork os w = (pid, w') \<Longrightarrow> tab w' = tab w" "os_fork os w = (pid, w') \<Longrightarrow> in_range Int32 pid"
    and "tab (os_fflush os f w) = tab w" "tab (os_perror os s w) = tab w"
  using assms unfolding fd_documented_def by (metis fst_conv snd_conv)+

lemma fd_fdopen:
  assumes "fd_documented os tab" "os_fdopen os fd mode w = (f, w')"
  shows "tab w' = tab w"
    and "f = 0 \<Longrightarrow> streams w' = streams w"
    and "f \<noteq> 0 \<Longrightarrow> idris2_getFileNo f w' = Inr fd"
    and "streams w g = Some s \<Longrightarrow> streams w' g = Some s"
proof -
  have "tab w' = tab w \<and> stream_opened fd w f w'" using assms unfolding fd_documented_def by metis
  then show "tab w' = tab w" "f = 0 \<Longrightarrow> streams w' = streams w"
    "f \<noteq> 0 \<Longrightarrow> idris2_getFileNo f w' = Inr fd" "streams w g = Some s \<Longrightarrow> streams w' g = Some s"
    by (auto simp: stream_opened_def idris2_getFileNo_def c_fileno_def get_file_def split: if_splits)
qed

lemma getFileNo_cong: "streams w f = streams w' f \<Longrightarrow> idris2_getFileNo f w = idris2_getFileNo f w'"
  by (simp add: idris2_getFileNo_def c_fileno_def get_file_def)

section \<open>The structure that describes the child\<close>

lemmas child_fields = child_pid_def child_in_def child_out_def

lemma child_stored:
  assumes "mem_wf m" "brk m < lim m"
  defines "p \<equiv> addr_of (brk m)"
  obtains m1 m2 m3 m4 where "c_malloc_ptrs 3 m = (p, m1)" "store_ptr p child_in fin m1 = Inr m2"
    "store_ptr p child_out fout m2 = Inr m3" "store_field p child_pid pid m3 = Inr m4"
    "idris2_popen2ChildPid p m4 = Inr (c_conv Int32 pid)" "idris2_popen2FileIn p m4 = Inr fin"
    "idris2_popen2FileOut p m4 = Inr fout"
proof -
  let ?m = "\<lambda>ps. m\<lparr>blks := (blks m)(p \<mapsto> Ptrs ps), brk := Suc (brk m)\<rparr>"
  let ?pid = "Some (word_of_int (c_conv Int32 pid) :: addr)"
  have p: "p \<noteq> 0" using mem_wf_fresh(3) [OF assms(1)] by (simp add: p_def)
  have three: "replicate 3 x = [x, x, x]" for x :: "addr option" by (simp add: numeral_3_eq_3)
  show thesis
  proof (rule that)
    show "c_malloc_ptrs 3 m = (p, ?m [None, None, None])"
      using assms(2) by (simp add: c_malloc_ptrs_def can_alloc_def p_def three)
    show "store_ptr p child_in fin (?m [None, None, None]) = Inr (?m [None, Some fin, None])"
      "store_ptr p child_out fout (?m [None, Some fin, None]) = Inr (?m [None, Some fin, Some fout])"
      "store_field p child_pid pid (?m [None, Some fin, Some fout]) = Inr (?m [?pid, Some fin, Some fout])"
      using p by (simp_all add: child_fields store_field_def store_ptr_def get_ptrs_def upd_res_def numeral_2_eq_2)
    show "idris2_popen2ChildPid p (?m [?pid, Some fin, Some fout]) = Inr (c_conv Int32 pid)"
      "idris2_popen2FileIn p (?m [?pid, Some fin, Some fout]) = Inr fin"
      "idris2_popen2FileOut p (?m [?pid, Some fin, Some fout]) = Inr fout"
      using p by (simp_all add: idris2_popen2ChildPid_def idris2_popen2FileIn_def idris2_popen2FileOut_def child_fields
          load_field_def load_ptr_def get_ptrs_def nth_res_def unsigned_of_int)
  qed
qed

section \<open>The two sides of the fork\<close>

lemma popen2_parent_correct:
  assumes doc: "fd_documented os tab" and mem: "mem_wf m" "brk m < lim m" and pid: "in_range Int32 pid"
  obtains p m' w' fin fout where "popen2_parent os (a, b) (a', b') pid m w = Inr (p, m', w')"
    "tab w' = (tab w)(b := None, a' := None)" "idris2_popen2ChildPid p m' = Inr pid"
    "idris2_popen2FileIn p m' = Inr fin" "fin \<noteq> 0 \<Longrightarrow> idris2_getFileNo fin w' = Inr b'"
    "idris2_popen2FileOut p m' = Inr fout" "fout \<noteq> 0 \<Longrightarrow> idris2_getFileNo fout w' = Inr a"
proof -
  obtain r1 w1 r2 w2 fin w3 fout w4 where
    os: "os_close os b w = (r1, w1)" "os_close os a' w1 = (r2, w2)"
      "os_fdopen os b' (chars ''w'') w2 = (fin, w3)" "os_fdopen os a (chars ''r'') w3 = (fout, w4)"
    by (metis surj_pair)
  obtain m1 m2 m3 m4 where
    st: "c_malloc_ptrs 3 m = (addr_of (brk m), m1)" "store_ptr (addr_of (brk m)) child_in fin m1 = Inr m2"
      "store_ptr (addr_of (brk m)) child_out fout m2 = Inr m3" "store_field (addr_of (brk m)) child_pid pid m3 = Inr m4"
    and rd: "idris2_popen2ChildPid (addr_of (brk m)) m4 = Inr (c_conv Int32 pid)"
      "idris2_popen2FileIn (addr_of (brk m)) m4 = Inr fin" "idris2_popen2FileOut (addr_of (brk m)) m4 = Inr fout"
    using child_stored [OF mem] by metis
  have "idris2_getFileNo fin w4 = Inr b'" if "fin \<noteq> 0"
  proof -
    have no: "idris2_getFileNo fin w3 = Inr b'" using fd_fdopen(3) [OF doc os(3) that] .
    then obtain s where "streams w3 fin = Some s"
      by (auto simp: idris2_getFileNo_def c_fileno_def get_file_def split: if_splits option.splits)
    then have "streams w4 fin = streams w3 fin" using fd_fdopen(4) [OF doc os(4)] by simp
    then show ?thesis using no getFileNo_cong by metis
  qed
  moreover have "tab w4 = (tab w)(b := None, a' := None)"
    using fd_fdopen(1) [OF doc os(3)] fd_fdopen(1) [OF doc os(4)] fd_table(1) [OF doc os(1)] fd_table(1) [OF doc os(2)]
    by simp
  moreover have "popen2_parent os (a, b) (a', b') pid m w = Inr (addr_of (brk m), m4, w4)"
    using os st by (simp add: popen2_parent_def)
  moreover have "c_conv Int32 pid = pid" using pid by (simp add: c_conv_eq_self_iff)
  ultimately show thesis using that rd fd_fdopen(3) [OF doc os(4)] by auto
qed

text \<open>The child reads the second pipe and writes the first; no other end of them stays open in it.\<close>

lemma popen2_child_correct:
  assumes doc: "fd_documented os tab"
    and t: "tab w = t(a \<mapsto> Read_end k, b \<mapsto> Write_end k, a' \<mapsto> Read_end k', b' \<mapsto> Write_end k')"
    and d: "distinct [a, b, a', b', 0, 1]"
  obtains w' where "tab w' = (t(a := None, b := None, a' := None, b' := None))(0 \<mapsto> Read_end k', 1 \<mapsto> Write_end k)"
    "popen2_child os (a, b) (a', b') cmd w =
       bindr (os_execlp os [chars ''/bin/sh'', chars ''sh'', chars ''-c'', cmd] w')
         (\<lambda>(err, w1). Inr (err, os_perror os (chars ''execl'') w1))"
proof -
  obtain r1 w1 r2 w2 r3 w3 r4 w4 where
    os: "os_close os 1 w = (r1, w1)" "os_dup2 os b 1 w1 = (r2, w2)" "os_close os a w2 = (r3, w3)"
      "os_close os b w3 = (r4, w4)" by (metis surj_pair)
  obtain r5 w5 r6 w6 r7 w7 r8 w8 where
    os': "os_close os 0 w4 = (r5, w5)" "os_dup2 os a' 0 w5 = (r6, w6)" "os_close os a' w6 = (r7, w7)"
      "os_close os b' w7 = (r8, w8)" by (metis surj_pair)
  have t1: "tab w1 = (tab w)(1 := None)" using fd_table(1) [OF doc os(1)] .
  then have t2: "tab w2 = (tab w1)(1 \<mapsto> Write_end k)" using fd_table(2) [OF doc os(2)] t d by simp
  have t4: "tab w4 = (tab w2)(a := None, b := None)" using fd_table(1) [OF doc os(3)] fd_table(1) [OF doc os(4)] by simp
  have t5: "tab w5 = (tab w4)(0 := None)" using fd_table(1) [OF doc os'(1)] .
  have "tab w5 a' = Some (Read_end k')" using d by (auto simp: t5 t4 t2 t1 t)
  then have t6: "tab w6 = (tab w5)(0 \<mapsto> Read_end k')" using fd_table(2) [OF doc os'(2)] by simp
  have t8: "tab w8 = (tab w6)(a' := None, b' := None)" using fd_table(1) [OF doc os'(3)] fd_table(1) [OF doc os'(4)] by simp
  have "tab w8 = (t(a := None, b := None, a' := None, b' := None))(0 \<mapsto> Read_end k', 1 \<mapsto> Write_end k)"
    using d by (auto simp: fun_eq_iff t8 t6 t5 t4 t2 t1 t)
  then show thesis using that os os' by (simp add: popen2_child_def)
qed

section \<open>The whole call\<close>

text \<open>What the table is after both pipes have been opened.\<close>

lemma two_pipes:
  assumes doc: "fd_documented os tab" and std: "tab w 0 \<noteq> None" "tab w 1 \<noteq> None"
    and p: "os_pipe os w = (Some (a, b), w1)" "os_pipe os w1 = (Some (a', b'), w2)"
  obtains k k' where "k \<noteq> k'" "distinct [a, b, a', b', 0, 1]"
    "tab w a = None" "tab w b = None" "tab w a' = None" "tab w b' = None"
    "tab w2 = (tab w)(a \<mapsto> Read_end k, b \<mapsto> Write_end k, a' \<mapsto> Read_end k', b' \<mapsto> Write_end k')"
proof -
  obtain k where k: "a \<noteq> b" "tab w a = None" "tab w b = None" "tab w1 = (tab w)(a \<mapsto> Read_end k, b \<mapsto> Write_end k)"
    using fd_pipe_Some [OF doc p(1)] by metis
  obtain k' where k': "a' \<noteq> b'" "tab w1 a' = None" "tab w1 b' = None" "new_pipe k' (tab w1)"
    "tab w2 = (tab w1)(a' \<mapsto> Read_end k', b' \<mapsto> Write_end k')"
    using fd_pipe_Some [OF doc p(2)] by metis
  have ne: "a' \<noteq> a" "a' \<noteq> b" "b' \<noteq> a" "b' \<noteq> b" using k'(2,3) k(4) by (auto split: if_splits)
  have "tab w1 b = Some (Write_end k)" by (simp add: k(4))
  then have "k \<noteq> k'" using k'(4) unfolding new_pipe_def by (metis rangeI)
  moreover have w: "tab w a' = None" "tab w b' = None" using k'(2,3) ne by (simp_all add: k(4))
  moreover have "distinct [a, b, a', b', 0, 1]" using k(1-3) k'(1) ne w std by auto
  ultimately show thesis using that k(2,3) by (simp add: k'(5) k(4))
qed

lemma popen2_second_pipe_fails:
  assumes doc: "fd_documented os tab" and p: "os_pipe os w = (Some (a, b), w1)" "os_pipe os w1 = (None, w2)"
  shows "\<exists>w'. idris2_popen2 os cmd m w = Inr (0, m, w') \<and> tab w' = tab w"
proof -
  obtain r3 w3 r4 w4 where os: "os_close os a w2 = (r3, w3)" "os_close os b w3 = (r4, w4)" by (metis surj_pair)
  obtain k where k: "tab w a = None" "tab w b = None" "tab w1 = (tab w)(a \<mapsto> Read_end k, b \<mapsto> Write_end k)"
    using fd_pipe_Some [OF doc p(1)] by metis
  have "tab w4 = tab w"
    using fd_table(1) [OF doc os(1)] fd_table(1) [OF doc os(2)] fd_pipe_None [OF doc p(2)] k
    by (auto simp: fun_eq_iff)
  then show ?thesis using p os by (simp add: idris2_popen2_def)
qed

lemma popen2_forked:
  assumes doc: "fd_documented os tab" and mem: "mem_wf m" "brk m < lim m" and cmd: "c_string cmd 0 m = Inr c"
    and p: "os_pipe os w = (Some (a, b), w1)" "os_pipe os w1 = (Some (a', b'), w2)"
    and fork: "os_fork os (os_fflush os (os_stderr os) (os_fflush os (os_stdout os) w2)) = (pid, w3)"
    and d: "distinct [a, b, a', b', 0, 1]" "t a = None" "t b = None" "t a' = None" "t b' = None"
    and t2: "tab w2 = t(a \<mapsto> Read_end k, b \<mapsto> Write_end k, a' \<mapsto> Read_end k', b' \<mapsto> Write_end k')"
  shows "pid < 0 \<Longrightarrow> \<exists>w'. idris2_popen2 os cmd m w = Inr (0, m, w') \<and>
       tab w' = t(a \<mapsto> Read_end k, b \<mapsto> Write_end k, a' \<mapsto> Read_end k', b' \<mapsto> Write_end k')"
    and "pid = 0 \<Longrightarrow> \<exists>w'. tab w' = t(0 \<mapsto> Read_end k', 1 \<mapsto> Write_end k) \<and>
       idris2_popen2 os cmd m w =
         bindr (os_execlp os [chars ''/bin/sh'', chars ''sh'', chars ''-c'', c] w') (\<lambda>(err, _). Inl (Exit err))"
    and "pid > 0 \<Longrightarrow> \<exists>p m' w' fin fout. idris2_popen2 os cmd m w = Inr (p, m', w') \<and>
       tab w' = t(a \<mapsto> Read_end k, b' \<mapsto> Write_end k') \<and> idris2_popen2ChildPid p m' = Inr pid \<and>
       idris2_popen2FileIn p m' = Inr fin \<and> (fin = 0 \<or> idris2_getFileNo fin w' = Inr b') \<and>
       idris2_popen2FileOut p m' = Inr fout \<and> (fout = 0 \<or> idris2_getFileNo fout w' = Inr a)"
proof -
  have t3: "tab w3 = tab w2" using fd_table(3) [OF doc fork] by (simp add: fd_table(5) [OF doc])
  have call: "idris2_popen2 os cmd m w =
      (if pid < 0 then Inr (0, m, os_perror os (chars ''fork'') w3)
       else if pid > 0 then popen2_parent os (a, b) (a', b') pid m w3
       else bindr (popen2_child os (a, b) (a', b') c w3) (\<lambda>(err, _). Inl (Exit err)))"
    using p fork cmd by (simp add: idris2_popen2_def)
  show "\<exists>w'. idris2_popen2 os cmd m w = Inr (0, m, w') \<and>
      tab w' = t(a \<mapsto> Read_end k, b \<mapsto> Write_end k, a' \<mapsto> Read_end k', b' \<mapsto> Write_end k')" if "pid < 0"
    using that call trans [OF t3 t2] fd_table(6) [OF doc] by simp
  show "\<exists>w'. tab w' = t(0 \<mapsto> Read_end k', 1 \<mapsto> Write_end k) \<and> idris2_popen2 os cmd m w =
         bindr (os_execlp os [chars ''/bin/sh'', chars ''sh'', chars ''-c'', c] w') (\<lambda>(err, _). Inl (Exit err))"
    if "pid = 0"
  proof -
    have "t(a := None, b := None, a' := None, b' := None) = t" using d(2-5) by auto
    then obtain w' where "tab w' = t(0 \<mapsto> Read_end k', 1 \<mapsto> Write_end k)"
      "popen2_child os (a, b) (a', b') c w3 =
         bindr (os_execlp os [chars ''/bin/sh'', chars ''sh'', chars ''-c'', c] w')
           (\<lambda>(err, w1). Inr (err, os_perror os (chars ''execl'') w1))"
      using popen2_child_correct [OF doc t2 [folded t3] d(1)] by metis
    then show ?thesis using that call by (auto simp: bindr_def split: sum.splits)
  qed
  show "\<exists>p m' w' fin fout. idris2_popen2 os cmd m w = Inr (p, m', w') \<and>
       tab w' = t(a \<mapsto> Read_end k, b' \<mapsto> Write_end k') \<and> idris2_popen2ChildPid p m' = Inr pid \<and>
       idris2_popen2FileIn p m' = Inr fin \<and> (fin = 0 \<or> idris2_getFileNo fin w' = Inr b') \<and>
       idris2_popen2FileOut p m' = Inr fout \<and> (fout = 0 \<or> idris2_getFileNo fout w' = Inr a)" if "pid > 0"
  proof -
    have "(tab w3)(b := None, a' := None) = t(a \<mapsto> Read_end k, b' \<mapsto> Write_end k')"
      using d by (auto simp: t3 t2 fun_eq_iff)
    then show ?thesis
      using popen2_parent_correct [OF doc mem fd_table(4) [OF doc fork], of a b a' b' w3] that call by fastforce
  qed
qed


text \<open>A system with a table of descriptors: the next two numbers are handed out by \<open>pipe\<close>, and the fork
  returns in the parent.\<close>

record fd_io = io +
  fd_list :: "(int \<times> desc) list"
  fd_next :: nat

definition table :: "fd_io \<Rightarrow> int \<rightharpoonup> desc" where
  "table w = map_of (fd_list w)"

definition table_pipe :: "fd_io \<Rightarrow> (int \<times> int) option \<times> fd_io" where
  "table_pipe w =
     (let n = fd_next w; a = int n; b = int n + 1; l = fd_list w in
      if {a, b} \<inter> fst ` set l = {} \<and> {Read_end n, Write_end n} \<inter> snd ` set l = {}
      then (Some (a, b), w\<lparr>fd_list := (b, Write_end n) # (a, Read_end n) # l, fd_next := n + 2\<rparr>)
      else (None, w))"

definition table_dup2 :: "int \<Rightarrow> int \<Rightarrow> fd_io \<Rightarrow> int \<times> fd_io" where
  "table_dup2 old fd w =
     (case table w old of None \<Rightarrow> (-1, w) | Some d \<Rightarrow> (fd, w\<lparr>fd_list := (fd, d) # fd_list w\<rparr>))"

definition table_fdopen :: "int \<Rightarrow> byte list \<Rightarrow> fd_io \<Rightarrow> addr \<times> fd_io" where
  "table_fdopen fd mode w =
     (let f = word_of_int (16 * (fd + 1)) in
      if f = 0 \<or> streams w f \<noteq> None then (0, w)
      else (f, w\<lparr>streams := (streams w)(f \<mapsto> \<lparr>input = [], read_fails = False, written = [], write_fails = False,
              eof_flag = False, err_flag = False, file_no = fd\<rparr>)\<rparr>))"

definition table_os :: "unit fd_io_ext os \<Rightarrow> unit fd_io_ext os" where
  "table_os os = os\<lparr>os_pipe := table_pipe,
     os_close := \<lambda>fd w. (0, w\<lparr>fd_list := filter (\<lambda>(x, _). x \<noteq> fd) (fd_list w)\<rparr>),
     os_dup2 := table_dup2, os_fflush := \<lambda>_ w. w, os_fork := \<lambda>w. (42, w), os_fdopen := table_fdopen,
     os_perror := \<lambda>_ w. w\<rparr>"

lemma map_of_filter_key: "map_of (filter (\<lambda>(x, _). x \<noteq> k) l) = (map_of l)(k := None)"
  by (induction l) (auto simp: fun_eq_iff)

lemma table_documented: "fd_documented (table_os os) table"
proof -
  have "new_pipe k (map_of l)" if "{Read_end k, Write_end k} \<inter> snd ` set l = {}" for k and l :: "(int \<times> desc) list"
    using that by (force simp: new_pipe_def dest!: sym [of "Some _"] dest: map_of_SomeD)
  then show ?thesis
    by (auto simp: fd_documented_def table_os_def table_def table_pipe_def table_dup2_def table_fdopen_def
        stream_opened_def map_of_filter_key map_of_eq_None_iff Let_def in_range_code
        intro!: exI [of _ "fd_next _"] split: option.splits if_splits)
qed


end
