(* ===== verification/Verify_Report.thy ===== *)
theory Verify_Report
  imports File_Support
begin

text \<open>
  What \<open>c/idris_util.c\<close> and \<open>refc/refc_util.c\<close> print before \<open>abort\<close>: the formatted message, cut to the buffer, and the
  line on \<open>stderr\<close>. The rest of the development keeps of a failed check only that it ends the program.
\<close>

section \<open>Formatted output\<close>

text \<open>The arguments a format is given. \<open>Arg_va_list\<close> is an argument of type \<open>va_list\<close>, which no conversion
  specification accepts.\<close>

datatype c_arg = Arg_int int | Arg_long_long int | Arg_string "byte list" | Arg_va_list

text \<open>The text that a format and its arguments stand for, for the specifications the sources use: \<open>%%\<close>,
  \<open>%s\<close>, \<open>%d\<close> and \<open>%lld\<close>. A specification whose argument is missing or has another type is undefined
  behaviour; arguments in excess are ignored.\<close>

fun c_format :: "byte list \<Rightarrow> c_arg list \<Rightarrow> byte list res" where
  "c_format [] as = Inr []"
| "c_format (c # cs) as =
     (if c \<noteq> 0x25 then bindr (c_format cs as) (\<lambda>s. Inr (c # s))
      else case (cs, as) of
          (d # ds, a # as') \<Rightarrow>
            (if d = 0x25 then bindr (c_format ds as) (\<lambda>s. Inr (0x25 # s))
             else if d = 0x73 then
               (case a of Arg_string t \<Rightarrow> bindr (c_format ds as') (\<lambda>s. Inr (t @ s)) | _ \<Rightarrow> Inl (Undefined Bad_type))
             else if d = 0x64 then
               (case a of Arg_int n \<Rightarrow> bindr (c_format ds as') (\<lambda>s. Inr (c_decimal n @ s)) | _ \<Rightarrow> Inl (Undefined Bad_type))
             else if d = 0x6C \<and> take 2 ds = [0x6C, 0x64] then
               (case a of Arg_long_long n \<Rightarrow> bindr (c_format (drop 2 ds) as') (\<lambda>s. Inr (c_decimal n @ s))
                | _ \<Rightarrow> Inl (Undefined Bad_type))
             else Inl (Undefined Bad_type))
        | (d # ds, []) \<Rightarrow>
            (if d = 0x25 then bindr (c_format ds as) (\<lambda>s. Inr (0x25 # s)) else Inl (Undefined Bad_type))
        | ([], _) \<Rightarrow> Inl (Undefined Bad_type))"

text \<open>\<open>snprintf(buf, n, fmt, ...)\<close>: what the buffer holds, a string of at most \<open>n - 1\<close> characters.\<close>

definition c_snprintf :: "nat \<Rightarrow> byte list \<Rightarrow> c_arg list \<Rightarrow> byte list res" where
  "c_snprintf n fmt as = bindr (c_format fmt as) (\<lambda>s. Inr (take (n - 1) s))"

section \<open>The reports\<close>

text \<open>The text written to \<open>stderr\<close>, and the fault that follows. The argument list itself is passed to \<open>snprintf\<close>, as in
  the source, not its elements.\<close>

definition idris2_verify_failed_report :: "byte list \<Rightarrow> int \<Rightarrow> byte list \<Rightarrow> byte list \<Rightarrow> (byte list \<times> fault) res" where
  "idris2_verify_failed_report file line cond fmt =
     bindr (c_snprintf 1000 fmt [Arg_va_list]) (\<lambda>message.
     bindr (c_format (chars ''assertion failed in %s:%d: %s: %s'' @ [0x0A])
              [Arg_string file, Arg_int line, Arg_string cond, Arg_string message]) (\<lambda>text.
     Inr (text, Verify_failed)))"

definition idris2_refc_verify_failed_report :: "byte list \<Rightarrow> int \<Rightarrow> byte list \<Rightarrow> byte list \<Rightarrow> (byte list \<times> fault) res" where
  "idris2_refc_verify_failed_report file line cond fmt =
     bindr (c_snprintf 1000 fmt [Arg_va_list]) (\<lambda>message.
     bindr (c_format (chars ''assertion failed in %s:%d: %s: %s'' @ [0x0A])
              [Arg_string file, Arg_int line, Arg_string cond, Arg_string message]) (\<lambda>text.
     Inr (text, Verify_failed)))"

lemma c_format_plain: "0x25 \<notin> set fmt \<Longrightarrow> c_format fmt as = Inr fmt"
  by (induction fmt) auto

lemma c_format_va_list:
  "0x25 \<notin> set pre \<Longrightarrow> d \<noteq> 0x25 \<Longrightarrow> c_format (pre @ 0x25 # d # post) [Arg_va_list] = Inl (Undefined Bad_type)"
  by (induction pre) auto

lemma report_line:
  "c_format (chars ''assertion failed in %s:%d: %s: %s'' @ [0x0A])
     [Arg_string file, Arg_int line, Arg_string cond, Arg_string message] =
   Inr (chars ''assertion failed in '' @ file @ chars '':'' @ c_decimal line @ chars '': '' @ cond @ chars '': '' @ message @ [0x0A])"
  by (simp add: chars_def)

text \<open>C36. A failed check reports itself only when its message takes no arguments: then the line on \<open>stderr\<close> is
  the file, line number, condition and the first 999 characters of the message, followed by the
  abort. A message with a conversion specification, such as \<open>"fclose failed: %s"\<close>, is undefined behaviour
  before anything is printed.\<close>

theorem verify_failed_reports:
  "(0x25 \<notin> set fmt \<longrightarrow> idris2_verify_failed_report file line cond fmt =
      Inr (chars ''assertion failed in '' @ file @ chars '':'' @ c_decimal line @ chars '': '' @ cond @ chars '': '' @
           take 999 fmt @ [0x0A], Verify_failed)) \<and>
   (0x25 \<notin> set pre \<and> d \<noteq> 0x25 \<longrightarrow>
      idris2_verify_failed_report file line cond (pre @ 0x25 # d # post) = Inl (Undefined Bad_type)) \<and>
   idris2_refc_verify_failed_report file line cond fmt = idris2_verify_failed_report file line cond fmt"
  unfolding idris2_verify_failed_report_def idris2_refc_verify_failed_report_def c_snprintf_def
  by (simp add: report_line c_format_plain c_format_va_list)

theorem verify_failed_reports_witness:
  "idris2_verify_failed_report (chars ''idris_memory.c'') 18 (chars ''ptr'') (chars ''malloc failed'') =
     Inr (chars ''assertion failed in '' @ chars ''idris_memory.c'' @ chars '':'' @ c_decimal 18 @ chars '': '' @ chars ''ptr'' @
          chars '': '' @ take 999 (chars ''malloc failed'') @ [0x0A], Verify_failed) \<and>
   idris2_verify_failed_report (chars ''idris_file.c'') 32 (chars ''fclose(f) == 0'') (chars ''fclose failed: '' @ 0x25 # 0x73 # []) =
     Inl (Undefined Bad_type)"
  using verify_failed_reports [of "chars ''malloc failed''" "chars ''idris_memory.c''" 18 "chars ''ptr''"]
    verify_failed_reports [of "chars ''malloc failed''" "chars ''idris_file.c''" 32 "chars ''fclose(f) == 0''"
      "chars ''fclose failed: ''" "0x73" "[]"]
  by (simp add: chars_def)

end
