(* ===== verification/Net.thy ===== *)
theory Net
  imports Support Buffer
begin

text \<open>
  \<open>c/idris_net.c\<close> (the POSIX branches).

  Socket addresses are byte strings in the layout of Linux: the family in bytes 0 and 1 (little
  endian), the port of an IP address in bytes 2 and 3 (network order), an IPv4 address in bytes 4 to 7,
  the path of a Unix address from byte 2. The socket calls are the fields of the record \<open>net\<close>. A call
  that receives data returns it as a byte string, and the definitions below write it to the caller's
  block, so that a write outside the block is visible.
\<close>

record addrinfo =
  ai_id :: nat
  ai_addr :: "byte list"

record 'w net =
  net_socket :: "int \<Rightarrow> int \<Rightarrow> int \<Rightarrow> 'w io_scheme \<Rightarrow> int \<times> 'w io_scheme"
  net_close :: "int \<Rightarrow> 'w io_scheme \<Rightarrow> int \<times> 'w io_scheme"
  net_getaddrinfo :: "byte list option \<Rightarrow> byte list \<Rightarrow> int \<Rightarrow> int \<Rightarrow> int \<Rightarrow> 'w io_scheme \<Rightarrow>
    int \<times> addrinfo \<times> 'w io_scheme" \<comment> \<open>host, port, then family, type and flags of the hints\<close>
  net_freeaddrinfo :: "addrinfo \<Rightarrow> 'w io_scheme \<Rightarrow> 'w io_scheme"
  net_bind :: "int \<Rightarrow> byte list \<Rightarrow> 'w io_scheme \<Rightarrow> int \<times> 'w io_scheme"
  net_connect :: "int \<Rightarrow> byte list \<Rightarrow> 'w io_scheme \<Rightarrow> int \<times> 'w io_scheme"
  net_getsockname :: "int \<Rightarrow> 'w io_scheme \<Rightarrow> int \<times> byte list"
  net_listen :: "int \<Rightarrow> int \<Rightarrow> 'w io_scheme \<Rightarrow> int \<times> 'w io_scheme"
  net_fdopen :: "int \<Rightarrow> byte list \<Rightarrow> 'w io_scheme \<Rightarrow> addr \<times> 'w io_scheme"
  net_accept :: "int \<Rightarrow> 'w io_scheme \<Rightarrow> int \<times> byte list \<times> 'w io_scheme"
  net_send :: "int \<Rightarrow> byte list \<Rightarrow> 'w io_scheme \<Rightarrow> int \<times> 'w io_scheme"
  net_sendto :: "int \<Rightarrow> byte list \<Rightarrow> byte list \<Rightarrow> 'w io_scheme \<Rightarrow> int \<times> 'w io_scheme"
  net_recv :: "int \<Rightarrow> nat \<Rightarrow> int \<Rightarrow> 'w io_scheme \<Rightarrow> byte list option \<times> 'w io_scheme"
  net_recvfrom :: "int \<Rightarrow> nat \<Rightarrow> 'w io_scheme \<Rightarrow> (byte list \<times> byte list) option \<times> 'w io_scheme"
  net_perror :: "byte list \<Rightarrow> 'w io_scheme \<Rightarrow> 'w io_scheme"

text \<open>What POSIX says of \<open>recv\<close> and \<open>recvfrom\<close>: no more bytes than asked for.\<close>

definition net_documented :: "'w net \<Rightarrow> bool" where
  "net_documented net \<longleftrightarrow>
     (\<forall>fd n flags w bs w'. net_recv net fd n flags w = (Some bs, w') \<longrightarrow> length bs \<le> n) \<and>
     (\<forall>fd n w bs a w'. net_recvfrom net fd n w = (Some (bs, a), w') \<longrightarrow> length bs \<le> n)"

section \<open>Byte order\<close>

definition c_htonl :: "int \<Rightarrow> int" where
  "c_htonl v = c_conv Int32 (le_value (rev (le_bytes 4 v)))"

text \<open>The number of turns of the loops: \<open>(len / sizeof(int)) + 1\<close>, in \<open>size_t\<close>.\<close>

definition buf_ints :: "int \<Rightarrow> nat" where
  "buf_ints len = c_size len div 4 + 1"

definition buf_htonl :: "addr \<Rightarrow> int \<Rightarrow> mem \<Rightarrow> mem res" where
  "buf_htonl buf len m =
     eachr (\<lambda>i m. bindr (load_int buf (4 * int i) m) (\<lambda>v. store_int buf (4 * int i) (c_htonl v) m))
       [0..<buf_ints len] m"

definition buf_ntohl :: "addr \<Rightarrow> int \<Rightarrow> mem \<Rightarrow> mem res" where
  "buf_ntohl buf len m =
     eachr (\<lambda>i m. bindr (load_int buf (4 * int i) m) (\<lambda>v. store_int buf (4 * int i) (c_htonl v) m))
       [0..<buf_ints len] m"

section \<open>Addresses\<close>

definition AF_UNSPEC :: int where "AF_UNSPEC = 0"
definition AF_UNIX :: int where "AF_UNIX = 1"
definition AF_INET :: int where "AF_INET = 2"
definition AF_INET6 :: int where "AF_INET6 = 10"
definition SOCK_DGRAM :: int where "SOCK_DGRAM = 2"
definition AI_PASSIVE :: int where "AI_PASSIVE = 1"
definition sizeof_sockaddr_storage :: nat where "sizeof_sockaddr_storage = 128"

text \<open>\<open>sun_path\<close> has 108 bytes; \<open>strcpy\<close> does not check.\<close>

definition get_sockaddr_unix :: "addr \<Rightarrow> mem \<Rightarrow> byte list res" where
  "get_sockaddr_unix host m =
     bindr (c_string host 0 m) (\<lambda>path.
     if length path + 1 \<le> 108
     then Inr (le_bytes 2 AF_UNIX @ path @ replicate (108 - length path) 0)
     else Inl (Undefined Out_of_bounds))"

definition idrnet_peek :: "addr \<Rightarrow> 32 word \<Rightarrow> mem \<Rightarrow> 32 word res" where
  "idrnet_peek ptr offset m = bindr (load_byte ptr (uint offset) m) (\<lambda>b. Inr (ucast b))"

definition idrnet_poke :: "addr \<Rightarrow> 32 word \<Rightarrow> byte \<Rightarrow> mem \<Rightarrow> mem res" where
  "idrnet_poke ptr offset val m = store_byte ptr (uint offset) val m"

definition idrnet_socket :: "'w net \<Rightarrow> int \<Rightarrow> int \<Rightarrow> int \<Rightarrow> 'w io_scheme \<Rightarrow> int \<times> 'w io_scheme" where
  "idrnet_socket net family type protocol w = net_socket net family type protocol w"

definition idrnet_close :: "'w net \<Rightarrow> int \<Rightarrow> 'w io_scheme \<Rightarrow> int \<times> 'w io_scheme" where
  "idrnet_close net fd w = net_close net fd w"

definition idrnet_af_unspec :: int where "idrnet_af_unspec = AF_UNSPEC"
definition idrnet_af_unix :: int where "idrnet_af_unix = AF_UNIX"
definition idrnet_af_inet :: int where "idrnet_af_inet = AF_INET"
definition idrnet_af_inet6 :: int where "idrnet_af_inet6 = AF_INET6"

text \<open>The port is printed into an array of 8 characters.\<close>

definition idrnet_getaddrinfo :: "'w net \<Rightarrow> addr \<Rightarrow> int \<Rightarrow> int \<Rightarrow> int \<Rightarrow> mem \<Rightarrow> 'w io_scheme \<Rightarrow>
    (int \<times> addrinfo \<times> 'w io_scheme) res" where
  "idrnet_getaddrinfo net host port family socket_type m w =
     (let str_port = c_decimal port in
      if length str_port + 1 > 8 then Inl (Undefined Out_of_bounds)
      else bindr (c_string host 0 m) (\<lambda>h.
        if length h = 0 then Inr (net_getaddrinfo net None str_port family socket_type AI_PASSIVE w)
        else Inr (net_getaddrinfo net (Some h) str_port family socket_type 0 w)))"

definition idrnet_bind :: "'w net \<Rightarrow> int \<Rightarrow> int \<Rightarrow> int \<Rightarrow> addr \<Rightarrow> int \<Rightarrow> mem \<Rightarrow> 'w io_scheme \<Rightarrow> (int \<times> 'w io_scheme) res" where
  "idrnet_bind net sockfd family socket_type host port m w =
     bindr (if family = AF_UNIX
            then bindr (get_sockaddr_unix host m) (\<lambda>a. Inr (Some (net_bind net sockfd a w), w))
            else bindr (idrnet_getaddrinfo net host port family socket_type m w) (\<lambda>(addr_res, address_res, w1).
                 if addr_res \<noteq> 0 then Inr (None, w1)
                 else Inr (Some (net_bind net sockfd (ai_addr address_res) w1), w1))) (\<lambda>(bound, w1).
     case bound of
       None \<Rightarrow> Inr (-1, w1)
     | Some (bind_res, w2) \<Rightarrow> if bind_res = -1 then Inr (-1, w2) else Inr (0, w2))"

text \<open>\<open>getsockname(sockfd, address, len)\<close>: at most \<open>*len\<close> bytes of the address are written, \<open>*len\<close>
  becomes its length.\<close>

definition idrnet_getsockname :: "'w net \<Rightarrow> int \<Rightarrow> addr \<Rightarrow> addr \<Rightarrow> mem \<Rightarrow> 'w io_scheme \<Rightarrow> (int \<times> mem) res" where
  "idrnet_getsockname net sockfd address len m w =
     (let (res, bs) = net_getsockname net sockfd w in
      if res \<noteq> 0 then Inr (-1, m)
      else bindr (load_int len 0 m) (\<lambda>n.
           bindr (c_store_bytes address 0 (take (nat n) bs) m) (\<lambda>m1.
           bindr (store_int len 0 (int (length bs)) m1) (\<lambda>m2. Inr (0, m2)))))"

text \<open>Two bytes in network order, and in the order of the machine.\<close>

definition be16 :: "byte option list \<Rightarrow> int \<Rightarrow> int res" where
  "be16 bs i = bindr (nth_res bs i) (\<lambda>a. bindr (nth_res bs (i + 1)) (\<lambda>b. Inr (256 * uint a + uint b)))"

definition le16 :: "byte option list \<Rightarrow> int \<Rightarrow> int res" where
  "le16 bs i = bindr (nth_res bs i) (\<lambda>a. bindr (nth_res bs (i + 1)) (\<lambda>b. Inr (uint a + 256 * uint b)))"

definition idrnet_sockaddr_port :: "'w net \<Rightarrow> int \<Rightarrow> 'w io_scheme \<Rightarrow> int res" where
  "idrnet_sockaddr_port net sockfd w =
     (let (res, bs) = net_getsockname net sockfd w;
          address = map Some (take sizeof_sockaddr_storage bs) @ replicate (sizeof_sockaddr_storage - length bs) None
      in if res < 0 then Inr (-1)
         else bindr (le16 address 0) (\<lambda>family.
              if family = AF_INET then be16 address 2
              else if family = AF_INET6 then be16 address 2
              else Inr (-1)))"

definition idrnet_connect :: "'w net \<Rightarrow> int \<Rightarrow> int \<Rightarrow> int \<Rightarrow> addr \<Rightarrow> int \<Rightarrow> mem \<Rightarrow> 'w io_scheme \<Rightarrow> (int \<times> 'w io_scheme) res" where
  "idrnet_connect net sockfd family socket_type host port m w =
     (if family = AF_UNIX
      then bindr (get_sockaddr_unix host m) (\<lambda>a. Inr (net_connect net sockfd a w))
      else bindr (idrnet_getaddrinfo net host port family socket_type m w) (\<lambda>(addr_res, remote_host, w1).
        if addr_res \<noteq> 0 then Inr (-1, w1)
        else let (connect_res, w2) = net_connect net sockfd (ai_addr remote_host) w1;
                 w3 = net_freeaddrinfo net remote_host w2
             in if connect_res = -1 then Inr (-1, w3) else Inr (0, w3)))"

definition idrnet_listen :: "'w net \<Rightarrow> int \<Rightarrow> int \<Rightarrow> 'w io_scheme \<Rightarrow> int \<times> 'w io_scheme" where
  "idrnet_listen net socket backlog w = net_listen net socket backlog w"

definition idrnet_fdopen :: "'w net \<Rightarrow> int \<Rightarrow> addr \<Rightarrow> mem \<Rightarrow> 'w io_scheme \<Rightarrow> (addr \<times> 'w io_scheme) res" where
  "idrnet_fdopen net fd mode m w = bindr (c_string mode 0 m) (\<lambda>md. Inr (net_fdopen net fd md w))"

definition idrnet_sockaddr_family :: "addr \<Rightarrow> mem \<Rightarrow> int res" where
  "idrnet_sockaddr_family sockaddr m = bindr (get_bytes sockaddr m) (\<lambda>bs. le16 bs 0)"

text \<open>\<open>inet_ntop(AF_INET, ...)\<close>: the dotted decimal text, at most \<open>INET_ADDRSTRLEN = 16\<close> bytes with its zero.\<close>

definition ipv4_text :: "byte list \<Rightarrow> byte list" where
  "ipv4_text bs = tl (concat (map (\<lambda>b. 0x2E # c_decimal (uint b)) bs))"

definition idrnet_sockaddr_ipv4 :: "addr \<Rightarrow> mem \<Rightarrow> (addr \<times> mem) res" where
  "idrnet_sockaddr_ipv4 sockaddr m =
     (let (ip_addr, m1) = c_malloc 16 m in
      bindr (load_byte sockaddr 4 m1) (\<lambda>a. bindr (load_byte sockaddr 5 m1) (\<lambda>b.
      bindr (load_byte sockaddr 6 m1) (\<lambda>c. bindr (load_byte sockaddr 7 m1) (\<lambda>d.
      bindr (c_sprintf ip_addr (ipv4_text [a, b, c, d]) m1) (\<lambda>m2. Inr (ip_addr, m2)))))))"

definition idrnet_sockaddr_ipv4_port :: "addr \<Rightarrow> mem \<Rightarrow> int res" where
  "idrnet_sockaddr_ipv4_port sockaddr m = bindr (get_bytes sockaddr m) (\<lambda>bs. be16 bs 2)"

text \<open>A pointer into the address: the block and the offset of \<open>sun_path\<close>.\<close>

definition idrnet_sockaddr_unix :: "addr \<Rightarrow> addr \<times> int" where
  "idrnet_sockaddr_unix sockaddr = (sockaddr, 2)"

definition idrnet_create_sockaddr :: "mem \<Rightarrow> addr \<times> mem" where
  "idrnet_create_sockaddr m = c_malloc sizeof_sockaddr_storage m"

definition idrnet_accept :: "'w net \<Rightarrow> int \<Rightarrow> addr \<Rightarrow> mem \<Rightarrow> 'w io_scheme \<Rightarrow> (int \<times> mem \<times> 'w io_scheme) res" where
  "idrnet_accept net sockfd sockaddr m w =
     (let (r, bs, w1) = net_accept net sockfd w in
      if r < 0 then Inr (r, m, w1)
      else bindr (c_store_bytes sockaddr 0 (take sizeof_sockaddr_storage bs) m) (\<lambda>m1. Inr (r, m1, w1)))"

section \<open>Sending and receiving\<close>

text \<open>The bytes a call sends: all of them must be in the block and initialised.\<close>

definition sent_bytes :: "addr \<Rightarrow> nat \<Rightarrow> mem \<Rightarrow> byte list res" where
  "sent_bytes p n m =
     bindr (get_bytes p m) (\<lambda>bs.
     if n > length bs then Inl (Undefined Out_of_bounds)
     else if None \<in> set (take n bs) then Inl (Undefined Uninitialised)
     else Inr (map the (take n bs)))"

text \<open>\<open>recv(fd, buf, len, flags)\<close> with the data written to the block.\<close>

definition c_recv :: "'w net \<Rightarrow> int \<Rightarrow> addr \<Rightarrow> nat \<Rightarrow> int \<Rightarrow> mem \<Rightarrow> 'w io_scheme \<Rightarrow> (int \<times> mem \<times> 'w io_scheme) res" where
  "c_recv net fd buf n flags m w =
     (case net_recv net fd n flags w of
        (None, w1) \<Rightarrow> Inr (-1, m, w1)
      | (Some bs, w1) \<Rightarrow> bindr (c_store_bytes buf 0 bs m) (\<lambda>m1. Inr (int (length bs), m1, w1)))"

text \<open>\<open>recvfrom\<close>: the data, and at most \<open>fromlen\<close> bytes of the sender's address.\<close>

definition c_recvfrom :: "'w net \<Rightarrow> int \<Rightarrow> addr \<Rightarrow> nat \<Rightarrow> addr \<Rightarrow> nat \<Rightarrow> mem \<Rightarrow> 'w io_scheme \<Rightarrow>
    (int \<times> mem \<times> 'w io_scheme) res" where
  "c_recvfrom net fd buf n from_addr fromlen m w =
     (case net_recvfrom net fd n w of
        (None, w1) \<Rightarrow> Inr (-1, m, w1)
      | (Some (bs, a), w1) \<Rightarrow>
          bindr (c_store_bytes buf 0 bs m) (\<lambda>m1.
          bindr (c_store_bytes from_addr 0 (take fromlen a) m1) (\<lambda>m2. Inr (int (length bs), m2, w1))))"

definition idrnet_send :: "'w net \<Rightarrow> int \<Rightarrow> addr \<Rightarrow> mem \<Rightarrow> 'w io_scheme \<Rightarrow> (int \<times> 'w io_scheme) res" where
  "idrnet_send net sockfd data m w =
     bindr (c_strlen data 0 m) (\<lambda>l.
     let len = c_conv Int32 (int l) in
     bindr (sent_bytes data (c_size len) m) (\<lambda>bs. Inr (net_send net sockfd bs w)))"

definition idrnet_send_bytes :: "'w net \<Rightarrow> int \<Rightarrow> addr \<Rightarrow> int \<Rightarrow> mem \<Rightarrow> 'w io_scheme \<Rightarrow> (int \<times> 'w io_scheme) res" where
  "idrnet_send_bytes net sockfd data len m w =
     bindr (sent_bytes data (c_size len) m) (\<lambda>bs. Inr (net_send net sockfd bs w))"

definition idrnet_send_buf :: "'w net \<Rightarrow> int \<Rightarrow> addr \<Rightarrow> int \<Rightarrow> mem \<Rightarrow> 'w io_scheme \<Rightarrow> (int \<times> mem \<times> 'w io_scheme) res" where
  "idrnet_send_buf net sockfd data len m w =
     (let (buf_cpy, m1) = c_malloc (c_size len) m in
      bindr (c_memset buf_cpy 0 (c_size len) m1) (\<lambda>m2.
      bindr (c_memcpy buf_cpy 0 data 0 (c_size len) m2) (\<lambda>m3.
      bindr (buf_htonl buf_cpy len m3) (\<lambda>m4.
      bindr (sent_bytes buf_cpy (c_size len) m4) (\<lambda>bs.
      let (res, w1) = net_send net sockfd bs w in
      bindr (c_free buf_cpy m4) (\<lambda>m5. Inr (res, m5, w1)))))))"

text \<open>The members of \<open>idrnet_recv_result\<close> and \<open>idrnet_recvfrom_result\<close>.\<close>

definition recv_result :: int where "recv_result = 0"
definition recv_payload :: int where "recv_payload = 1"
definition recv_remote_addr :: int where "recv_remote_addr = 2"

definition idrnet_recv :: "'w net \<Rightarrow> int \<Rightarrow> int \<Rightarrow> mem \<Rightarrow> 'w io_scheme \<Rightarrow> (addr \<times> mem \<times> 'w io_scheme) res" where
  "idrnet_recv net sockfd len m w =
     (let (res_struct, m1) = c_malloc_ptrs 2 m in
      bindr (c_add Int32 len 1) (\<lambda>len1.
      let (buf, m2) = c_malloc (c_size len1) m1 in
      bindr (c_memset buf 0 (c_size len1) m2) (\<lambda>m3.
      bindr (c_recv net sockfd buf (c_size len) 0 m3 w) (\<lambda>(recv_res, m4, w1).
      bindr (store_field res_struct recv_result recv_res m4) (\<lambda>m5.
      bindr (if recv_res > 0 then store_byte buf (recv_res + 1) 0 m5 else Inr m5) (\<lambda>m6.
      bindr (store_ptr res_struct recv_payload buf m6) (\<lambda>m7. Inr (res_struct, m7, w1))))))))"

definition idrnet_recv_bytes :: "'w net \<Rightarrow> int \<Rightarrow> addr \<Rightarrow> int \<Rightarrow> int \<Rightarrow> mem \<Rightarrow> 'w io_scheme \<Rightarrow> (int \<times> mem \<times> 'w io_scheme) res" where
  "idrnet_recv_bytes net sockfd buf len flags m w = c_recv net sockfd buf (c_size len) flags m w"

definition idrnet_recv_buf :: "'w net \<Rightarrow> int \<Rightarrow> addr \<Rightarrow> int \<Rightarrow> mem \<Rightarrow> 'w io_scheme \<Rightarrow> (int \<times> mem \<times> 'w io_scheme) res" where
  "idrnet_recv_buf net sockfd buf len m w =
     bindr (c_recv net sockfd buf (c_size len) 0 m w) (\<lambda>(recv_res, m1, w1).
     bindr (if recv_res \<noteq> -1 then buf_ntohl buf len m1 else Inr m1) (\<lambda>m2. Inr (recv_res, m2, w1)))"

definition idrnet_get_recv_res :: "addr \<Rightarrow> mem \<Rightarrow> int res" where
  "idrnet_get_recv_res res_struct m = load_field res_struct recv_result m"

definition idrnet_get_recv_payload :: "addr \<Rightarrow> mem \<Rightarrow> addr res" where
  "idrnet_get_recv_payload res_struct m = load_ptr res_struct recv_payload m"

definition idrnet_free_recv_struct :: "addr \<Rightarrow> mem \<Rightarrow> mem res" where
  "idrnet_free_recv_struct res_struct m =
     bindr (load_ptr res_struct recv_payload m) (\<lambda>p.
     bindr (if p \<noteq> 0 then c_free p m else Inr m) (c_free res_struct))"

definition idrnet_errno :: "'w io_scheme \<Rightarrow> int" where
  "idrnet_errno w = errno w"

definition idrnet_sendto :: "'w net \<Rightarrow> int \<Rightarrow> addr \<Rightarrow> addr \<Rightarrow> int \<Rightarrow> int \<Rightarrow> mem \<Rightarrow> 'w io_scheme \<Rightarrow> (int \<times> 'w io_scheme) res" where
  "idrnet_sendto net sockfd data host port family m w =
     bindr (idrnet_getaddrinfo net host port family SOCK_DGRAM m w) (\<lambda>(addr_res, remote_host, w1).
     if addr_res \<noteq> 0 then Inr (-1, w1)
     else bindr (c_string data 0 m) (\<lambda>bs.
          let (send_res, w2) = net_sendto net sockfd bs (ai_addr remote_host) w1
          in Inr (send_res, net_freeaddrinfo net remote_host w2)))"

definition idrnet_sendto_buf :: "'w net \<Rightarrow> int \<Rightarrow> addr \<Rightarrow> int \<Rightarrow> addr \<Rightarrow> int \<Rightarrow> int \<Rightarrow> mem \<Rightarrow> 'w io_scheme \<Rightarrow>
    (int \<times> mem \<times> 'w io_scheme) res" where
  "idrnet_sendto_buf net sockfd buf buf_len host port family m w =
     bindr (idrnet_getaddrinfo net host port family SOCK_DGRAM m w) (\<lambda>(addr_res, remote_host, w1).
     if addr_res \<noteq> 0 then Inr (-1, m, w1)
     else bindr (buf_htonl buf buf_len m) (\<lambda>m1.
          bindr (sent_bytes buf (c_size buf_len) m1) (\<lambda>bs.
          let (send_res, w2) = net_sendto net sockfd bs (ai_addr remote_host) w1
          in Inr (send_res, m1, if send_res = -1 then net_perror net (chars (''lib err: sendto '' @ [CHR 0x0A])) w2 else w2))))"

definition idrnet_recvfrom :: "'w net \<Rightarrow> int \<Rightarrow> int \<Rightarrow> mem \<Rightarrow> 'w io_scheme \<Rightarrow> (addr \<times> mem \<times> 'w io_scheme) res" where
  "idrnet_recvfrom net sockfd len m w =
     (let (remote_addr, m1) = c_malloc sizeof_sockaddr_storage m in
      bindr (c_add Int32 len 1) (\<lambda>len1.
      let (buf, m2) = c_malloc (c_size len1) m1; (ret, m3) = c_malloc_ptrs 3 m2 in
      bindr (c_memset remote_addr 0 sizeof_sockaddr_storage m3) (\<lambda>m4.
      bindr (c_memset buf 0 (c_size len1) m4) (\<lambda>m5.
      bindr (c_memset_ptrs ret 3 m5) (\<lambda>m6.
      bindr (c_recvfrom net sockfd buf (c_size len) remote_addr sizeof_sockaddr_storage m6 w) (\<lambda>(recv_res, m7, w1).
      bindr (store_field ret recv_result recv_res m7) (\<lambda>m8.
      if recv_res = -1
      then bindr (c_free buf m8) (\<lambda>m9. bindr (c_free remote_addr m9) (\<lambda>m10. Inr (ret, m10, w1)))
      else bindr (store_ptr ret recv_remote_addr remote_addr m8) (\<lambda>m9.
           bindr (store_byte buf len 0 m9) (\<lambda>m10.
           bindr (store_ptr ret recv_payload buf m10) (\<lambda>m11. Inr (ret, m11, w1)))))))))))"

definition idrnet_recvfrom_buf :: "'w net \<Rightarrow> int \<Rightarrow> addr \<Rightarrow> int \<Rightarrow> mem \<Rightarrow> 'w io_scheme \<Rightarrow> (addr \<times> mem \<times> 'w io_scheme) res" where
  "idrnet_recvfrom_buf net sockfd buf len m w =
     (let (remote_addr, m1) = c_malloc sizeof_sockaddr_storage m; (ret, m2) = c_malloc_ptrs 3 m1 in
      bindr (c_memset remote_addr 0 sizeof_sockaddr_storage m2) (\<lambda>m3.
      bindr (c_memset_ptrs ret 3 m3) (\<lambda>m4.
      bindr (c_recvfrom net sockfd buf (c_size len) remote_addr 0 m4 w) (\<lambda>(recv_res, m5, w1).
      bindr (store_field ret recv_result recv_res m5) (\<lambda>m6.
      bindr (if recv_res = -1 then c_free remote_addr m6 else Inr m6) (\<lambda>m7.
      bindr (if recv_res > 0
             then bindr (buf_ntohl buf len m7) (\<lambda>m8.
                  bindr (store_ptr ret recv_payload 0 m8) (store_ptr ret recv_remote_addr remote_addr))
             else Inr m7) (\<lambda>m9. Inr (ret, m9, w1))))))))"

definition idrnet_get_recvfrom_res :: "addr \<Rightarrow> mem \<Rightarrow> int res" where
  "idrnet_get_recvfrom_res res_struct m = load_field res_struct recv_result m"

definition idrnet_get_recvfrom_payload :: "addr \<Rightarrow> mem \<Rightarrow> addr res" where
  "idrnet_get_recvfrom_payload res_struct m = load_ptr res_struct recv_payload m"

definition idrnet_get_recvfrom_sockaddr :: "addr \<Rightarrow> mem \<Rightarrow> addr res" where
  "idrnet_get_recvfrom_sockaddr res_struct m = load_ptr res_struct recv_remote_addr m"

definition idrnet_get_recvfrom_port :: "addr \<Rightarrow> mem \<Rightarrow> int res" where
  "idrnet_get_recvfrom_port res_struct m =
     bindr (load_ptr res_struct recv_remote_addr m) (\<lambda>a.
     if a \<noteq> 0 then bindr (get_bytes a m) (\<lambda>bs. be16 bs 2) else Inr (-1))"

definition idrnet_free_recvfrom_struct :: "addr \<Rightarrow> mem \<Rightarrow> mem res" where
  "idrnet_free_recvfrom_struct res_struct m =
     (if res_struct = 0 then Inr m
      else bindr (load_ptr res_struct recv_payload m) (\<lambda>p.
           bindr (if p \<noteq> 0 then c_free p m else Inr m) (\<lambda>m1.
           bindr (load_ptr res_struct recv_remote_addr m1) (\<lambda>a.
           if a \<noteq> 0 then c_free a m1 else Inr m1))))"

definition idrnet_geteagain :: int where "idrnet_geteagain = 11"

definition isNull :: "addr \<Rightarrow> int" where
  "isNull ptr = (if ptr = 0 then 1 else 0)"

end
