(* ===== verification/Windows.thy ===== *)
theory Windows
  imports Net Signals
begin

text \<open>
  \<open>c/windows/win_utils.c\<close> and the \<open>_WIN32\<close> branches of the files under \<open>c/\<close>, on 64-bit Windows (\<open>long\<close>
  has 32 bits).

  The calls of the Windows API and of its C library are the fields of the record \<open>win\<close>; a handle is a
  pointer value. A \<open>FILETIME\<close> is its pair of halves, a wide string a list of 16-bit units. What the
  code reads from and writes to memory is modelled: wide strings in their blocks, the array of
  processor information as a block of 64-bit words (4 per entry), \<open>struct child_process\<close> and
  \<open>struct filetime\<close>.
\<close>

type_synonym FILETIME = "32 word \<times> 32 word"

record 'w win =
  win_get_osfhandle :: "int \<Rightarrow> 'w io_scheme \<Rightarrow> addr"
  win_WaitForSingleObject :: "addr \<Rightarrow> int \<Rightarrow> 'w io_scheme \<Rightarrow> int \<times> 'w io_scheme"
  win_MultiByteToWideChar :: "byte list \<Rightarrow> 16 word list" \<comment> \<open>with the terminating zero; empty on failure\<close>
  win_wfopen :: "16 word list \<Rightarrow> 16 word list \<Rightarrow> 'w io_scheme \<Rightarrow> addr \<times> 'w io_scheme"
  win_wpopen :: "16 word list \<Rightarrow> 16 word list \<Rightarrow> 'w io_scheme \<Rightarrow> addr \<times> 'w io_scheme"
  win_pclose :: "addr \<Rightarrow> 'w io_scheme \<Rightarrow> int \<times> 'w io_scheme"
  win_GetSystemTimePreciseAsFileTime :: "'w io_scheme \<Rightarrow> FILETIME"
  win_Sleep :: "int \<Rightarrow> 'w io_scheme \<Rightarrow> 'w io_scheme"
  win_getenv :: "byte list \<Rightarrow> 'w io_scheme \<Rightarrow> byte list option"
  win_putenv_s :: "byte list \<Rightarrow> byte list \<Rightarrow> 'w io_scheme \<Rightarrow> int \<times> 'w io_scheme"
  win_GetLastError :: "'w io_scheme \<Rightarrow> int"
  win_getpid :: "'w io_scheme \<Rightarrow> int"
  win_glpi :: "nat \<Rightarrow> 'w io_scheme \<Rightarrow> (addr list + int \<times> nat) \<times> 'w io_scheme"
    \<comment> \<open>\<open>GetLogicalProcessorInformation\<close> on a buffer of that length: the words written, or the error
        number and the length required\<close>
  win_GetFileTime :: "addr \<Rightarrow> 'w io_scheme \<Rightarrow> (FILETIME \<times> FILETIME \<times> FILETIME) option" \<comment> \<open>creation, access, write\<close>
  win_isatty :: "int \<Rightarrow> 'w io_scheme \<Rightarrow> int"
  win_CreatePipe :: "'w io_scheme \<Rightarrow> (addr \<times> addr) option \<times> 'w io_scheme"
  win_not_inherited :: "addr \<Rightarrow> 'w io_scheme \<Rightarrow> 'w io_scheme" \<comment> \<open>\<open>SetHandleInformation(h, HANDLE_FLAG_INHERIT, 0)\<close>\<close>
  win_CreateProcess :: "byte list \<Rightarrow> addr \<Rightarrow> addr \<Rightarrow> 'w io_scheme \<Rightarrow> (addr \<times> addr \<times> int) option \<times> 'w io_scheme"
    \<comment> \<open>command line, standard input and output: process, thread and process id\<close>
  win_open_osfhandle :: "addr \<Rightarrow> int \<Rightarrow> 'w io_scheme \<Rightarrow> int \<times> 'w io_scheme"
  win_CloseHandle :: "addr \<Rightarrow> 'w io_scheme \<Rightarrow> 'w io_scheme"
  win_fdopen :: "int \<Rightarrow> byte list \<Rightarrow> 'w io_scheme \<Rightarrow> addr \<times> 'w io_scheme"
  win_GetExitCodeProcess :: "addr \<Rightarrow> 'w io_scheme \<Rightarrow> int option"
  win_perror :: "byte list \<Rightarrow> 'w io_scheme \<Rightarrow> 'w io_scheme"
  win_stdout_handle :: addr
  win_GetConsoleMode :: "addr \<Rightarrow> 'w io_scheme \<Rightarrow> 32 word option"
  win_SetConsoleMode :: "addr \<Rightarrow> 32 word \<Rightarrow> 'w io_scheme \<Rightarrow> 'w io_scheme"
  win_srWindow :: "addr \<Rightarrow> 'w io_scheme \<Rightarrow> (int \<times> int \<times> int \<times> int) option" \<comment> \<open>left, top, right, bottom\<close>
  win_mkdir :: "byte list \<Rightarrow> 'w io_scheme \<Rightarrow> int \<times> 'w io_scheme"
  win_WSAStartup :: "'w io_scheme \<Rightarrow> int \<times> 'w io_scheme"
  win_close :: "int \<Rightarrow> 'w io_scheme \<Rightarrow> int \<times> 'w io_scheme"

definition INVALID_HANDLE_VALUE :: addr where "INVALID_HANDLE_VALUE = -1"
definition WAIT_OBJECT_0 :: int where "WAIT_OBJECT_0 = 0"
definition WAIT_TIMEOUT :: int where "WAIT_TIMEOUT = 258"
definition INFINITE :: int where "INFINITE = 0xFFFFFFFF"
definition ERROR_INSUFFICIENT_BUFFER :: int where "ERROR_INSUFFICIENT_BUFFER = 122"

section \<open>win_utils.c\<close>

definition win_fpoll :: "'w win \<Rightarrow> addr \<Rightarrow> 'w io_scheme \<Rightarrow> (int \<times> 'w io_scheme) res" where
  "win_fpoll W f w =
     bindr (c_fileno f w) (\<lambda>fd.
     let wh = win_get_osfhandle W fd w in
     if wh = INVALID_HANDLE_VALUE then Inr (-1, w)
     else let (ret, w1) = win_WaitForSingleObject W wh 1000 w in
          if ret = WAIT_OBJECT_0 then Inr (1, w1)
          else if ret = WAIT_TIMEOUT then Inr (0, w1)
          else Inr (-1, w1))"

subsection \<open>Wide strings\<close>

definition wchar_bytes :: "16 word \<Rightarrow> byte list" where
  "wchar_bytes c = [ucast c, ucast (drop_bit 8 c)]"

text \<open>A wide string in memory, up to its terminating zero.\<close>

fun until_wnul :: "byte option list \<Rightarrow> 16 word list res" where
  "until_wnul (Some a # Some b # bs) =
     (if a = 0 \<and> b = 0 then Inr []
      else bindr (until_wnul bs) (\<lambda>s. Inr ((ucast a OR push_bit 8 (ucast b)) # s)))"
| "until_wnul (None # bs) = Inl (Undefined Uninitialised)"
| "until_wnul (a # None # bs) = Inl (Undefined Uninitialised)"
| "until_wnul _ = Inl (Undefined Out_of_bounds)"

definition c_wstring :: "addr \<Rightarrow> mem \<Rightarrow> 16 word list res" where
  "c_wstring p m = bindr (get_bytes p m) until_wnul"

definition widen_utf8 :: "'w win \<Rightarrow> addr \<Rightarrow> mem \<Rightarrow> (int \<times> addr \<times> mem) res" where
  "widen_utf8 W filename_utf8 m =
     bindr (c_string filename_utf8 0 m) (\<lambda>s.
     let wide = win_MultiByteToWideChar W s;
         num_chars = int (length wide) in
     bindr (c_mul Int32 2 num_chars) (\<lambda>bytes.
     let (filename_w, m1) = c_malloc (c_size bytes) m in
     bindr (if wide = [] then Inr m1 else c_store_bytes filename_w 0 (concat (map wchar_bytes wide)) m1) (\<lambda>m2.
     Inr (num_chars, filename_w, m2))))"

text \<open>The two functions that open a file or a process by wide names: \<open>call\<close> is \<open>_wfopen\<close> or \<open>_wpopen\<close>.\<close>

definition with_wide :: "'w win \<Rightarrow> (16 word list \<Rightarrow> 16 word list \<Rightarrow> 'w io_scheme \<Rightarrow> addr \<times> 'w io_scheme) \<Rightarrow>
    addr \<Rightarrow> addr \<Rightarrow> mem \<Rightarrow> 'w io_scheme \<Rightarrow> (addr \<times> mem \<times> 'w io_scheme) res" where
  "with_wide W call path mode m w =
     bindr (widen_utf8 W path m) (\<lambda>(_, wpath, m1).
     bindr (widen_utf8 W mode m1) (\<lambda>(_, wmode, m2).
     bindr (c_wstring wpath m2) (\<lambda>p.
     bindr (c_wstring wmode m2) (\<lambda>md.
     let (f, w1) = call p md w in
     bindr (c_free wpath m2) (\<lambda>m3.
     bindr (c_free wmode m3) (\<lambda>m4. Inr (f, m4, w1)))))))"

definition win32_u8fopen :: "'w win \<Rightarrow> addr \<Rightarrow> addr \<Rightarrow> mem \<Rightarrow> 'w io_scheme \<Rightarrow> (addr \<times> mem \<times> 'w io_scheme) res" where
  "win32_u8fopen W path mode m w = with_wide W (win_wfopen W) path mode m w"

definition win32_u8popen :: "'w win \<Rightarrow> addr \<Rightarrow> addr \<Rightarrow> mem \<Rightarrow> 'w io_scheme \<Rightarrow> (addr \<times> mem \<times> 'w io_scheme) res" where
  "win32_u8popen W path mode m w = with_wide W (win_wpopen W) path mode m w"

subsection \<open>Times\<close>

text \<open>The \<open>QuadPart\<close> of a \<open>ULARGE_INTEGER\<close>.\<close>

definition quad_part :: "FILETIME \<Rightarrow> 64 word" where
  "quad_part t = push_bit 32 (ucast (fst t)) OR ucast (snd t)"

text \<open>Seconds and nanoseconds, as stored to the two \<open>int64_t\<close>.\<close>

definition win32_gettime :: "'w win \<Rightarrow> 'w io_scheme \<Rightarrow> (int \<times> int) res" where
  "win32_gettime W w =
     (let t = quad_part (win_GetSystemTimePreciseAsFileTime W w);
          nsec = c_conv Int64 (uint ((t mod 10000000) * 100));
          sec = c_conv Int64 (uint (t div 10000000))
      in bindr (c_sub Int64 sec 11644473600) (\<lambda>sec1. Inr (sec1, nsec)))"

definition win32_sleep :: "'w win \<Rightarrow> int \<Rightarrow> 'w io_scheme \<Rightarrow> 'w io_scheme" where
  "win32_sleep W ms w = win_Sleep W (c_conv Bits32 ms) w"

definition win32_modenv :: "'w win \<Rightarrow> byte list \<Rightarrow> byte list \<Rightarrow> int \<Rightarrow> 'w io_scheme \<Rightarrow> int \<times> 'w io_scheme" where
  "win32_modenv W name val overwrite w =
     (if overwrite = 0 \<and> win_getenv W name w \<noteq> None then (0, w) else win_putenv_s W name val w)"

definition win32_getErrno :: "'w win \<Rightarrow> 'w io_scheme \<Rightarrow> int" where
  "win32_getErrno W w = c_conv Int32 (win_GetLastError W w)"

definition win32_getPID :: "'w win \<Rightarrow> 'w io_scheme \<Rightarrow> int" where
  "win32_getPID W w = win_getpid W w"

subsection \<open>The number of processors\<close>

definition c_store_ptrs :: "addr \<Rightarrow> addr list \<Rightarrow> mem \<Rightarrow> mem res" where
  "c_store_ptrs p ws m =
     (if ws = [] then Inr m
      else bindr (get_ptrs p m) (\<lambda>ps.
        if length ws \<le> length ps
        then Inr (m\<lparr>blks := (blks m)(p \<mapsto> Ptrs (map Some ws @ drop (length ws) ps))\<rparr>)
        else Inl (Undefined Out_of_bounds)))"

text \<open>The first loop: ask until the buffer is large enough. \<open>None\<close> is the early return of \<open>-1\<close>.\<close>

primrec glpi_loop :: "nat \<Rightarrow> 'w win \<Rightarrow> addr \<Rightarrow> nat \<Rightarrow> mem \<Rightarrow> 'w io_scheme \<Rightarrow>
    ((addr \<times> nat) option \<times> mem \<times> 'w io_scheme) res" where
  "glpi_loop 0 W buffer returnLength m w = Inl Out_of_fuel"
| "glpi_loop (Suc fuel) W buffer returnLength m w =
     (case win_glpi W returnLength w of
        (Inl ws, w1) \<Rightarrow> bindr (c_store_ptrs buffer ws m) (\<lambda>m1. Inr (Some (buffer, 8 * length ws), m1, w1))
      | (Inr (err, required), w1) \<Rightarrow>
          if err = ERROR_INSUFFICIENT_BUFFER
          then bindr (if buffer \<noteq> 0 then c_free buffer m else Inr m) (\<lambda>m1.
               let (buffer1, m2) = c_malloc_ptrs (required div 8) m1 in
               if buffer1 = 0 then Inr (None, m2, w1)
               else glpi_loop fuel W buffer1 required m2 w1)
          else Inr (None, m, w1))"

text \<open>The loop over the bits of a mask, from the highest.\<close>

definition count_bits :: "addr \<Rightarrow> int \<Rightarrow> int res" where
  "count_bits processorMask nSMTProcessors =
     bindr (eachr (\<lambda>i (bitTest, n).
         bindr (c_add Int32 n (if processorMask AND bitTest \<noteq> 0 then 1 else 0)) (\<lambda>n1. Inr (bitTest div 2, n1)))
       [0..<64] (push_bit 63 (1 :: addr), nSMTProcessors)) (\<lambda>(_, n). Inr n)"

definition RelationProcessorCore :: int where "RelationProcessorCore = 0"

definition sizeof_info :: nat where "sizeof_info = 32"

function count_cores :: "addr \<Rightarrow> nat \<Rightarrow> nat \<Rightarrow> nat \<Rightarrow> int \<Rightarrow> int \<Rightarrow> mem \<Rightarrow> (int \<times> int) res" where
  "count_cores buffer ptr byteOffset returnLength nPhysical nSMT m =
     (if byteOffset + sizeof_info \<le> returnLength
      then bindr (load_ptr buffer (4 * int ptr + 1) m) (\<lambda>rel.
           bindr (if uint (take_bit 32 rel) = RelationProcessorCore
                  then bindr (c_add Int32 nPhysical 1) (\<lambda>np.
                       bindr (load_ptr buffer (4 * int ptr) m) (\<lambda>processorMask.
                       bindr (count_bits processorMask nSMT) (\<lambda>ns. Inr (np, ns))))
                  else Inr (nPhysical, nSMT)) (\<lambda>(np, ns).
           count_cores buffer (ptr + 1) (byteOffset + sizeof_info) returnLength np ns m))
      else Inr (nPhysical, nSMT))"
  by pat_completeness auto
termination
  by (relation "measure (\<lambda>(_, _, off, len, _). len - off)") (auto simp: sizeof_info_def)

declare count_cores.simps [simp del]

definition win32_getNProcessors :: "nat \<Rightarrow> 'w win \<Rightarrow> mem \<Rightarrow> 'w io_scheme \<Rightarrow> (int \<times> mem \<times> 'w io_scheme) res" where
  "win32_getNProcessors fuel W m w =
     bindr (glpi_loop fuel W 0 0 m w) (\<lambda>(found, m1, w1).
     case found of
       None \<Rightarrow> Inr (-1, m1, w1)
     | Some (buffer, returnLength) \<Rightarrow>
         bindr (count_cores buffer 0 0 returnLength 0 0 m1) (\<lambda>(nPhysical, nSMT).
         Inr (if nPhysical = nSMT then nPhysical else nSMT, m1, w1)))"

subsection \<open>File times\<close>

definition win32_getFileNo :: "addr \<Rightarrow> 'w io_scheme \<Rightarrow> int res" where
  "win32_getFileNo f w = c_fileno f w"

text \<open>The statements for one of the times; an \<open>int *\<close> is a block and the index of the member.\<close>

definition store_filetime :: "FILETIME \<Rightarrow> addr \<times> int \<Rightarrow> addr \<times> int \<Rightarrow> mem \<Rightarrow> mem res" where
  "store_filetime t sec nsec m =
     bindr (store_field (fst sec) (snd sec) (uint (quad_part t div 10000000)) m) (\<lambda>m1.
     bindr (load_field (fst sec) (snd sec) m1) (\<lambda>s.
     bindr (c_sub Int64 s 11644473600) (\<lambda>d.
     bindr (store_field (fst sec) (snd sec) d m1) (\<lambda>m2.
     store_field (fst nsec) (snd nsec) (uint ((quad_part t mod 10000000) * 100)) m2))))"

definition win32_getFileTime :: "'w win \<Rightarrow> addr \<Rightarrow> addr \<times> int \<Rightarrow> addr \<times> int \<Rightarrow> addr \<times> int \<Rightarrow> addr \<times> int \<Rightarrow>
    addr \<times> int \<Rightarrow> addr \<times> int \<Rightarrow> mem \<Rightarrow> 'w io_scheme \<Rightarrow> (int \<times> mem) res" where
  "win32_getFileTime W f atime_sec atime_nsec mtime_sec mtime_nsec ctime_sec ctime_nsec m w =
     bindr (c_fileno f w) (\<lambda>fd.
     let wh = win_get_osfhandle W fd w in
     if wh = INVALID_HANDLE_VALUE then Inr (-1, m)
     else case win_GetFileTime W wh w of
            Some (ct, at, mt) \<Rightarrow>
              bindr (store_filetime at atime_sec atime_nsec m) (\<lambda>m1.
              bindr (store_filetime mt mtime_sec mtime_nsec m1) (\<lambda>m2.
              bindr (store_filetime ct ctime_sec ctime_nsec m2) (\<lambda>m3. Inr (0, m3))))
          | None \<Rightarrow> Inr (-1, m))"

definition win32_isTTY :: "'w win \<Rightarrow> int \<Rightarrow> 'w io_scheme \<Rightarrow> int" where
  "win32_isTTY W fd w = win_isatty W fd w"

text \<open>The replacement for \<open>chmod\<close> in \<open>win_hack.c\<close>.\<close>

definition win_hack_chmod :: "addr \<Rightarrow> int \<Rightarrow> int" where
  "win_hack_chmod str perm = 0"

section \<open>idris_file.c\<close>

definition idris2_openFile_win :: "'w win \<Rightarrow> addr \<Rightarrow> addr \<Rightarrow> mem \<Rightarrow> 'w io_scheme \<Rightarrow> (addr \<times> mem \<times> 'w io_scheme) res" where
  "idris2_openFile_win W name mode m w = win32_u8fopen W name mode m w"

definition idris2_getFileNo_win :: "addr \<Rightarrow> 'w io_scheme \<Rightarrow> int res" where
  "idris2_getFileNo_win f w = win32_getFileNo f w"

definition idris2_chmod_win :: "addr \<Rightarrow> int \<Rightarrow> int" where
  "idris2_chmod_win path mode = 0"

definition idris2_fpoll_win :: "'w win \<Rightarrow> addr \<Rightarrow> 'w io_scheme \<Rightarrow> (int \<times> 'w io_scheme) res" where
  "idris2_fpoll_win W f w = win_fpoll W f w"

definition idris2_popen_win :: "'w win \<Rightarrow> addr \<Rightarrow> addr \<Rightarrow> mem \<Rightarrow> 'w io_scheme \<Rightarrow> (addr \<times> mem \<times> 'w io_scheme) res" where
  "idris2_popen_win W cmd mode m w = win32_u8popen W cmd mode m w"

definition idris2_pclose_win :: "'w win \<Rightarrow> addr \<Rightarrow> 'w io_scheme \<Rightarrow> (int \<times> 'w io_scheme) res" where
  "idris2_pclose_win W stream w =
     (let (r, w1) = win_pclose W stream w in bindr (IDRIS2_VERIFY (r \<noteq> -1)) (\<lambda>_. Inr (r, w1)))"

definition idris2_fileTime_win :: "'w win \<Rightarrow> addr \<Rightarrow> mem \<Rightarrow> 'w io_scheme \<Rightarrow> (addr \<times> mem) res" where
  "idris2_fileTime_win W f m w =
     (let (ft, m1) = c_malloc_ptrs 6 m in
      bindr (win32_getFileTime W f (ft, filetime_atime_sec) (ft, filetime_atime_nsec) (ft, filetime_mtime_sec)
        (ft, filetime_mtime_nsec) (ft, filetime_ctime_sec) (ft, filetime_ctime_nsec) m1 w) (\<lambda>(r, m2).
      if r \<noteq> 0 then bindr (store_field ft filetime_atime_sec (-1) m2) (\<lambda>m3. Inr (ft, m3))
      else Inr (ft, m2)))"

definition idris2_fileIsTTY_win :: "'w win \<Rightarrow> addr \<Rightarrow> 'w io_scheme \<Rightarrow> int res" where
  "idris2_fileIsTTY_win W f w = bindr (idris2_getFileNo_win f w) (\<lambda>fd. Inr (win32_isTTY W fd w))"

text \<open>\<open>struct child_process\<close> has the process handle as its first member here.\<close>

definition child_hProcess_win :: int where "child_hProcess_win = 0"
definition child_pid_win :: int where "child_pid_win = 1"
definition child_in_win :: int where "child_in_win = 2"
definition child_out_win :: int where "child_out_win = 3"

definition popen2_cmdline :: "byte list \<Rightarrow> byte list" where
  "popen2_cmdline cmd = chars ''cmd /c '' @ cmd"

definition idris2_popen2_win :: "'w win \<Rightarrow> addr \<Rightarrow> mem \<Rightarrow> 'w io_scheme \<Rightarrow> (addr \<times> mem \<times> 'w io_scheme) res" where
  "idris2_popen2_win W cmd m w =
     (case win_CreatePipe W w of
        (None, w1) \<Rightarrow> Inr (0, m, w1)
      | (Some (p0, p1), w1) \<Rightarrow>
     (case win_CreatePipe W w1 of
        (None, w2) \<Rightarrow> Inr (0, m, w2)
      | (Some (p2, p3), w2) \<Rightarrow>
          bindr (c_string cmd 0 m) (\<lambda>c.
          let cmdline = popen2_cmdline c in
          if length cmdline > 4095 then Inr (0, m, w2)
          else let w3 = win_not_inherited W p0 (win_not_inherited W p3 w2) in
     (case win_CreateProcess W cmdline p2 p1 w3 of
        (None, w4) \<Rightarrow> Inr (0, m, w4)
      | (Some (hProcess, hThread, dwProcessId), w4) \<Rightarrow>
          let (rval, m1) = c_malloc_ptrs 4 m;
              (in_fd, w5) = win_open_osfhandle W p3 1 w4;
              (out_fd, w6) = win_open_osfhandle W p0 0 w5;
              w7 = win_CloseHandle W hThread (win_CloseHandle W p2 (win_CloseHandle W p1 w6));
              (fin, w8) = win_fdopen W in_fd (chars ''w'') w7
          in bindr (store_ptr rval child_in_win fin m1) (\<lambda>m2.
             let (fout, w9) = win_fdopen W out_fd (chars ''r'') w8
             in bindr (store_ptr rval child_out_win fout m2) (\<lambda>m3.
                bindr (store_ptr rval child_hProcess_win hProcess m3) (\<lambda>m4.
                bindr (store_ptr rval child_pid_win (word_of_int dwProcessId) m4) (\<lambda>m5. Inr (rval, m5, w9)))))))))"

definition idris2_popen2ChildPid_win :: "addr \<Rightarrow> mem \<Rightarrow> int res" where
  "idris2_popen2ChildPid_win ptr m = (if ptr = 0 then Inr 0 else load_field ptr child_pid_win m)"

definition idris2_popen2ChildHandler_win :: "addr \<Rightarrow> mem \<Rightarrow> addr res" where
  "idris2_popen2ChildHandler_win ptr m = (if ptr = 0 then Inr 0 else load_ptr ptr child_hProcess_win m)"

definition idris2_popen2FileIn_win :: "addr \<Rightarrow> mem \<Rightarrow> addr res" where
  "idris2_popen2FileIn_win ptr m = (if ptr = 0 then Inr 0 else load_ptr ptr child_in_win m)"

definition idris2_popen2FileOut_win :: "addr \<Rightarrow> mem \<Rightarrow> addr res" where
  "idris2_popen2FileOut_win ptr m = (if ptr = 0 then Inr 0 else load_ptr ptr child_out_win m)"

definition idris2_popen2WaitByHandler_win :: "'w win \<Rightarrow> addr \<Rightarrow> 'w io_scheme \<Rightarrow> (int \<times> 'w io_scheme) res" where
  "idris2_popen2WaitByHandler_win W hProcess w =
     (let (wres, w1) = win_WaitForSingleObject W hProcess INFINITE w in
      bindr (IDRIS2_VERIFY (wres = WAIT_OBJECT_0)) (\<lambda>_.
      bindr (IDRIS2_VERIFY (win_GetExitCodeProcess W hProcess w1 \<noteq> None)) (\<lambda>_.
      Inr (c_conv Int32 (the (win_GetExitCodeProcess W hProcess w1)), win_CloseHandle W hProcess w1))))"

definition idris2_popen2WaitByPid_win :: "'w win \<Rightarrow> int \<Rightarrow> 'w io_scheme \<Rightarrow> int \<times> 'w io_scheme" where
  "idris2_popen2WaitByPid_win W pid w = (-1, win_perror W (chars ''cannot wait by pid in Windows'') w)"

section \<open>idris_support.c, idris_directory.c and idris_term.c\<close>

definition idris2_getErrno_win :: "'w win \<Rightarrow> 'w io_scheme \<Rightarrow> int" where
  "idris2_getErrno_win W w = win32_getErrno W w"

definition idris2_sleep_win :: "'w win \<Rightarrow> int \<Rightarrow> 'w io_scheme \<Rightarrow> 'w io_scheme res" where
  "idris2_sleep_win W sec w = bindr (c_mul Int32 sec 1000) (\<lambda>ms. Inr (win32_sleep W ms w))"

definition idris2_usleep_win :: "'w win \<Rightarrow> int \<Rightarrow> 'w io_scheme \<Rightarrow> 'w io_scheme res" where
  "idris2_usleep_win W usec w = bindr (c_div Int32 usec 1000) (\<lambda>ms. Inr (win32_sleep W ms w))"

definition idris2_setenv_win :: "'w win \<Rightarrow> addr \<Rightarrow> addr \<Rightarrow> int \<Rightarrow> mem \<Rightarrow> 'w io_scheme \<Rightarrow> (int \<times> 'w io_scheme) res" where
  "idris2_setenv_win W name val overwrite m w =
     bindr (c_string name 0 m) (\<lambda>n. bindr (c_string val 0 m) (\<lambda>v. Inr (win32_modenv W n v overwrite w)))"

definition idris2_unsetenv_win :: "'w win \<Rightarrow> addr \<Rightarrow> mem \<Rightarrow> 'w io_scheme \<Rightarrow> (int \<times> 'w io_scheme) res" where
  "idris2_unsetenv_win W name m w = bindr (c_string name 0 m) (\<lambda>n. Inr (win32_modenv W n [] 1 w))"

definition idris2_enableRawMode_win :: int where "idris2_enableRawMode_win = -1"

definition idris2_getPID_win :: "'w win \<Rightarrow> 'w io_scheme \<Rightarrow> int" where
  "idris2_getPID_win W w = win32_getPID W w"

definition idris2_getNProcessors_win :: "nat \<Rightarrow> 'w win \<Rightarrow> mem \<Rightarrow> 'w io_scheme \<Rightarrow> (int \<times> mem \<times> 'w io_scheme) res" where
  "idris2_getNProcessors_win fuel W m w = win32_getNProcessors fuel W m w"

definition idris2_createDir_win :: "'w win \<Rightarrow> addr \<Rightarrow> mem \<Rightarrow> 'w io_scheme \<Rightarrow> (int \<times> 'w io_scheme) res" where
  "idris2_createDir_win W dir m w = bindr (c_string dir 0 m) (\<lambda>d. Inr (win_mkdir W d w))"

definition ENABLE_VIRTUAL_TERMINAL_PROCESSING :: "32 word" where
  "ENABLE_VIRTUAL_TERMINAL_PROCESSING = 4"

definition idris2_setupTerm_win :: "'w win \<Rightarrow> 'w io_scheme \<Rightarrow> 'w io_scheme" where
  "idris2_setupTerm_win W w =
     (let stdout_handle = win_stdout_handle W;
          outmode = (case win_GetConsoleMode W stdout_handle w of None \<Rightarrow> 0 | Some md \<Rightarrow> md)
      in win_SetConsoleMode W stdout_handle (outmode OR ENABLE_VIRTUAL_TERMINAL_PROCESSING) w)"

text \<open>The window's borders are \<open>SHORT\<close>s, so the differences do not overflow.\<close>

definition idris2_getTermCols_win :: "'w win \<Rightarrow> 'w io_scheme \<Rightarrow> int" where
  "idris2_getTermCols_win W w =
     (case win_srWindow W (win_stdout_handle W) w of
        Some (wleft, wtop, wright, wbottom) \<Rightarrow> wright - wleft + 1
      | None \<Rightarrow> 0)"

definition idris2_getTermLines_win :: "'w win \<Rightarrow> 'w io_scheme \<Rightarrow> int" where
  "idris2_getTermLines_win W w =
     (case win_srWindow W (win_stdout_handle W) w of
        Some (wleft, wtop, wright, wbottom) \<Rightarrow> wbottom - wtop + 1
      | None \<Rightarrow> 0)"

section \<open>idris_signal.c\<close>

text \<open>The state: the pending signals and the handlers. \<open>signal\<close> succeeds for the numbers the system
  knows, a parameter.\<close>

record win_process =
  win_signals :: "32 word"
  win_handlers :: "int \<Rightarrow> handler"

definition c_signal :: "(int \<Rightarrow> bool) \<Rightarrow> int \<Rightarrow> handler \<Rightarrow> win_process \<Rightarrow> bool \<times> win_process" where
  "c_signal can signum h s =
     (if can signum then (True, s\<lparr>win_handlers := (win_handlers s)(signum := h)\<rparr>) else (False, s))"

definition collect_signal_handler_win :: "(int \<Rightarrow> bool) \<Rightarrow> int \<Rightarrow> win_process \<Rightarrow> win_process res" where
  "collect_signal_handler_win can signum s =
     bindr (IDRIS2_VERIFY (signum \<ge> 0 \<and> signum < int N_SIGNALS)) (\<lambda>_.
     let s1 = s\<lparr>win_signals := win_signals s OR push_bit (nat signum) 1\<rparr>;
         (r, s2) = c_signal can signum Collect_signal s1
     in bindr (IDRIS2_VERIFY r) (\<lambda>_. Inr s2))"

definition ignore_signal_win :: "(int \<Rightarrow> bool) \<Rightarrow> int \<Rightarrow> win_process \<Rightarrow> int \<times> win_process" where
  "ignore_signal_win can signum s = (let (r, s1) = c_signal can signum SIG_IGN s in (if \<not> r then -1 else 0, s1))"

definition default_signal_win :: "(int \<Rightarrow> bool) \<Rightarrow> int \<Rightarrow> win_process \<Rightarrow> int \<times> win_process" where
  "default_signal_win can signum s = (let (r, s1) = c_signal can signum SIG_DFL s in (if \<not> r then -1 else 0, s1))"

definition collect_signal_win :: "(int \<Rightarrow> bool) \<Rightarrow> int \<Rightarrow> win_process \<Rightarrow> int \<times> win_process" where
  "collect_signal_win can signum s =
     (let (r, s1) = c_signal can signum Collect_signal s in (if \<not> r then -1 else 0, s1))"

definition send_signal_win :: "(int \<Rightarrow> 'os \<Rightarrow> int \<times> 'os) \<Rightarrow> int \<Rightarrow> int \<Rightarrow> 'os \<Rightarrow> int \<times> 'os" where
  "send_signal_win c_raise pid signum s = raise_signal c_raise signum s"

definition sighup_win :: int where "sighup_win = -1"
definition sigquit_win :: int where "sigquit_win = -1"
definition sigtrap_win :: int where "sigtrap_win = -1"
definition sigusr1_win :: int where "sigusr1_win = -1"
definition sigusr2_win :: int where "sigusr2_win = -1"

section \<open>idris_net.c\<close>

text \<open>\<open>socket_inited\<close>, and how often \<open>clean_sockets\<close> has been registered with \<open>atexit\<close>.\<close>

record win_sockets =
  socket_inited :: bool
  cleanups :: nat

definition check_init :: "'w win \<Rightarrow> win_sockets \<Rightarrow> 'w io_scheme \<Rightarrow> bool \<times> win_sockets \<times> 'w io_scheme" where
  "check_init W s w =
     (if \<not> socket_inited s
      then let (result, w1) = win_WSAStartup W w in
           if result = 0 then (True, s\<lparr>socket_inited := True, cleanups := Suc (cleanups s)\<rparr>, w1)
           else (socket_inited s, s, w1)
      else (socket_inited s, s, w))"

definition idrnet_socket_win :: "'w win \<Rightarrow> 'w net \<Rightarrow> int \<Rightarrow> int \<Rightarrow> int \<Rightarrow> win_sockets \<Rightarrow> 'w io_scheme \<Rightarrow>
    int \<times> win_sockets \<times> 'w io_scheme" where
  "idrnet_socket_win W net family type protocol s w =
     (let (ok, s1, w1) = check_init W s w in
      if \<not> ok then (-1, s1, w1)
      else let (r, w2) = net_socket net family type protocol w1 in (r, s1, w2))"

definition idrnet_close_win :: "'w win \<Rightarrow> int \<Rightarrow> 'w io_scheme \<Rightarrow> int \<times> 'w io_scheme" where
  "idrnet_close_win W fd w = win_close W fd w"

definition idrnet_fdopen_win :: "'w win \<Rightarrow> int \<Rightarrow> addr \<Rightarrow> mem \<Rightarrow> 'w io_scheme \<Rightarrow> (addr \<times> 'w io_scheme) res" where
  "idrnet_fdopen_win W fd mode m w = bindr (c_string mode 0 m) (\<lambda>md. Inr (win_fdopen W fd md w))"

end
