(* ===== verification/Net_Correct.thy ===== *)
theory Net_Correct
  imports Net File_Correct
begin

text \<open>
  The byte-order loops of \<open>c/idris_net.c\<close>, their bounds, and receiving a message.
\<close>

section \<open>Byte order\<close>

text \<open>A block of initialised bytes.\<close>

definition bytes_at :: "addr \<Rightarrow> byte list \<Rightarrow> mem \<Rightarrow> bool" where
  "bytes_at p bs m \<longleftrightarrow> p \<noteq> 0 \<and> blks m p = Some (Bytes (map Some bs))"

lemma word_of_int_mod_byte: "x mod 256 = y mod 256 \<Longrightarrow> (word_of_int x :: byte) = word_of_int y"
  by (simp add: word_of_int_eq_iff take_bit_eq_mod)

lemma le_bytes_le_value: "le_bytes (length bs) (le_value bs) = bs"
proof (induction bs)
  case (Cons b bs)
  have "uint b < 2 ^ LENGTH(8)" by (rule unsigned_less)
  then have "(uint b + 256 * le_value bs) div 256 = le_value bs" by simp
  moreover have "(word_of_int (uint b + 256 * le_value bs) :: byte) = word_of_int (uint b)"
    by (rule word_of_int_mod_byte) simp
  ultimately show ?case using Cons by simp
qed simp

lemma digit_unique:
  "256 * A + a = 256 * B + b \<Longrightarrow> 0 \<le> a \<Longrightarrow> a < 256 \<Longrightarrow> 0 \<le> b \<Longrightarrow> b < 256 \<Longrightarrow> A = B \<and> a = b" for A B a b :: int
proof -
  assume e: "256 * A + a = 256 * B + b" and r: "0 \<le> a" "a < 256" "0 \<le> b" "b < 256"
  from e have "(256 * A + a) mod 256 = (256 * B + b) mod 256" by (simp only:)
  with r have "a = b" by simp
  with e show ?thesis by simp
qed

lemma le_bytes_cong: "u mod 256 ^ n = v mod 256 ^ n \<Longrightarrow> le_bytes n u = le_bytes n v"
proof (induction n arbitrary: u v)
  case (Suc n)
  have split: "x mod 256 ^ Suc n = 256 * (x div 256 mod 256 ^ n) + x mod 256" for x :: int
    using zmod_zmult2_eq [of "256 ^ n" x 256] by simp
  have "256 * (u div 256 mod 256 ^ n) + u mod 256 = 256 * (v div 256 mod 256 ^ n) + v mod 256"
    using Suc.prems split [of u] split [of v] by (simp only:)
  then have "u div 256 mod 256 ^ n = v div 256 mod 256 ^ n \<and> u mod 256 = v mod 256"
    by (rule digit_unique) simp_all
  then show ?case using Suc.IH [of "u div 256" "v div 256"] word_of_int_mod_byte [of u v] by simp
qed simp

lemma le_bytes_conv: "le_bytes 4 (c_conv Int32 v) = le_bytes 4 v"
proof (rule le_bytes_cong)
  have "take_bit (width Int32) (c_conv Int32 v) = take_bit (width Int32) v"
    unfolding c_conv_eq_iff [symmetric] by simp
  then show "c_conv Int32 v mod 256 ^ 4 = v mod 256 ^ 4" by (simp add: take_bit_eq_mod)
qed

lemma c_htonl_bytes: "le_bytes 4 (c_htonl (c_conv Int32 (le_value [a, b, c, d]))) = [d, c, b, a]"
proof -
  have four: "le_bytes 4 (le_value [x, y, z, w]) = [x, y, z, w]" for x y z w
    using le_bytes_le_value [of "[x, y, z, w]"] by (simp add: numeral_eq_Suc)
  then have "rev (le_bytes 4 (c_conv Int32 (le_value [a, b, c, d]))) = [d, c, b, a]"
    by (simp add: le_bytes_conv)
  then show ?thesis by (simp only: c_htonl_def le_bytes_conv four)
qed

text \<open>The block with the bytes of its \<open>i\<close>-th word reversed.\<close>

definition rev_word :: "nat \<Rightarrow> byte list \<Rightarrow> byte list" where
  "rev_word i bs = take (4 * i) bs @ rev (take 4 (drop (4 * i) bs)) @ drop (4 * i + 4) bs"

lemma length_rev_word [simp]: "length (rev_word i bs) = length bs"
  by (simp add: rev_word_def)

definition swap_word :: "addr \<Rightarrow> nat \<Rightarrow> mem \<Rightarrow> mem res" where
  "swap_word buf i m = bindr (load_int buf (4 * int i) m) (\<lambda>v. store_int buf (4 * int i) (c_htonl v) m)"

lemma load_bytes_at: "bytes_at p bs m \<Longrightarrow> load_byte p (int i) m = (if i < length bs then Inr (bs ! i) else Inl (Undefined Out_of_bounds))"
  by (simp add: bytes_at_def load_byte_def get_bytes_def nth_res_def)

lemma swap_word_inside:
  assumes "bytes_at p bs m" "4 * i + 4 \<le> length bs"
  shows "swap_word p i m = Inr (put_bytes p (map Some (rev_word i bs)) m)"
proof -
  have four: "take 4 (drop (4 * i) bs) = [bs ! (4 * i), bs ! (4 * i + 1), bs ! (4 * i + 2), bs ! (4 * i + 3)]"
    using assms(2) by (intro nth_equalityI) (auto simp: less_Suc_eq numeral_eq_Suc)
  have "load_byte p (4 * int i + int k) m = Inr (bs ! (4 * i + k))" if "k < 4" for k
    using load_bytes_at [OF assms(1), of "4 * i + k"] assms(2) that by simp
  from this [of 0] this [of 1] this [of 2] this [of 3]
  have load: "load_int p (4 * int i) m =
      Inr (c_conv Int32 (le_value [bs ! (4 * i), bs ! (4 * i + 1), bs ! (4 * i + 2), bs ! (4 * i + 3)]))"
    by (simp add: load_int_def)
  show ?thesis
    unfolding swap_word_def load
    using assms by (simp add: store_int_def c_htonl_bytes c_store_bytes_def bytes_at_def get_bytes_def
        put_bytes_def rev_word_def four take_map drop_map nat_mult_distrib del: le_value.simps)
qed

lemma swap_word_outside:
  assumes "bytes_at p bs m" "4 * i \<le> length bs" "length bs < 4 * i + 4"
  shows "swap_word p i m = Inl (Undefined Out_of_bounds)"
proof -
  have l: "load_byte p (4 * int i + int k) m = (if 4 * i + k < length bs then Inr (bs ! (4 * i + k)) else Inl (Undefined Out_of_bounds))" for k
    using load_bytes_at [OF assms(1), of "4 * i + k"] by simp
  have "load_int p (4 * int i) m = Inl (Undefined Out_of_bounds)"
    using l [of 0] l [of 1] l [of 2] l [of 3] assms(3) by (simp add: load_int_def)
  then show ?thesis by (simp add: swap_word_def)
qed

primrec rev_words :: "nat \<Rightarrow> byte list \<Rightarrow> byte list" where
  "rev_words 0 bs = bs"
| "rev_words (Suc k) bs = rev_word k (rev_words k bs)"

lemma length_rev_words [simp]: "length (rev_words k bs) = length bs"
  by (induction k) simp_all

lemma bytes_at_put [simp]: "p \<noteq> 0 \<Longrightarrow> bytes_at p bs (put_bytes p (map Some bs) m)"
  by (simp add: bytes_at_def)

lemma put_bytes_twice [simp]: "put_bytes p bs (put_bytes p bs' m) = put_bytes p bs m"
  by (simp add: put_bytes_def)

lemma swap_words:
  assumes "bytes_at p bs m" "4 * k \<le> length bs"
  shows "eachr (swap_word p) [0..<k] m = Inr (put_bytes p (map Some (rev_words k bs)) m)"
  using assms(2)
proof (induction k)
  case 0
  have "put_bytes p (map Some bs) m = m" using assms(1) by (simp add: bytes_at_def put_bytes_def map_upd_triv)
  then show ?case by simp
next
  case (Suc k)
  have "bytes_at p (rev_words k bs) (put_bytes p (map Some (rev_words k bs)) m)"
    using assms(1) by (simp add: bytes_at_def)
  from swap_word_inside [OF this, of k] show ?case
    using Suc by (simp add: eachr_snoc)
qed

lemma rev_words_append: "4 * k \<le> length xs \<Longrightarrow> rev_words k (xs @ ys) = rev_words k xs @ ys"
  by (induction k) (simp_all add: rev_word_def)

lemma rev_words_exact: "length bs = 4 * k \<Longrightarrow> rev_words k (rev_words k bs) = bs"
proof (induction k arbitrary: bs)
  case (Suc k)
  let ?xs = "take (4 * k) bs" and ?ys = "drop (4 * k) bs"
  have step: "rev_words (Suc k) (xs @ ys) = rev_words k xs @ rev ys" if "length xs = 4 * k" "length ys = 4" for xs ys
    using that by (simp add: rev_words_append rev_word_def)
  have "rev_words (Suc k) bs = rev_words k ?xs @ rev ?ys"
    using step [of ?xs ?ys] Suc.prems by (simp del: rev_words.simps)
  then have "rev_words (Suc k) (rev_words (Suc k) bs) = rev_words k (rev_words k ?xs) @ rev (rev ?ys)"
    using step [of "rev_words k ?xs" "rev ?ys"] Suc.prems by (simp del: rev_words.simps)
  then show ?case using Suc by simp
qed simp

lemma rev_words_twice:
  assumes "4 * k \<le> length bs"
  shows "rev_words k (rev_words k bs) = bs"
  using rev_words_append [of k "take (4 * k) bs" "drop (4 * k) bs"] assms
    rev_words_append [of k "rev_words k (take (4 * k) bs)" "drop (4 * k) bs"] rev_words_exact [of "take (4 * k) bs" k]
  by simp

lemma swap_words_outside:
  assumes "bytes_at p bs m" "4 * k \<le> length bs" "length bs < 4 * k + 4"
  shows "eachr (swap_word p) [0..<k + 1] m = Inl (Undefined Out_of_bounds)"
proof -
  have "bytes_at p (rev_words k bs) (put_bytes p (map Some (rev_words k bs)) m)"
    using assms(1) by (simp add: bytes_at_def)
  from swap_word_outside [OF this, of k] show ?thesis
    using assms(2,3) by (simp add: eachr_snoc swap_words [OF assms(1,2)])
qed

lemma buf_htonl_swaps: "buf_htonl p len = eachr (swap_word p) [0..<buf_ints len]"
  and buf_ntohl_swaps: "buf_ntohl p len = eachr (swap_word p) [0..<buf_ints len]"
  by (simp_all add: fun_eq_iff buf_htonl_def buf_ntohl_def swap_word_def [abs_def])

lemma buf_ints_nat: "0 \<le> len \<Longrightarrow> len < 2 ^ 31 \<Longrightarrow> buf_ints len = nat len div 4 + 1"
  by (simp add: buf_ints_def c_size_def in_range_code)

text \<open>The byte-order loops run one word past the length they are given. On an initialised block of \<open>n\<close>
  bytes, converting a length of \<open>len\<close> bytes to network order and back restores the memory when the block has
  room for the extra word; when \<open>len\<close> bytes fit but the extra word does not, the conversion accesses memory
  outside the block.\<close>

theorem htonl_ntohl_roundtrip:
  assumes "bytes_at p bs m" "0 \<le> len" "len < 2 ^ 31" "nat len \<le> length bs"
  shows "if 4 * (nat len div 4 + 1) \<le> length bs
    then bindr (buf_htonl p len m) (buf_ntohl p len) = Inr m
    else buf_htonl p len m = Inl (Undefined Out_of_bounds)"
proof (cases "4 * (nat len div 4 + 1) \<le> length bs")
  case True
  let ?k = "nat len div 4 + 1"
  have "bytes_at p (rev_words ?k bs) (put_bytes p (map Some (rev_words ?k bs)) m)"
    using assms(1) by (simp add: bytes_at_def)
  then have "bindr (buf_htonl p len m) (buf_ntohl p len) = Inr (put_bytes p (map Some (rev_words ?k (rev_words ?k bs))) m)"
    using swap_words [OF assms(1) True] swap_words [of p "rev_words ?k bs" _ ?k] True
    by (simp add: buf_htonl_swaps buf_ntohl_swaps buf_ints_nat [OF assms(2,3)] del: rev_words.simps upt_Suc)
  also have "\<dots> = Inr m"
    using rev_words_twice [OF True] assms(1) by (simp add: bytes_at_def put_bytes_def map_upd_triv del: rev_words.simps)
  finally show ?thesis using True by simp
next
  case False
  have "4 * (nat len div 4) \<le> length bs" using assms(4) by (meson le_trans times_div_less_eq_dividend)
  from swap_words_outside [OF assms(1) this] False show ?thesis
    by (simp add: buf_htonl_swaps buf_ints_nat [OF assms(2,3)])
qed

text \<open>An eight-byte block at the first free address.\<close>

definition example_block :: mem where
  "example_block = alloc_blk (Bytes (map Some [1, 2, 3, 4, 5, 6, 7, 8])) (init_mem 1000)"

lemma example_block_at: "bytes_at (addr_of 320) [1, 2, 3, 4, 5, 6, 7, 8] example_block"
  using mem_wf_fresh(3) [OF rt_wf_mem_wf [OF rt_wf_example]] by (simp add: bytes_at_def example_block_def)

theorem htonl_ntohl_roundtrip_witness:
  "if 4 * (nat 4 div 4 + 1) \<le> length [1, 2, 3, 4, 5, 6, 7, 8 :: byte]
    then bindr (buf_htonl (addr_of 320) 4 example_block) (buf_ntohl (addr_of 320) 4) = Inr example_block
    else buf_htonl (addr_of 320) 4 example_block = Inl (Undefined Out_of_bounds)"
  by (rule htonl_ntohl_roundtrip [OF example_block_at]) simp_all

section \<open>Sending a buffer\<close>

text \<open>C34. \<open>idrnet_send_buf\<close> never completes: the copy it makes has exactly \<open>len\<close> bytes, so the conversion to
  network order always runs past its end, for every buffer and every non-negative length.\<close>

theorem send_buf_overruns:
  assumes "bytes_at data bs m" "mem_wf m" "brk m < lim m" "0 \<le> len" "len < 2 ^ 31" "nat len \<le> length bs"
  shows "idrnet_send_buf net sockfd data len m w = Inl (Undefined Out_of_bounds)"
proof -
  let ?p = "addr_of (brk m)"
  define n where "n = nat len"
  let ?m1 = "alloc_blk (Bytes (replicate n None)) m"
  let ?m3 = "put_bytes ?p (map Some (take n bs)) ?m1"
  have n: "c_size len = n" using assms(4,5) by (simp add: c_size_def in_range_code n_def)
  have len: "n \<le> length bs" "n < 2 ^ 31" using assms(4-6) by (simp_all add: n_def)
  note fresh = mem_wf_fresh [OF assms(2)]
  have data: "blks m data = Some (Bytes (map Some bs))" "data \<noteq> 0" "data \<noteq> ?p"
    using assms(1) fresh by (auto simp: bytes_at_def)
  have "c_malloc n m = (?p, ?m1)" using assms(3) len(2) by (simp add: c_malloc_cases)
  moreover have "c_memset ?p 0 n ?m1 = Inr (put_bytes ?p (replicate n (Some 0)) ?m1)"
    using fresh(3) by (simp add: c_memset_def get_bytes_def put_bytes_def)
  moreover have "c_memcpy ?p 0 data 0 n (put_bytes ?p (replicate n (Some 0)) ?m1) = Inr ?m3"
    using data fresh(3) len(1) by (auto simp: c_memcpy_def get_bytes_def put_bytes_def take_map)
  moreover have "bytes_at ?p (take n bs) ?m3" using fresh(3) by (simp add: bytes_at_def)
  then have "buf_htonl ?p len ?m3 = Inl (Undefined Out_of_bounds)"
    using swap_words_outside [of ?p "take n bs" ?m3 "n div 4"] len
    by (simp add: buf_htonl_swaps buf_ints_nat [OF assms(4,5)] flip: n_def)
  ultimately show ?thesis by (simp add: idrnet_send_buf_def n)
qed

theorem send_buf_overruns_witness:
  "\<forall>net :: unit net. \<forall>w. idrnet_send_buf net 3 (addr_of 320) 4 example_block w = Inl (Undefined Out_of_bounds)"
proof (intro allI)
  fix net :: "unit net" and w
  have "mem_wf example_block"
    using mem_wf_alloc_blk [OF rt_wf_mem_wf [OF rt_wf_example]] by (simp add: example_block_def)
  then show "idrnet_send_buf net 3 (addr_of 320) 4 example_block w = Inl (Undefined Out_of_bounds)"
    by (rule send_buf_overruns [OF example_block_at]) (simp_all add: example_block_def)
qed

section \<open>Receiving\<close>

text \<open>Memory after \<open>idrnet_recv\<close> allocated its result \<open>r\<close> and its buffer \<open>q\<close>, with contents \<open>a\<close> and \<open>b\<close>.\<close>

definition recv_mem :: "mem \<Rightarrow> addr option list \<Rightarrow> byte option list \<Rightarrow> mem" where
  "recv_mem m a b = m\<lparr>blks := (blks m)(addr_of (brk m) \<mapsto> Ptrs a, addr_of (Suc (brk m)) \<mapsto> Bytes b), brk := Suc (Suc (brk m))\<rparr>"

lemma recv_addrs:
  assumes "mem_wf m" "Suc (brk m) < lim m"
  shows "addr_of (brk m) \<noteq> 0" "addr_of (Suc (brk m)) \<noteq> 0" "addr_of (Suc (brk m)) \<noteq> addr_of (brk m)"
proof -
  let ?m1 = "alloc_blk (Ptrs [None, None]) m"
  have "mem_wf ?m1" using mem_wf_alloc_blk [OF assms(1)] assms(2) by simp
  then show "addr_of (brk m) \<noteq> 0" "addr_of (Suc (brk m)) \<noteq> 0" "addr_of (Suc (brk m)) \<noteq> addr_of (brk m)"
    using mem_wf_fresh [OF assms(1)] mem_wf_fresh(2,3) [of ?m1] by auto
qed

lemma recv_mem_sel:
  assumes "mem_wf m" "Suc (brk m) < lim m"
  shows "blks (recv_mem m a b) (addr_of (Suc (brk m))) = Some (Bytes b)"
    "blks (recv_mem m a b) (addr_of (brk m)) = Some (Ptrs a)"
    "(recv_mem m a b)\<lparr>blks := (blks (recv_mem m a b))(addr_of (Suc (brk m)) \<mapsto> Bytes b')\<rparr> = recv_mem m a b'"
    "(recv_mem m a b)\<lparr>blks := (blks (recv_mem m a b))(addr_of (brk m) \<mapsto> Ptrs a')\<rparr> = recv_mem m a' b"
  using recv_addrs(3) [OF assms] by (simp_all add: recv_mem_def fun_upd_twist)

lemma recv_alloc:
  assumes "Suc (brk m) < lim m" "n < 2 ^ 63"
  obtains m1 where "c_malloc_ptrs 2 m = (addr_of (brk m), m1)"
    "c_malloc n m1 = (addr_of (Suc (brk m)), recv_mem m [None, None] (replicate n None))"
proof
  have two: "replicate 2 None = [None, None :: addr option]" by (simp add: numeral_2_eq_2)
  let ?m1 = "alloc_blk (Ptrs [None, None]) m"
  show "c_malloc_ptrs 2 m = (addr_of (brk m), ?m1)"
    "c_malloc n ?m1 = (addr_of (Suc (brk m)), recv_mem m [None, None] (replicate n None))"
    using assms two by (simp_all add: c_malloc_ptrs_def can_alloc_def alloc_blk_def c_malloc_def recv_mem_def)
qed

lemma recv_message:
  assumes "mem_wf m" "Suc (brk m) < lim m" "length bs \<le> n" "net_recv net sockfd n 0 w = (Some bs, w')"
  defines "q \<equiv> addr_of (Suc (brk m))"
  shows "c_memset q 0 (n + 1) (recv_mem m a (replicate (n + 1) None)) = Inr (recv_mem m a (replicate (n + 1) (Some 0)))"
    "c_recv net sockfd q n 0 (recv_mem m a (replicate (n + 1) (Some 0))) w =
       Inr (int (length bs), recv_mem m a (map Some bs @ replicate (n + 1 - length bs) (Some 0)), w')"
  using recv_addrs [OF assms(1,2)] assms(3,4)
  by (simp_all add: c_memset_def c_recv_def c_store_bytes_def get_bytes_def recv_mem_sel [OF assms(1,2)] q_def del: replicate_Suc)

lemma recv_fields:
  assumes "mem_wf m" "Suc (brk m) < lim m" "k < 2 ^ 31"
  defines "r \<equiv> addr_of (brk m)" and "l \<equiv> word_of_int (int k) :: addr"
  shows "store_field r recv_result (int k) (recv_mem m [None, None] z) = Inr (recv_mem m [Some l, None] z)"
    "store_ptr r recv_payload q (recv_mem m [Some l, None] z) = Inr (recv_mem m [Some l, Some q] z)"
    "load_field r recv_result (recv_mem m [Some l, Some q] z) = Inr (int k)"
    "load_ptr r recv_payload (recv_mem m [Some l, Some q] z) = Inr q"
proof -
  have "c_conv Int32 (int k) = int k" "uint l = int k"
    using assms(3) by (simp_all add: in_range_code l_def unsigned_of_nat take_bit_nat_eq_self)
  then show "store_field r recv_result (int k) (recv_mem m [None, None] z) = Inr (recv_mem m [Some l, None] z)"
    "store_ptr r recv_payload q (recv_mem m [Some l, None] z) = Inr (recv_mem m [Some l, Some q] z)"
    "load_field r recv_result (recv_mem m [Some l, Some q] z) = Inr (int k)"
    "load_ptr r recv_payload (recv_mem m [Some l, Some q] z) = Inr q"
    using recv_addrs(1) [OF assms(1,2)]
    by (simp_all add: store_field_def store_ptr_def load_field_def load_ptr_def get_ptrs_def upd_res_def nth_res_def
        recv_mem_sel [OF assms(1,2)] recv_result_def recv_payload_def r_def l_def)
qed

text \<open>The terminating NUL goes one byte past the message's end, so a full buffer is overrun.\<close>

lemma recv_nul:
  assumes "mem_wf m" "Suc (brk m) < lim m" "length bs \<le> n"
  defines "z \<equiv> map Some bs @ replicate (n + 1 - length bs) (Some 0)"
  shows "store_byte (addr_of (Suc (brk m))) (int (length bs) + 1) 0 (recv_mem m a z) =
    (if length bs = n then Inl (Undefined Out_of_bounds) else Inr (recv_mem m a z))"
proof (cases "length bs = n")
  case True
  then show ?thesis
    using recv_addrs(2) [OF assms(1,2)]
    by (simp add: store_byte_def get_bytes_def upd_res_def recv_mem_sel [OF assms(1,2)] z_def)
next
  case False
  then have "z[Suc (length bs) := Some 0] = z"
    unfolding z_def using assms(3) by (intro list_update_same_conv [THEN iffD2]) (simp_all add: nth_append)
  moreover have "length z = n + 1" using assms(3) by (simp add: z_def)
  ultimately show ?thesis
    using False assms(3) recv_addrs(2) [OF assms(1,2)]
    by (simp add: store_byte_def get_bytes_def upd_res_def recv_mem_sel [OF assms(1,2)] nat_add_distrib)
qed

text \<open>C35. \<open>idrnet_recv\<close> with a length of \<open>len\<close> bytes, when data arrives: with fewer bytes than asked for, the
  result structure holds their number and a block with the data followed by zeros, a C string; when exactly
  \<open>len\<close> bytes arrive (\<open>len > 0\<close>), the terminating zero is written outside the block.\<close>

theorem recv_correct:
  assumes "net_documented net" "mem_wf m" "0 \<le> len" "len < 2 ^ 31 - 1" "Suc (brk m) < lim m"
    and "net_recv net sockfd (nat len) 0 w = (Some bs, w')"
  shows "if bs \<noteq> [] \<and> length bs = nat len
    then idrnet_recv net sockfd len m w = Inl (Undefined Out_of_bounds)
    else \<exists>r q m'. idrnet_recv net sockfd len m w = Inr (r, m', w') \<and>
      idrnet_get_recv_res r m' = Inr (int (length bs)) \<and> idrnet_get_recv_payload r m' = Inr q \<and>
      bytes_at q (bs @ replicate (nat len + 1 - length bs) 0) m'"
proof -
  let ?n = "nat len" and ?r = "addr_of (brk m)" and ?q = "addr_of (Suc (brk m))"
  let ?z = "map Some bs @ replicate (?n + 1 - length bs) (Some 0)"
  let ?m' = "recv_mem m [Some (word_of_int (int (length bs))), Some ?q] ?z"
  have le: "length bs \<le> ?n" using assms(1,6) unfolding net_documented_def by blast
  have k: "length bs < 2 ^ 31" "?n + 1 < 2 ^ 63" using le assms(3,4) by simp_all
  have size: "c_add Int32 len 1 = Inr (len + 1)" "c_size (len + 1) = ?n + 1" "c_size len = ?n"
    using assms(3,4) by (simp_all add: c_add_def c_promote_def c_fit_def in_range_code c_size_def nat_add_distrib)
  obtain m1 where alloc: "c_malloc_ptrs 2 m = (?r, m1)"
    "c_malloc (?n + 1) m1 = (?q, recv_mem m [None, None] (replicate (?n + 1) None))"
    using recv_alloc [OF assms(5) k(2)] .
  note fields = recv_fields(1) [OF assms(2,5) k(1), of ?z] recv_fields(2-4) [OF assms(2,5) k(1), of ?q ?z]
  have "idrnet_recv net sockfd len m w =
      (if bs \<noteq> [] \<and> length bs = ?n then Inl (Undefined Out_of_bounds) else Inr (?r, ?m', w'))"
    using size alloc recv_message [OF assms(2,5) le assms(6)] fields recv_nul [OF assms(2,5) le]
    by (cases "bs = []") (simp_all add: idrnet_recv_def del: replicate_Suc)
  then show ?thesis
    using fields recv_addrs(2) [OF assms(2,5)] recv_mem_sel(1) [OF assms(2,5)]
    by (auto simp: idrnet_get_recv_res_def idrnet_get_recv_payload_def bytes_at_def simp del: replicate_Suc)
qed

text \<open>A network that delivers the three bytes \<open>abc\<close> to every call.\<close>

definition example_net :: "unit net" where
  "example_net =
     \<lparr>net_socket = (\<lambda>_ _ _ w. (3, w)), net_close = (\<lambda>_ w. (0, w)),
      net_getaddrinfo = (\<lambda>_ _ _ _ _ w. (1, \<lparr>ai_id = 0, ai_addr = []\<rparr>, w)), net_freeaddrinfo = (\<lambda>_ w. w),
      net_bind = (\<lambda>_ _ w. (0, w)), net_connect = (\<lambda>_ _ w. (0, w)), net_getsockname = (\<lambda>_ w. (-1, [])),
      net_listen = (\<lambda>_ _ w. (0, w)), net_fdopen = (\<lambda>_ _ w. (0, w)), net_accept = (\<lambda>_ w. (-1, [], w)),
      net_send = (\<lambda>_ bs w. (int (length bs), w)), net_sendto = (\<lambda>_ bs _ w. (int (length bs), w)),
      net_recv = (\<lambda>_ n _ w. (Some (take n [97, 98, 99]), w)), net_recvfrom = (\<lambda>_ n w. (None, w)),
      net_perror = (\<lambda>_ w. w)\<rparr>"

theorem recv_correct_witness:
  "if [97, 98, 99 :: byte] \<noteq> [] \<and> length [97, 98, 99 :: byte] = nat 5
    then idrnet_recv example_net 3 5 (init_mem 1000) example_io = Inl (Undefined Out_of_bounds)
    else \<exists>r q m'. idrnet_recv example_net 3 5 (init_mem 1000) example_io = Inr (r, m', example_io) \<and>
      idrnet_get_recv_res r m' = Inr (int (length [97, 98, 99 :: byte])) \<and> idrnet_get_recv_payload r m' = Inr q \<and>
      bytes_at q ([97, 98, 99] @ replicate (nat 5 + 1 - length [97, 98, 99 :: byte]) 0) m'"
  by (rule recv_correct)
    (use rt_wf_mem_wf [OF rt_wf_example] in \<open>auto simp: net_documented_def example_net_def\<close>)

end
