(* ===== verification/Windows_Correct.thy ===== *)
theory Windows_Correct
  imports Windows Net_Correct
begin

text \<open>
  Windows times, wide names, processor counting, signal collection and socket start-up.
\<close>

section \<open>Times\<close>

text \<open>The seconds since 1970 and the nanoseconds of a \<open>FILETIME\<close>, which counts steps of 100 ns since 1601.\<close>

definition unix_seconds :: "FILETIME \<Rightarrow> int" where
  "unix_seconds t = uint (quad_part t) div 10000000 - 11644473600"

definition unix_nanoseconds :: "FILETIME \<Rightarrow> int" where
  "unix_nanoseconds t = uint (quad_part t) mod 10000000 * 100"

lemma quad_part_parts:
  "uint (quad_part t div 10000000) = unix_seconds t + 11644473600"
  "uint (quad_part t mod 10000000 * 100) = unix_nanoseconds t"
  "0 \<le> unix_nanoseconds t" "unix_nanoseconds t < 1000000000" "-11644473600 \<le> unix_seconds t" "unix_seconds t < 2 ^ 62"
proof -
  let ?q = "quad_part t"
  show "uint (?q div 10000000) = unix_seconds t + 11644473600" by (simp add: uint_div unix_seconds_def)
  have r: "uint ?q mod 10000000 < 10000000" "0 \<le> uint ?q mod 10000000" by simp_all
  then show "0 \<le> unix_nanoseconds t" "unix_nanoseconds t < 1000000000" by (simp_all add: unix_nanoseconds_def)
  have "uint (?q mod 10000000 * 100) = uint ?q mod 10000000 * 100 mod 2 ^ 64"
    by (simp add: uint_word_ariths uint_mod)
  also have "\<dots> = uint ?q mod 10000000 * 100" by (rule mod_pos_pos_trivial) (use r in simp_all)
  finally show "uint (?q mod 10000000 * 100) = unix_nanoseconds t" by (simp add: unix_nanoseconds_def)
  have "0 \<le> uint ?q" "uint ?q < 2 ^ 64" using unsigned_less [of ?q, where ?'a = int] by simp_all
  then have "0 \<le> uint ?q div 10000000" "uint ?q div 10000000 < 2 ^ 62"
    using pos_imp_zdiv_nonneg_iff [of 10000000 "uint ?q"] by simp_all
  then show "-11644473600 \<le> unix_seconds t" "unix_seconds t < 2 ^ 62" by (simp_all add: unix_seconds_def)
qed

text \<open>C39. The Windows clock: \<open>win32_gettime\<close> never overflows, its nanoseconds are in range, and seconds and
  nanoseconds together are exactly the time since 1970 that the system's count of 100 ns steps since
  1601 stands for.\<close>

theorem win32_gettime_exact:
  "\<exists>sec nsec. win32_gettime W w = Inr (sec, nsec) \<and> 0 \<le> nsec \<and> nsec < 1000000000 \<and>
    1000000000 * sec + nsec =
      100 * (uint (quad_part (win_GetSystemTimePreciseAsFileTime W w)) - 116444736000000000)"
proof -
  let ?t = "win_GetSystemTimePreciseAsFileTime W w"
  note parts = quad_part_parts [of ?t]
  have conv: "c_conv Int64 (unix_nanoseconds ?t) = unix_nanoseconds ?t"
    "c_conv Int64 (unix_seconds ?t + 11644473600) = unix_seconds ?t + 11644473600"
    using parts(3-6) by (simp_all add: in_range_code)
  have "win32_gettime W w = Inr (unix_seconds ?t, unix_nanoseconds ?t)"
    unfolding win32_gettime_def Let_def parts(1,2) conv
    using parts(5,6) by (simp add: c_sub_def c_promote_def c_fit_def in_range_code)
  moreover have "1000000000 * unix_seconds ?t + unix_nanoseconds ?t = 100 * (uint (quad_part ?t) - 116444736000000000)"
  proof -
    have scale: "1000000000 * (d - 11644473600) + r * 100 = 100 * (q - 116444736000000000)"
      if "d * 10000000 + r = q" for q d r :: int unfolding that [symmetric] by (simp add: algebra_simps)
    show ?thesis unfolding unix_seconds_def unix_nanoseconds_def by (rule scale) (rule div_mult_mod_eq)
  qed
  ultimately show ?thesis using parts(3,4) by blast
qed

section \<open>The number of processors\<close>

definition popcount :: "addr \<Rightarrow> nat" where
  "popcount v = length (filter (bit v) [0..<64])"

lemma and_single_bit: "(v :: addr) AND push_bit k 1 \<noteq> 0 \<longleftrightarrow> k < 64 \<and> bit v k"
proof
  assume "v AND push_bit k 1 \<noteq> 0"
  then obtain i where "bit (v AND push_bit k 1) i" using bit_eqI [of "v AND push_bit k 1" 0] by auto
  then show "k < 64 \<and> bit v k"
    by (auto simp: bit_and_iff bit_push_bit_iff bit_1_iff simp del: push_bit_of_1 dest: bit_imp_le_length)
next
  assume "k < 64 \<and> bit v k"
  then have "bit (v AND push_bit k 1) k"
    by (simp add: bit_and_iff bit_push_bit_iff bit_1_iff del: push_bit_of_1)
  then show "v AND push_bit k 1 \<noteq> 0" by auto
qed

lemma half_bit: "k < 63 \<Longrightarrow> push_bit (Suc k) (1 :: addr) div 2 = push_bit k 1"
proof -
  have "push_bit (Suc k) (1 :: addr) div 2 = drop_bit 1 (push_bit 1 (push_bit k 1))"
    by (simp add: drop_bit_eq_div del: push_bit_of_1)
  also have "\<dots> = push_bit k 1" if "k < 63"
    using that bit_push_bit_iff [of 1 "push_bit k (1 :: addr)"] bit_push_bit_iff [of k "1 :: addr"]
    by (intro bit_word_eqI) (simp add: bit_drop_bit_eq bit_1_iff del: push_bit_of_1 push_bit_push_bit, linarith)
  finally show "k < 63 \<Longrightarrow> push_bit (Suc k) (1 :: addr) div 2 = push_bit k 1" .
qed

lemma count_bits_correct:
  assumes "0 \<le> n" "n + int (popcount v) < 2 ^ 31"
  shows "count_bits v n = Inr (n + int (popcount v))"
proof -
  let ?f = "\<lambda>i (bitTest, n). bindr (c_add Int32 n (if v AND bitTest \<noteq> 0 then 1 else 0)) (\<lambda>n1. Inr (bitTest div 2, n1))"
  let ?c = "\<lambda>k. int (length (filter (bit v) [64 - k..<64]))"
  let ?P = "\<lambda>k (bt :: addr, a). (k < 64 \<longrightarrow> bt = push_bit (63 - k) 1) \<and> a = n + ?c k"
  have "\<exists>s'. eachr ?f [0..<64] (push_bit 63 (1 :: addr), n) = Inr s' \<and> ?P 64 s'"
  proof (rule eachr_invariant [where P = ?P])
    show "?P 0 (push_bit 63 1, n)" by simp
  next
    fix k s assume k: "k < 64" and P: "?P k s"
    obtain bt a where s: "s = (bt, a)" by (cases s)
    have upt: "[64 - Suc k..<64] = (63 - k) # [64 - k..<64]" using k upt_conv_Cons [of "63 - k" 64] by (simp add: Suc_diff_le flip: Suc_diff_le)
    have test: "v AND bt \<noteq> 0 \<longleftrightarrow> bit v (63 - k)" using P k s and_single_bit [of v "63 - k"] by (simp del: push_bit_of_1) linarith
    have "[0..<64] = [0..<64 - Suc k] @ [64 - Suc k..<64]" using upt_add_eq_append [of 0 "64 - Suc k" "Suc k"] k by simp
    then have "popcount v = length (filter (bit v) [0..<64 - Suc k]) + length (filter (bit v) [64 - Suc k..<64])"
      unfolding popcount_def by (simp only: filter_append length_append)
    then have "?c (Suc k) \<le> int (popcount v)" by simp
    then have "c_add Int32 a (if v AND bt \<noteq> 0 then 1 else 0) = Inr (n + ?c (Suc k))"
      using assms P s test upt by (auto simp: c_add_Int32 in_range_code)
    moreover have "bt div 2 = push_bit (63 - Suc k) 1" if "Suc k < 64"
    proof -
      have "63 - k = Suc (63 - Suc k)" using that by simp
      then show ?thesis using P s that half_bit [of "63 - Suc k"] by (simp only: split_conv)
    qed
    ultimately show "\<exists>s'. ?f k s = Inr s' \<and> ?P (Suc k) s'" using s by simp
  qed
  then show ?thesis by (auto simp: count_bits_def popcount_def)
qed

text \<open>The masks of the processor cores among the entries of the information array.\<close>

fun core_masks :: "addr list \<Rightarrow> addr list" where
  "core_masks (m # rel # x # y # ws) =
     (if uint (take_bit 32 rel) = RelationProcessorCore then m # core_masks ws else core_masks ws)"
| "core_masks _ = []"

lemma core_masks_length: "4 * length (core_masks ws) \<le> length ws"
  by (induction ws rule: core_masks.induct) (auto split: if_splits)

lemma count_cores_correct:
  assumes "get_ptrs buffer m = Inr (map Some (us @ ws))" "length us = 4 * p" "length ws = 4 * d"
    and "0 \<le> np" "np + int (length (core_masks ws)) < 2 ^ 31"
    and "0 \<le> ns" "ns + int (sum_list (map popcount (core_masks ws))) < 2 ^ 31"
  shows "count_cores buffer p (32 * p) (32 * (p + d)) np ns m =
    Inr (np + int (length (core_masks ws)), ns + int (sum_list (map popcount (core_masks ws))))"
  using assms
proof (induction d arbitrary: p us ws np ns)
  case 0
  then show ?case by (subst count_cores.simps) (simp add: sizeof_info_def)
next
  case (Suc d)
  have "length ws = Suc (Suc (Suc (Suc (4 * d))))" using Suc.prems(3) by simp
  then obtain a rel x y ws' where ws: "ws = a # rel # x # y # ws'" "length ws' = 4 * d"
    by (auto simp: length_Suc_conv)
  let ?core = "uint (take_bit 32 rel) = RelationProcessorCore"
  let ?np = "if ?core then np + 1 else np" and ?ns = "if ?core then ns + int (popcount a) else ns"
  have load: "load_ptr buffer (4 * int p) m = Inr a" "load_ptr buffer (4 * int p + 1) m = Inr rel"
    using Suc.prems(1,2) ws by (simp_all add: load_ptr_def nth_res_def nth_append nat_add_distrib nat_mult_distrib)
  have step: "count_cores buffer p (32 * p) (32 * (p + Suc d)) np ns m =
      count_cores buffer (Suc p) (32 * Suc p) (32 * (Suc p + d)) ?np ?ns m"
    using Suc.prems(4-7) load count_bits_correct [of ns a] ws
    by (cases ?core) (simp_all add: count_cores.simps [of buffer p] sizeof_info_def c_add_Int32 in_range_code add.commute [of 32 "32 * p"])
  show ?case
    unfolding step using Suc.IH [of "us @ [a, rel, x, y]" ws' "Suc p" ?np ?ns] Suc.prems ws by (cases ?core) (simp_all add: add.assoc)
qed

text \<open>C38. \<open>win32_getNProcessors\<close>, when the system first reports the length it needs and then fills the buffer
  with that many entries: the result is the number of logical processors, the bits set in the masks of
  the entries for processor cores. The buffer allocated for the entries is still there afterwards.\<close>

theorem win32_getNProcessors_counts:
  assumes "mem_wf m" "brk m < lim m" "win_glpi W 0 w = (Inr (ERROR_INSUFFICIENT_BUFFER, 32 * n), w1)" "n < 2 ^ 27"
    and "win_glpi W (32 * n) w1 = (Inl ws, w2)" "length ws = 4 * n"
    and "sum_list (map popcount (core_masks ws)) < 2 ^ 31"
  shows "\<exists>m'. win32_getNProcessors (Suc (Suc fuel)) W m w = Inr (int (sum_list (map popcount (core_masks ws))), m', w2) \<and>
    blks m' (addr_of (brk m)) = Some (Ptrs (map Some ws))"
proof -
  let ?b = "addr_of (brk m)" and ?m = "alloc_blk (Ptrs (map Some ws)) m"
  have fresh: "?b \<noteq> 0" by (rule mem_wf_fresh(3) [OF assms(1)])
  have "c_malloc_ptrs (4 * n) m = (?b, alloc_blk (Ptrs (replicate (4 * n) None)) m)"
    using assms(2,4) by (simp add: c_malloc_ptrs_def can_alloc_def alloc_blk_def)
  moreover have "c_store_ptrs ?b ws (alloc_blk (Ptrs (replicate (4 * n) None)) m) = Inr ?m"
    using fresh assms(6) by (cases "ws = []") (simp_all add: c_store_ptrs_def get_ptrs_def alloc_blk_def)
  ultimately have "glpi_loop (Suc (Suc fuel)) W 0 0 m w = Inr (Some (?b, 32 * n), ?m, w2)"
    using assms(3,5,6) fresh by simp
  moreover have "length (core_masks ws) < 2 ^ 31" using core_masks_length [of ws] assms(4,6) by simp
  then have "count_cores ?b 0 0 (32 * n) 0 0 ?m =
      Inr (int (length (core_masks ws)), int (sum_list (map popcount (core_masks ws))))"
    using count_cores_correct [of ?b ?m "[]" ws 0 n 0 0] assms(6,7) fresh by (simp add: get_ptrs_def)
  ultimately show ?thesis by (simp add: win32_getNProcessors_def)
qed

text \<open>A system on which every call fails or does nothing, to be updated in examples.\<close>

definition idle_win :: "unit win" where
  "idle_win = \<lparr>win_get_osfhandle = \<lambda>_ _. INVALID_HANDLE_VALUE, win_WaitForSingleObject = \<lambda>_ _ w. (WAIT_TIMEOUT, w),
     win_MultiByteToWideChar = \<lambda>s. map ucast (s @ [0]), win_wfopen = \<lambda>_ _ w. (0, w), win_wpopen = \<lambda>_ _ w. (0, w),
     win_pclose = \<lambda>_ w. (-1, w), win_GetSystemTimePreciseAsFileTime = \<lambda>_. (0, 0), win_Sleep = \<lambda>_ w. w,
     win_getenv = \<lambda>_ _. None, win_putenv_s = \<lambda>_ _ w. (1, w), win_GetLastError = \<lambda>_. 0, win_getpid = \<lambda>_. 1,
     win_glpi = \<lambda>_ w. (Inr (0, 0), w), win_GetFileTime = \<lambda>_ _. None, win_isatty = \<lambda>_ _. 0,
     win_CreatePipe = \<lambda>w. (None, w), win_not_inherited = \<lambda>_ w. w, win_CreateProcess = \<lambda>_ _ _ w. (None, w),
     win_open_osfhandle = \<lambda>_ _ w. (-1, w), win_CloseHandle = \<lambda>_ w. w, win_fdopen = \<lambda>_ _ w. (0, w),
     win_GetExitCodeProcess = \<lambda>_ _. None, win_perror = \<lambda>_ w. w, win_stdout_handle = 0,
     win_GetConsoleMode = \<lambda>_ _. None, win_SetConsoleMode = \<lambda>_ _ w. w, win_srWindow = \<lambda>_ _. None,
     win_mkdir = \<lambda>_ w. (-1, w), win_WSAStartup = \<lambda>w. (0, w), win_close = \<lambda>_ w. (-1, w)\<rparr>"

theorem win32_getNProcessors_counts_witness:
  "let W = idle_win\<lparr>win_glpi := \<lambda>n w. (if n < 64 then Inr (ERROR_INSUFFICIENT_BUFFER, 64) else Inl [3, 0, 0, 0, 7, 2, 0, 0], w)\<rparr>;
       w = \<lparr>streams = Map.empty, errno = 0\<rparr>; ws = [3, 0, 0, 0, 7, 2, 0, 0] in
   \<exists>m'. win32_getNProcessors (Suc (Suc 0)) W (init_mem 1000) w = Inr (int (sum_list (map popcount (core_masks ws))), m', w) \<and>
    blks m' (addr_of (brk (init_mem 1000))) = Some (Ptrs (map Some ws))"
  unfolding Let_def
proof (rule win32_getNProcessors_counts [where n = 2])
  show "sum_list (map popcount (core_masks [3, 0, 0, 0, 7, 2, 0, 0])) < 2 ^ 31"
    by (simp add: popcount_def RelationProcessorCore_def upt_conv_Cons)
qed (use rt_wf_mem_wf [OF rt_wf_example] in simp_all)

section \<open>File times\<close>

text \<open>An \<open>int\<close> member as it is stored.\<close>

definition int_field :: "int \<Rightarrow> addr" where
  "int_field v = word_of_int (c_conv Int32 v)"

lemma int_field_read: "c_conv Int32 (uint (int_field v)) = c_conv Int32 v"
  by (simp add: int_field_def unsigned_of_int)

lemma new_field:
  assumes "mem_wf m" "0 \<le> i" "i < int (length ps)"
  shows "store_field (addr_of (brk m)) i v (alloc_blk (Ptrs ps) m) =
      Inr (alloc_blk (Ptrs (ps[nat i := Some (int_field v)])) m)"
    "ps ! nat i = Some (int_field v) \<Longrightarrow> load_field (addr_of (brk m)) i (alloc_blk (Ptrs ps) m) = Inr (c_conv Int32 v)"
  using mem_wf_fresh(3) [OF assms(1)] assms(2,3)
  by (simp_all add: store_field_def store_ptr_def load_field_def load_ptr_def get_ptrs_def upd_res_def nth_res_def
      int_field_def [symmetric] int_field_read alloc_blk_def)

text \<open>Subtracting the epoch after the truncation to \<open>int\<close> is as good as before it.\<close>

lemma c_conv_diff: "c_conv Int32 (c_conv Int32 (a + e) - e) = c_conv Int32 a"
proof -
  have "take_bit 32 (c_conv Int32 (a + e) - e) = take_bit 32 (take_bit 32 (c_conv Int32 (a + e)) - take_bit 32 e)"
    by (simp only: take_bit_diff)
  also have "\<dots> = take_bit 32 (take_bit 32 (a + e) - take_bit 32 e)" by simp
  also have "\<dots> = take_bit 32 a" by (simp only: take_bit_diff) simp
  finally show ?thesis by (simp add: c_conv_eq_iff)
qed

lemma store_filetime_result:
  assumes "mem_wf m" "0 \<le> i" "i < int (length ps)" "0 \<le> j" "j < int (length ps)"
  defines "b \<equiv> addr_of (brk m)"
  shows "store_filetime t (b, i) (b, j) (alloc_blk (Ptrs ps) m) =
    Inr (alloc_blk (Ptrs (ps[nat i := Some (int_field (unix_seconds t)), nat j := Some (int_field (unix_nanoseconds t))])) m)"
proof -
  let ?s = "c_conv Int32 (unix_seconds t + 11644473600)"
  have "- (2 ^ 31) \<le> ?s" "?s < 2 ^ 31"
    using c_conv_in_range [of Int32 "unix_seconds t + 11644473600"] by (simp_all add: in_range_code del: c_conv_in_range)
  then have "c_sub Int64 ?s 11644473600 = Inr (?s - 11644473600)"
    by (simp add: c_sub_def c_promote_def c_fit_def in_range_code)
  moreover have "int_field (?s - 11644473600) = int_field (unix_seconds t)"
    by (simp add: int_field_def c_conv_diff)
  ultimately show ?thesis
    using assms(1-5) by (simp add: store_filetime_def quad_part_parts(1,2) new_field nat_less_iff b_def)
qed

text \<open>The file times of the Windows branch: the three seconds and nanoseconds that the accessors return are
  those of the system, counted from 1970; the seconds are reduced to 32 bits, so they are exact from
  1901 to 2038, although the subtraction of the epoch is done after the truncation to \<open>int\<close>.\<close>

theorem fileTime_win_correct:
  assumes "mem_wf m" "brk m < lim m" "f \<noteq> 0" "streams w f = Some file"
    and "win_get_osfhandle W (file_no file) w = h" "h \<noteq> INVALID_HANDLE_VALUE" "win_GetFileTime W h w = Some (ct, at, mt)"
  shows "\<exists>ft m'. idris2_fileTime_win W f m w = Inr (ft, m') \<and>
    idris2_filetimeAccessTimeSec ft m' = Inr (c_conv Int32 (unix_seconds at)) \<and>
    idris2_filetimeAccessTimeNsec ft m' = Inr (unix_nanoseconds at) \<and>
    idris2_filetimeModifiedTimeSec ft m' = Inr (c_conv Int32 (unix_seconds mt)) \<and>
    idris2_filetimeModifiedTimeNsec ft m' = Inr (unix_nanoseconds mt) \<and>
    idris2_filetimeStatusTimeSec ft m' = Inr (c_conv Int32 (unix_seconds ct)) \<and>
    idris2_filetimeStatusTimeNsec ft m' = Inr (unix_nanoseconds ct)"
proof -
  let ?f = "\<lambda>t. [Some (int_field (unix_seconds t)), Some (int_field (unix_nanoseconds t))]"
  let ?b = "addr_of (brk m)" and ?m = "alloc_blk (Ptrs (?f at @ ?f mt @ ?f ct)) m"
  have six: "replicate 6 None = [None, None, None, None, None, None :: addr option]" by (simp add: eval_nat_numeral)
  then have "c_malloc_ptrs 6 m = (?b, alloc_blk (Ptrs [None, None, None, None, None, None]) m)"
    using assms(2) by (simp add: c_malloc_ptrs_def can_alloc_def alloc_blk_def)
  then have run: "idris2_fileTime_win W f m w = Inr (?b, ?m)"
    using assms(3-7)
    by (simp add: idris2_fileTime_win_def win32_getFileTime_def c_fileno_def store_filetime_result [OF assms(1)]
        filetime_atime_sec_def filetime_atime_nsec_def filetime_mtime_sec_def filetime_mtime_nsec_def
        filetime_ctime_sec_def filetime_ctime_nsec_def)
  have "c_conv Int32 (unix_nanoseconds t) = unix_nanoseconds t" for t
    using quad_part_parts(3,4) [of t] by (simp add: in_range_code)
  then have "load_field ?b 0 ?m = Inr (c_conv Int32 (unix_seconds at))" "load_field ?b 1 ?m = Inr (unix_nanoseconds at)"
    "load_field ?b 2 ?m = Inr (c_conv Int32 (unix_seconds mt))" "load_field ?b 3 ?m = Inr (unix_nanoseconds mt)"
    "load_field ?b 4 ?m = Inr (c_conv Int32 (unix_seconds ct))" "load_field ?b 5 ?m = Inr (unix_nanoseconds ct)"
    using new_field(2) [OF assms(1), of _ "?f at @ ?f mt @ ?f ct"] by simp_all
  with run show ?thesis
    by (simp add: idris2_filetimeAccessTimeSec_def idris2_filetimeAccessTimeNsec_def idris2_filetimeModifiedTimeSec_def
        idris2_filetimeModifiedTimeNsec_def idris2_filetimeStatusTimeSec_def idris2_filetimeStatusTimeNsec_def
        filetime_atime_sec_def filetime_atime_nsec_def filetime_mtime_sec_def filetime_mtime_nsec_def
        filetime_ctime_sec_def filetime_ctime_nsec_def)
qed

section \<open>Wide names\<close>

lemma wchar_bytes_read: "(ucast (ucast c :: byte) :: 16 word) OR push_bit 8 (ucast (ucast (drop_bit 8 c) :: byte)) = c"
  by (rule bit_word_eqI) (auto simp: bit_simps)

lemma wchar_bytes_zero: "(ucast (c :: 16 word) :: byte) = 0 \<and> (ucast (drop_bit 8 c) :: byte) = 0 \<longleftrightarrow> c = 0"
proof
  assume "(ucast c :: byte) = 0 \<and> (ucast (drop_bit 8 c) :: byte) = 0"
  then show "c = 0" using wchar_bytes_read [of c] by simp
qed simp

lemma until_wnul_bytes:
  "0 \<notin> set ws \<Longrightarrow> until_wnul (map Some (concat (map wchar_bytes (ws @ [0])))) = Inr ws"
proof (induction ws)
  case (Cons c ws)
  then show ?case using wchar_bytes_zero [of c] wchar_bytes_read [of c] by (auto simp: wchar_bytes_def)
qed (simp add: wchar_bytes_def)

text \<open>A C string is not affected by an allocation.\<close>

lemma c_string_alloc:
  assumes "mem_wf m" "c_string p i m = Inr s"
  shows "c_string p i (alloc_blk x m) = Inr s"
proof -
  have "p \<noteq> addr_of (brk m)"
    using assms mem_wf_fresh(2) [OF assms(1)] by (auto simp: c_string_def get_bytes_def bindr_eq_Inr split: if_splits)
  then have "get_bytes p (alloc_blk x m) = get_bytes p m" by (simp add: get_bytes_def)
  then show ?thesis using assms(2) by (simp add: c_string_def)
qed

lemma widen_result:
  assumes "mem_wf m" "brk m < lim m" "c_string p 0 m = Inr s" "win_MultiByteToWideChar W s = ws @ [0]" "length ws < 2 ^ 30 - 1"
  shows "widen_utf8 W p m = Inr (int (length ws) + 1, addr_of (brk m), alloc_blk (Bytes (map Some (concat (map wchar_bytes (ws @ [0]))))) m)"
proof -
  let ?n = "2 * length (ws @ [0])" and ?bs = "concat (map wchar_bytes (ws @ [0]))"
  have len: "length ?bs = ?n" by (induction ws) (simp_all add: wchar_bytes_def)
  have "c_mul Int32 2 (int (length (ws @ [0]))) = Inr (int ?n)" "c_size (int ?n) = ?n"
    using assms(5) by (simp_all add: c_mul_def c_promote_def c_fit_def in_range_code c_size_def)
  moreover have "c_malloc ?n m = (addr_of (brk m), alloc_blk (Bytes (replicate ?n None)) m)"
    using assms(2,5) by (simp add: c_malloc_def can_alloc_def alloc_blk_def)
  moreover have "c_store_bytes (addr_of (brk m)) 0 ?bs (alloc_blk (Bytes (replicate ?n None)) m) = Inr (alloc_blk (Bytes (map Some ?bs)) m)"
    using mem_wf_fresh(3) [OF assms(1)] len by (simp add: c_store_bytes_def get_bytes_def alloc_blk_def del: replicate_Suc)
  ultimately show ?thesis using assms(3,4) by (simp add: widen_utf8_def Let_def)
qed

text \<open>\<open>win32_u8fopen\<close> passes exactly the two names, widened by the system, to \<open>_wfopen\<close>, returns its result and
  leaves memory as it was: both temporary blocks are freed, and nothing outside them is accessed.\<close>

theorem win32_u8fopen_correct:
  assumes "mem_wf m" "Suc (brk m) < lim m" "c_string path 0 m = Inr p" "c_string mode 0 m = Inr md"
    and "win_MultiByteToWideChar W p = wp @ [0]" "0 \<notin> set wp" "length wp < 2 ^ 30 - 1"
    and "win_MultiByteToWideChar W md = wmd @ [0]" "0 \<notin> set wmd" "length wmd < 2 ^ 30 - 1"
    and "win_wfopen W wp wmd w = (f, w')"
  shows "\<exists>m'. win32_u8fopen W path mode m w = Inr (f, m', w') \<and> objs m' = objs m \<and> blks m' = blks m"
proof -
  let ?wide = "\<lambda>ws. Bytes (map Some (concat (map wchar_bytes (ws @ [0]))))"
  let ?m1 = "alloc_blk (?wide wp) m" and ?m2 = "alloc_blk (?wide wmd) (alloc_blk (?wide wp) m)"
  let ?a = "addr_of (brk m)" and ?b = "addr_of (Suc (brk m))"
  have b: "brk m < lim m" using assms(2) by simp
  have wf1: "mem_wf ?m1" by (rule mem_wf_alloc_blk [OF assms(1) b])
  have fresh: "?a \<noteq> 0" "?b \<noteq> 0" "?b \<noteq> ?a" "blks m ?a = None" "blks m ?b = None"
    using mem_wf_fresh [OF assms(1)] mem_wf_fresh [OF wf1] by (auto split: if_splits)
  have "widen_utf8 W path m = Inr (int (length wp) + 1, ?a, ?m1)"
    by (rule widen_result [OF assms(1) b assms(3,5,7)])
  moreover have "widen_utf8 W mode ?m1 = Inr (int (length wmd) + 1, ?b, ?m2)"
    using widen_result [OF wf1 _ c_string_alloc [OF assms(1,4)] assms(8,10)] assms(2) by simp
  moreover have "c_wstring ?a ?m2 = Inr wp" "c_wstring ?b ?m2 = Inr wmd"
    using fresh until_wnul_bytes [OF assms(6)] until_wnul_bytes [OF assms(9)] by (simp_all add: c_wstring_def get_bytes_def)
  moreover have "bindr (c_free ?a ?m2) (\<lambda>m3. bindr (c_free ?b m3) (\<lambda>m4. Inr (f, m4, w'))) =
      Inr (f, ?m2\<lparr>blks := blks m\<rparr>, w')"
    using fresh by (simp add: c_free_def alloc_blk_def fun_upd_idem fun_upd_twist)
  ultimately have "win32_u8fopen W path mode m w = Inr (f, ?m2\<lparr>blks := blks m\<rparr>, w')"
    using assms(11) by (simp add: win32_u8fopen_def with_wide_def)
  then show ?thesis by simp
qed

section \<open>Signals\<close>

text \<open>The delivery of a signal by the C library: the handler is reset before it is called.\<close>

definition deliver_win :: "(int \<Rightarrow> bool) \<Rightarrow> int \<Rightarrow> win_process \<Rightarrow> win_process res" where
  "deliver_win can signum s =
     (if win_handlers s signum = Collect_signal
      then collect_signal_handler_win can signum (s\<lparr>win_handlers := (win_handlers s)(signum := SIG_DFL)\<rparr>)
      else if win_handlers s signum = SIG_IGN then Inr s
      else Inl Verify_failed)"


section \<open>Sockets\<close>

primrec sockets_win :: "'w win \<Rightarrow> 'w net \<Rightarrow> (int \<times> int \<times> int) list \<Rightarrow> win_sockets \<Rightarrow> 'w io_scheme \<Rightarrow>
    int list \<times> win_sockets \<times> 'w io_scheme" where
  "sockets_win W net [] s w = ([], s, w)"
| "sockets_win W net (a # as) s w =
     (let (family, type, protocol) = a;
          (r, s1, w1) = idrnet_socket_win W net family type protocol s w;
          (rs, s2, w2) = sockets_win W net as s1 w1
      in (r # rs, s2, w2))"

lemma check_init_inv:
  assumes "cleanups s = (if socket_inited s then 1 else 0)" "check_init W s w = (ok, s', w')"
  shows "cleanups s' = (if socket_inited s' then 1 else 0)" "ok = socket_inited s'" "socket_inited s \<Longrightarrow> s' = s \<and> w' = w"
  using assms by (auto simp: check_init_def Let_def split: if_splits prod.splits)

text \<open>Windows sockets are started at most once: after any sequence of \<open>idrnet_socket\<close> calls from the initial
  state, the clean-up function is registered once if the start-up has succeeded and not at all
  otherwise, and in the latter case every call has returned \<open>-1\<close>.\<close>

theorem sockets_win_init_once:
  assumes "sockets_win W net as \<lparr>socket_inited = False, cleanups = 0\<rparr> w = (rs, s', w')"
  shows "cleanups s' = (if socket_inited s' then 1 else 0) \<and> (socket_inited s' \<or> set rs \<subseteq> {-1})"
proof -
  have "cleanups s' = (if socket_inited s' then 1 else 0) \<and> (socket_inited s \<longrightarrow> socket_inited s') \<and>
      (socket_inited s' \<or> set rs \<subseteq> {-1})"
    if "cleanups s = (if socket_inited s then 1 else 0)" "sockets_win W net as s w = (rs, s', w')" for s rs w
    using that
  proof (induction as arbitrary: s w rs)
    case Nil
    then show ?case by auto
  next
    case (Cons a as)
    obtain family type protocol where a: "a = (family, type, protocol)" by (cases a)
    obtain ok s1 w1 where c: "check_init W s w = (ok, s1, w1)" by (cases "check_init W s w") auto
    note inv = check_init_inv [OF Cons.prems(1) c]
    obtain r w2 where r: "idrnet_socket_win W net family type protocol s w = (r, s1, w2)" "\<not> ok \<Longrightarrow> r = -1"
      using c by (cases ok; cases "net_socket net family type protocol w1") (auto simp: idrnet_socket_win_def)
    obtain rs' where rest: "sockets_win W net as s1 w2 = (rs', s', w')" "rs = r # rs'"
      using Cons.prems(2) a r(1) by (auto split: prod.splits)
    from Cons.IH [OF inv(1) rest(1)] show ?case using inv(2,3) r(2) rest(2) by auto
  qed
  from this [OF _ assms] show ?thesis by simp
qed

section \<open>Examples\<close>

lemma example_string: "c_string (addr_of 304) 0 (init_mem 1000) = Inr [0x4C, 0x69, 0x6E, 0x75, 0x78]"
  by (simp add: init_mem_def unat_addr_of static_obj_def static_blk_def c_string_def get_bytes_def addr_of_nonzero)

theorem fileTime_win_correct_witness:
  "let W = idle_win\<lparr>win_get_osfhandle := \<lambda>_ _. 0, win_GetFileTime := \<lambda>_ _. Some ((30000000, 0), (31000000, 5), (31000000, 9))\<rparr>;
       w = \<lparr>streams = [addr_of 7 \<mapsto> \<lparr>input = [], read_fails = False, written = [], write_fails = False, eof_flag = False,
              err_flag = False, file_no = 3\<rparr>], errno = 0\<rparr> in
   \<exists>ft m'. idris2_fileTime_win W (addr_of 7) (init_mem 1000) w = Inr (ft, m') \<and>
    idris2_filetimeAccessTimeSec ft m' = Inr (c_conv Int32 (unix_seconds (31000000, 5))) \<and>
    idris2_filetimeAccessTimeNsec ft m' = Inr (unix_nanoseconds (31000000, 5)) \<and>
    idris2_filetimeModifiedTimeSec ft m' = Inr (c_conv Int32 (unix_seconds (31000000, 9))) \<and>
    idris2_filetimeModifiedTimeNsec ft m' = Inr (unix_nanoseconds (31000000, 9)) \<and>
    idris2_filetimeStatusTimeSec ft m' = Inr (c_conv Int32 (unix_seconds (30000000, 0))) \<and>
    idris2_filetimeStatusTimeNsec ft m' = Inr (unix_nanoseconds (30000000, 0))"
  unfolding Let_def
  by (rule fileTime_win_correct [where h = 0])
    (use rt_wf_mem_wf [OF rt_wf_example] addr_of_nonzero [of 7] in \<open>simp_all add: INVALID_HANDLE_VALUE_def\<close>)

theorem win32_u8fopen_correct_witness:
  "let W = idle_win\<lparr>win_wfopen := \<lambda>p md w. (if p = [0x4C, 0x69, 0x6E, 0x75, 0x78] then 16 else 0, w)\<rparr>;
       w = \<lparr>streams = Map.empty, errno = 0\<rparr> in
   \<exists>m'. win32_u8fopen W (addr_of 304) (addr_of 304) (init_mem 1000) w = Inr (16, m', w) \<and>
     objs m' = objs (init_mem 1000) \<and> blks m' = blks (init_mem 1000)"
  unfolding Let_def
  by (rule win32_u8fopen_correct [where wp = "[0x4C, 0x69, 0x6E, 0x75, 0x78]" and wmd = "[0x4C, 0x69, 0x6E, 0x75, 0x78]"
        and p = "[0x4C, 0x69, 0x6E, 0x75, 0x78]" and md = "[0x4C, 0x69, 0x6E, 0x75, 0x78]"])
    (use rt_wf_mem_wf [OF rt_wf_example] example_string in \<open>simp_all add: idle_win_def\<close>)


theorem sockets_win_init_once_witness:
  "\<exists>rs s' w'. sockets_win idle_win example_net [(2, 1, 0), (2, 2, 0)] \<lparr>socket_inited = False, cleanups = 0\<rparr> example_io = (rs, s', w') \<and>
     cleanups s' = (if socket_inited s' then 1 else 0) \<and> (socket_inited s' \<or> set rs \<subseteq> {-1})"
  using sockets_win_init_once [of idle_win example_net "[(2, 1, 0), (2, 2, 0)]" example_io] by (metis prod_cases3)

end
