(* ===== verification/Samples.thy ===== *)
theory Samples
  imports Verify_Report Windows_Correct
begin

text \<open>
  The C sides of the samples for foreign calls: \<open>samples/FFI-readline/readline_glue/idris_readline.c\<close> and
  \<open>samples/ffi/smallc.c\<close>.
\<close>

section \<open>Readline completion\<close>

text \<open>The global variables: the completion function of the Idris program, and which function \<open>readline\<close> calls. A
  completion function gets the text to complete and a counter, and returns a string or null.\<close>

datatype entry_function = Filename_completion | Compentry_wrapper

record readline =
  my_compentry :: "(addr \<Rightarrow> int \<Rightarrow> mem \<Rightarrow> (addr \<times> mem) res) option"
  rl_completion_entry_function :: entry_function

definition compentry_wrapper :: "readline \<Rightarrow> addr \<Rightarrow> int \<Rightarrow> mem \<Rightarrow> (addr \<times> mem) res" where
  "compentry_wrapper rl txt i m =
     (case my_compentry rl of
        None \<Rightarrow> Inl (Undefined Null_deref)
      | Some f \<Rightarrow>
          bindr (f txt i m) (\<lambda>(res, m1).
          if res \<noteq> 0
          then bindr (c_strlen res 0 m1) (\<lambda>n.
               let (comp, m2) = c_malloc (n + 1) m1 in
               bindr (c_string res 0 m2) (\<lambda>s.
               bindr (c_store_bytes comp 0 (s @ [0]) m2) (\<lambda>m3. Inr (comp, m3))))
          else Inr (0, m1)))"

definition idrisrl_setCompletion :: "(addr \<Rightarrow> int \<Rightarrow> mem \<Rightarrow> (addr \<times> mem) res) \<Rightarrow> readline \<Rightarrow> readline" where
  "idrisrl_setCompletion fn rl =
     (rl\<lparr>rl_completion_entry_function := Compentry_wrapper\<rparr>)\<lparr>my_compentry := Some fn\<rparr>"

definition getString :: "addr \<Rightarrow> addr" where "getString str = str"
definition mkString :: "addr \<Rightarrow> addr" where "mkString str = str"
definition nullString :: addr where "nullString = 0"
definition isNullString :: "addr \<Rightarrow> int" where "isNullString str = c_bool (str = 0)"

text \<open>After \<open>idrisrl_setCompletion\<close>, a completion is handed to \<open>readline\<close> as a fresh copy of the text that the Idris
  program returned, so that both sides can free their own; null is passed on.\<close>

theorem compentry_wrapper_copies:
  assumes "fn txt i m = Inr (res, m1)" "mem_wf m1" "brk m1 < lim m1" "res \<noteq> 0 \<Longrightarrow> c_string res 0 m1 = Inr s" "length s < 2 ^ 62"
  shows "\<exists>comp m'. compentry_wrapper (idrisrl_setCompletion fn rl) txt i m = Inr (comp, m') \<and>
    (if res = 0 then comp = 0 \<and> m' = m1
     else comp = addr_of (brk m1) \<and> c_string comp 0 m' = Inr s \<and> c_string res 0 m' = Inr s \<and> mem_wf m')"
proof (cases "res = 0")
  case True
  then show ?thesis using assms(1) by (simp add: compentry_wrapper_def idrisrl_setCompletion_def)
next
  case False
  let ?a = "addr_of (brk m1)" and ?m = "alloc_blk (Bytes (map Some (s @ [0]))) m1"
  have s: "c_string res 0 m1 = Inr s" using assms(4) False by simp
  have fresh: "?a \<noteq> 0" by (rule mem_wf_fresh(3) [OF assms(2)])
  have nz: "0 \<notin> set s" using s until_nul_no_zero by (fastforce simp: c_string_def bindr_eq_Inr)
  have "c_malloc (length s + 1) m1 = (?a, alloc_blk (Bytes (replicate (length s + 1) None)) m1)"
    using assms(3,5) c_malloc_cases [of "length s + 1" m1] by simp
  moreover have "c_store_bytes ?a 0 (s @ [0]) (alloc_blk (Bytes (replicate (length s + 1) None)) m1) = Inr ?m"
    using fresh by (simp add: c_store_bytes_def get_bytes_def alloc_blk_def)
  ultimately have "compentry_wrapper (idrisrl_setCompletion fn rl) txt i m = Inr (?a, ?m)"
    using assms(1) False s c_string_alloc [OF assms(2) s]
    by (simp add: compentry_wrapper_def idrisrl_setCompletion_def c_strlen_def)
  moreover have "c_string ?a 0 ?m = Inr s" using fresh nz by (simp add: c_string_def get_bytes_def)
  ultimately show ?thesis
    using False c_string_alloc [OF assms(2) s] mem_wf_alloc_blk [OF assms(2,3)] by simp
qed

section \<open>smallc.c\<close>

definition add :: "int \<Rightarrow> int \<Rightarrow> int res" where
  "add x y = c_add Int32 x y"

text \<open>The printed text and the result.\<close>

definition addWithMessage :: "addr \<Rightarrow> int \<Rightarrow> int \<Rightarrow> mem \<Rightarrow> (byte list \<times> int) res" where
  "addWithMessage msg x y m =
     bindr (c_add Int32 x y) (\<lambda>z.
     bindr (c_string msg 0 m) (\<lambda>s.
     bindr (c_format (chars ''%s: %d + %d = %d'' @ [0x0A]) [Arg_string s, Arg_int x, Arg_int y, Arg_int z]) (\<lambda>txt.
     Inr (txt, z))))"

definition applyFn :: "addr \<Rightarrow> int \<Rightarrow> (addr \<Rightarrow> int \<Rightarrow> mem \<Rightarrow> (addr \<times> mem) res) \<Rightarrow> mem \<Rightarrow> (byte list \<times> addr \<times> mem) res" where
  "applyFn x y f m =
     bindr (c_string x 0 m) (\<lambda>s.
     bindr (c_format (chars ''Applying callback to %s %d'' @ [0x0A]) [Arg_string s, Arg_int y]) (\<lambda>txt.
     bindr (f x y m) (\<lambda>(r, m1). Inr (txt, r, m1))))"

definition applyFnPure :: "addr \<Rightarrow> int \<Rightarrow> (addr \<Rightarrow> int \<Rightarrow> mem \<Rightarrow> (addr \<times> mem) res) \<Rightarrow> mem \<Rightarrow> (addr \<times> mem) res" where
  "applyFnPure x y f m = f x y m"

definition point_x :: int where "point_x = 0"
definition point_y :: int where "point_y = 1"

definition mkPoint :: "int \<Rightarrow> int \<Rightarrow> mem \<Rightarrow> (addr \<times> mem) res" where
  "mkPoint x y m =
     (let (pt, m1) = c_malloc_ptrs 2 m in
      bindr (store_field pt point_x x m1) (\<lambda>m2.
      bindr (store_field pt point_y y m2) (\<lambda>m3. Inr (pt, m3))))"

definition freePoint :: "addr \<Rightarrow> mem \<Rightarrow> mem res" where
  "freePoint pt m = c_free pt m"

text \<open>A point holds its coordinates, and freeing it restores the memory; without memory the unchecked allocation is
  written through.\<close>

theorem mkPoint_freePoint:
  assumes "mem_wf m" "in_range Int32 x" "in_range Int32 y"
  shows "if brk m < lim m
    then \<exists>pt m1 m2. mkPoint x y m = Inr (pt, m1) \<and> load_field pt point_x m1 = Inr x \<and> load_field pt point_y m1 = Inr y \<and>
      freePoint pt m1 = Inr m2 \<and> blks m2 = blks m \<and> objs m2 = objs m
    else mkPoint x y m = Inl (Undefined Null_deref)"
proof (cases "brk m < lim m")
  case True
  let ?a = "addr_of (brk m)" and ?m = "alloc_blk (Ptrs [Some (int_field x), Some (int_field y)]) m"
  have "c_malloc_ptrs 2 m = (?a, alloc_blk (Ptrs [None, None]) m)"
    using True by (simp add: c_malloc_ptrs_def can_alloc_def alloc_blk_def numeral_2_eq_2 [symmetric])
      (simp add: numeral_2_eq_2)
  then have "mkPoint x y m = Inr (?a, ?m)"
    using new_field(1) [OF assms(1), of 0 "[None, None]" x] new_field(1) [OF assms(1), of 1 "[Some (int_field x), None]" y]
    by (simp add: mkPoint_def point_x_def point_y_def)
  moreover have "load_field ?a point_x ?m = Inr x" "load_field ?a point_y ?m = Inr y"
    using new_field(2) [OF assms(1), of _ "[Some (int_field x), Some (int_field y)]"] assms(2,3)
    by (simp_all add: point_x_def point_y_def)
  moreover have "freePoint ?a ?m = Inr (?m\<lparr>blks := blks m\<rparr>)"
    using mem_wf_fresh [OF assms(1)] by (simp add: freePoint_def c_free_def alloc_blk_def fun_upd_idem)
  ultimately show ?thesis using True by auto
next
  case False
  then show ?thesis by (simp add: mkPoint_def c_malloc_ptrs_def can_alloc_def store_field_def store_ptr_def get_ptrs_def)
qed

end
