(* ===== verification/Spec2Isabelle.thy ===== *)
theory Spec2Isabelle
  imports Bits_Correct Buffer_Correct Expressions Reuse_Correct Iterator_Lifecycle Concurrency_Correct Signals_Correct Process_Correct Samples
begin

text \<open>
  A verification development for the C code of Idris 2 (this repository is the Idric fork): the RefC runtime (\<open>src/_/support/refc\<close>), which
  every program compiled with the reference-counting C backend links, and the support library
  (\<open>src/_/support/c\<close>), which the Idris standard library calls through the foreign function interface.

  \<^bold>\<open>The program.\<close> A compiled program manipulates \<open>Idris2_Value *\<close> pointers. Small integers and
  characters live in the pointer itself; everything else is a heap object with a header (counter and
  tag) and a payload. Generated code takes references with \<open>idris2_newReference\<close>, drops them with
  \<open>idris2_removeReference\<close>, applies closures with \<open>idris2_apply_closure\<close> and runs tail calls with
  \<open>idris2_trampoline\<close>. Arithmetic, casts, strings, buffers and the mutable primitives (\<open>IORef\<close>, arrays,
  mutexes) are functions on such pointers. The support library is ordinary C on \<open>char *\<close>, \<open>FILE *\<close> and
  file descriptors: signals, line input, files, directories, processes, sockets, the terminal.

  \<^bold>\<open>Conventions\<close> (\<open>Prelude\<close>, \<open>C_Integers\<close>, \<open>C_Memory\<close>). A function that can abort, exit or run into
  undefined behaviour returns \<open>'a res = fault + 'a\<close>. Values of a C integer type are mathematical
  integers in its range (\<open>in_range\<close>), with the promotions, conversions and overflow rules of C written
  out (\<open>c_add\<close>, \<open>c_conv\<close>, ...); header fields and masks are words. Memory (\<open>mem\<close>) maps addresses to
  objects and to raw blocks; addresses are never reused, so a dangling access is a fault, and
  allocation fails at an arbitrary limit: a theorem either covers the failed allocation or states how
  much room it assumes (\<open>brk m\<close> below \<open>lim m\<close>). The model is the 64-bit little-endian POSIX configuration; the
  Windows branches are modelled beside it in \<open>Windows\<close>.

  \<^bold>\<open>The theories.\<close>
  \<^item> \<open>Datatypes\<close>, \<open>Memory_Management\<close>: \<open>refc/_datatypes.h\<close>, \<open>refc/memoryManagement.[ch]\<close>. Objects, tags, the
    unboxed representation, the constructor functions, \<open>idris2_newReference\<close>, the predefined objects.
  \<^item> \<open>Runtime\<close>: \<open>refc/runtime.c\<close>. Closures, dispatch, trampoline, tail calls, constructor reuse.
  \<^item> \<open>Ref_Invariant\<close>, \<open>Remove_Reference\<close>: the counting invariant \<open>rc_ok Z R m\<close> (every counter that is not
    saturated equals the number of references to its object from live objects and from the caller's
    references \<open>R\<close>; \<open>Z\<close> are objects under release) and \<open>idris2_removeReference\<close>. Dropping a reference is
    free of undefined behaviour and exact for arbitrary object graphs (strings, closures, constructors,
    references, arrays, buffers; objects with a finaliser, which runs user code, are outside \<open>rc_ok\<close>).
    Fuel of one more than the number of objects is enough.
    The contract \<open>dropped\<close> also says that a release never looks at a block that survives it.
  \<^item> \<open>Runtime_Correct\<close>: applying a closure keeps all counters right and extends the closure or runs its
    function; the trampoline computes exactly the end of the chain of its turns. Its fuel bounds the
    number of turns, and the equivalence holds for all large enough fuel.
  \<^item> \<open>Reuse_Correct\<close>: the pattern in which compiled case branches call \<open>idris2_isUnique\<close>,
    \<open>idris2_removeReuseConstructor\<close> and the constructor functions; it keeps all counters right and builds in
    place.
  \<^item> \<open>Libraries\<close>: GMP and floating point, which are not part of the repository, as records of functions;
    \<open>gmp_documented\<close> states what the GMP manual says, and has an instance.
  \<^item> \<open>Math_Functions\<close>, \<open>Math_Correct\<close>: \<open>refc/mathFunctions.[ch]\<close>. The locale \<open>int_box\<close> is the interface of the
    boxed and unboxed integer representations, interpreted on the model's \<open>vp_to\<close> and \<open>mk\<close>; arithmetic is
    wrap-around or a signed overflow, division is Euclidean, comparisons decide the order.
  \<^item> \<open>Bits_Correct\<close>: the shifts, the bitwise operations, the unsigned divisions and the negations, with the exact
    conditions under which C leaves them undefined, and the operations on big integers.
  \<^item> \<open>C_Strings\<close>, \<open>Casts\<close>, \<open>Casts_Correct\<close>: \<open>refc/casts.[ch]\<close>. Conversions are the C conversions, through
    \<open>Integer\<close> and through decimal text they round-trip.
  \<^item> \<open>Expressions\<close>: nested calls of the fixed-width primitives. A typing judgement, the numbers the
    expressions stand for, and type soundness: evaluation computes that number or its fault.
  \<^item> \<open>String_Ops\<close>, \<open>String_Correct\<close>, \<open>List_Conversion\<close>: \<open>refc/stringOps.c\<close>. The functions compute the list
    functions on byte strings; packing inverts unpacking. The loops over lists take fuel of one more
    than the length.
  \<^item> \<open>Iterator_Correct\<close>: string iterators. The locale \<open>iterator\<close> is the interface the Idris library walks,
    interpreted on the model's iterators; their finaliser gives back the blocks they own.
  \<^item> \<open>Iterator_Lifecycle\<close>: an iterator from its making to its collection, in the loop that the compiler emits. The
    finaliser runs inside \<open>idris2_removeReference\<close>, through closure application and trampoline, and memory is as it
    was before. Fuel of three is enough for the release.
  \<^item> \<open>Buffer\<close>: \<open>refc/buffer.[ch]\<close>. Little-endian access round-trips and never leaves the buffer.
  \<^item> \<open>Buffer_Correct\<close>: the typed accessors of \<open>buffer.h\<close> and strings in buffers round-trip.
  \<^item> \<open>Prim\<close>, \<open>Prim_Correct\<close>: \<open>refc/prim.c\<close>, \<open>refc/clock.c\<close>, \<open>refc/threads.c\<close>. \<open>IORef\<close>s are mutable cells;
    pthread calls are a parameter.
  \<^item> \<open>Concurrency_Correct\<close>: mutexes and conditions, what they refer to, what is left of them when they are
    collected, and the deadline of a wait with a timeout.
  \<^item> \<open>Array_Correct\<close>: arrays hold their elements with right counters. The locale \<open>mutable_array\<close> states the laws of
    reading and writing an element; it is interpreted on the model's arrays, and from it any sequence of
    reads and writes refines the same sequence on a list.
  \<^item> \<open>C_Util\<close>, \<open>Verify_Report\<close>: \<open>c/idris_util.[ch]\<close>, \<open>refc/refc_util.[ch]\<close>, \<open>c/idris_memory.c\<close>. The VERIFY macros, and
    what they print before \<open>abort\<close>, which is well defined only for messages without arguments.
  \<^item> \<open>Signals\<close>, \<open>Signals_Correct\<close>: \<open>c/idris_signal.c\<close>. A transition system of deliveries, concurrent callers and
    changes of action (an instance of the locale \<open>transitions\<close> of \<open>Prelude\<close>) refines a set of outstanding
    signals; the locale \<open>pending_set\<close> is what sequential callers rely on, and from it they drain the
    signals in order.
  \<^item> \<open>C_Stdio\<close>: streams, \<open>errno\<close>, \<open>realloc\<close> and exit statuses; the other system calls are the fields of the
    record \<open>os\<close>, a parameter.
  \<^item> \<open>File_Support\<close>, \<open>Support\<close>, \<open>File_Correct\<close>, \<open>Support_Correct\<close>: \<open>c/getline.c\<close>, \<open>c/idris_file.c\<close>,
    \<open>c/idris_support.c\<close>, \<open>c/idris_directory.c\<close>, \<open>c/idris_system.c\<close>, \<open>c/idris_term.c\<close>. Line input of any length
    stays inside its growing buffer and ends (fuel of one more than the input); error numbers
    round-trip; raw mode is undone.
  \<^item> \<open>Process_Correct\<close>: \<open>idris2_popen2\<close> on a table of file descriptors. \<open>fd_documented\<close> states what POSIX says of
    the calls; the two pipes connect the program and the shell, and no other end of them stays open.
  \<^item> \<open>Net\<close>, \<open>Net_Correct\<close>: \<open>c/idris_net.c\<close>, with the socket calls as the fields of the record \<open>net\<close>. Byte-order
    conversion and its bounds, sending a buffer, receiving a message.

  \<^item> \<open>Windows\<close>, \<open>Windows_Correct\<close>: \<open>c/windows\<close> and the \<open>_WIN32\<close> branches of the files above (names ending in
    \<open>_win\<close>), with the Windows API as the fields of the record \<open>win\<close>. Times, processor counting (fuel bounds
    the retries of the size query), wide file names, signal collection and the start of the sockets.
  \<^item> \<open>Samples\<close>: the C sides of the samples for foreign calls.

  \<^bold>\<open>Not modelled.\<close> Headers that only include or declare; code that is compiled out (\<open>#if 0\<close>, the memory
  statistics) or does not compile; 32-bit and big-endian configurations, macOS and BSD branches; the
  compiler, the Idris libraries and the Scheme and JavaScript support code, which are not C (of them only
  the decoding of \<open>idris2_fileErrno\<close> is stated).
\<close>

end
